theory Spec2Isabelle
  imports Complex_Main "HOL-Library.Word"
begin

section \<open>Playlist URIs (spotify/spotify.go)\<close>

text \<open>
  Go strings are byte sequences; a \<^typ>\<open>string\<close> is a list of bytes. The separator of
  a playlist URI is the single byte \<open>:\<close>, so \<open>strings.Count\<close>, \<open>strings.Index\<close> and
  \<open>strings.Split\<close> are modelled for a one-byte separator.
\<close>

primrec strings_Count :: "string \<Rightarrow> char \<Rightarrow> nat" where
  "strings_Count [] c = 0"
| "strings_Count (x # xs) c = (if x = c then Suc (strings_Count xs c) else strings_Count xs c)"

text \<open>\<open>strings.Index\<close>: the position of the first separator, \<open>None\<close> for Go's \<open>-1\<close>.\<close>

primrec strings_Index :: "string \<Rightarrow> char \<Rightarrow> nat option" where
  "strings_Index [] c = None"
| "strings_Index (x # xs) c =
     (if x = c then Some 0 else map_option Suc (strings_Index xs c))"

lemma strings_Index_less: "strings_Index s c = Some m \<Longrightarrow> m < length s"
  by (induction s arbitrary: m) (auto split: if_splits)

text \<open>
  \<open>strings.Split(s, sep)\<close> (\<open>genSplit\<close> with no limit): cut at the first separator,
  keep \<open>s[:m]\<close>, go on with \<open>s[m+1:]\<close>; the rest without a separator is the last field.
\<close>

function strings_Split :: "string \<Rightarrow> char \<Rightarrow> string list" where
  "strings_Split s c =
     (case strings_Index s c of
        None \<Rightarrow> [s]
      | Some m \<Rightarrow> take m s # strings_Split (drop (Suc m) s) c)"
  by pat_completeness auto
termination
  by (relation "measure (\<lambda>(s, c). length s)") (auto dest: strings_Index_less)

declare strings_Split.simps [simp del]

text \<open>
  Errors of the program as values. \<open>MalformedPlaylistURI n\<close> is the
  \<open>"Malformed playlist URI: expected 5 columns, given n."\<close> error of \<open>parsePlaylistURI\<close>;
  \<open>ChunkError i e\<close> is the \<open>"Something gone wrong while reading/removing ith chunk"\<close>
  wrapper around the error \<open>e\<close> of an API call; \<open>External msg\<close> is an error returned by a
  collaborator outside this program (network, file system, subprocess);
  \<open>IndexOutOfRange\<close> stands for Go's run-time panic on an index past the end of a slice.
\<close>

datatype error =
    MalformedPlaylistURI nat
  | ChunkError nat error
  | External string
  | CacheObsolete
  | LyricsNotFound
  | IndexOutOfRange

text \<open>Indexing a slice: Go panics outside the slice.\<close>

definition at_index :: "'a list \<Rightarrow> nat \<Rightarrow> error + 'a" where
  "at_index xs i = (if i < length xs then Inr (xs ! i) else Inl IndexOutOfRange)"

text \<open>
  \<open>parsePlaylistURI\<close> returns (owner field, playlist ID, error); the model returns
  \<open>Inl\<close> the error, or \<open>Inr\<close> the pair when the error is \<open>nil\<close>.
\<close>

definition parsePlaylistURI :: "string \<Rightarrow> error + (string \<times> string)" where
  "parsePlaylistURI playlistURI =
     (if strings_Count playlistURI CHR '':'' = 4 then
        (case at_index (strings_Split playlistURI CHR '':'') 2 of
           Inl e \<Rightarrow> Inl e
         | Inr owner \<Rightarrow>
             (case at_index (strings_Split playlistURI CHR '':'') 4 of
                Inl e \<Rightarrow> Inl e
              | Inr playlistID \<Rightarrow> Inr (owner, playlistID)))
      else Inl (MalformedPlaylistURI (strings_Count playlistURI CHR '':'')))"

text \<open>
  The Spotify Web API client (package \<open>github.com/zmb3/spotify\<close>) is an external
  collaborator: each call is a function of the network state \<open>'w\<close> that returns its
  result and the next state. \<open>'ft\<close> is \<open>spotify.FullTrack\<close>, \<open>'pl\<close> is
  \<open>spotify.FullPlaylist\<close>.
\<close>

record 'ft PlaylistTrack =
  IsLocal :: bool
  Track :: 'ft

record ('w, 'ft, 'pl) Client =
  GetPlaylist :: "string \<Rightarrow> 'w \<Rightarrow> (error + 'pl) \<times> 'w"
  GetPlaylistTracksOpt :: "string \<Rightarrow> nat \<Rightarrow> nat \<Rightarrow> 'w \<Rightarrow> (error + 'ft PlaylistTrack list) \<times> 'w"
  RemoveTracksFromPlaylist :: "string \<Rightarrow> string list \<Rightarrow> 'w \<Rightarrow> error option \<times> 'w"

text \<open>\<open>Playlist\<close>: on a URI error Go returns an empty playlist and the error.\<close>

definition Playlist :: "('w, 'ft, 'pl) Client \<Rightarrow> string \<Rightarrow> 'w \<Rightarrow> (error + 'pl) \<times> 'w" where
  "Playlist c playlistURI w =
     (case parsePlaylistURI playlistURI of
        Inl playlistErr \<Rightarrow> (Inl playlistErr, w)
      | Inr (owner, playlistID) \<Rightarrow> GetPlaylist c playlistID w)"

text \<open>
  The \<open>for true\<close> loop of \<open>PlaylistTracks\<close>: \<open>options.Limit\<close> is 50 and the offset is
  \<open>50 * iterations\<close>. The loop ends on an API error or on a chunk shorter than 50; an
  API that never sends a short chunk keeps it running, which is the value \<open>None\<close>.
\<close>

partial_function (option) playlistTracksLoop ::
  "('w, 'ft, 'pl) Client \<Rightarrow> string \<Rightarrow> nat \<Rightarrow> 'ft list \<Rightarrow> 'w \<Rightarrow> ((error + 'ft list) \<times> 'w) option"
where
  "playlistTracksLoop c playlistID iterations tracks w =
     (case GetPlaylistTracksOpt c playlistID 50 (50 * iterations) w of
        (Inl err, w') \<Rightarrow> Some (Inl (ChunkError iterations err), w')
      | (Inr chunk, w') \<Rightarrow>
          (let tracks' = tracks @ map Track (filter (\<lambda>track. \<not> IsLocal track) chunk) in
           if length chunk < 50 then Some (Inr tracks', w')
           else playlistTracksLoop c playlistID (iterations + 1) tracks' w'))"

definition PlaylistTracks ::
  "('w, 'ft, 'pl) Client \<Rightarrow> string \<Rightarrow> 'w \<Rightarrow> ((error + 'ft list) \<times> 'w) option"
where
  "PlaylistTracks c playlistURI w =
     (case parsePlaylistURI playlistURI of
        Inl playlistErr \<Rightarrow> Some (Inl playlistErr, w)
      | Inr (owner, playlistID) \<Rightarrow> playlistTracksLoop c playlistID 0 [] w)"

text \<open>
  A slice expression \<open>xs[lo:hi]\<close> on Go's \<open>int\<close> bounds; it panics unless
  \<open>0 \<le> lo \<le> hi \<le> len(xs)\<close> (the slice's capacity is taken to be its length).
\<close>

definition slice :: "'a list \<Rightarrow> int \<Rightarrow> int \<Rightarrow> error + 'a list" where
  "slice xs lo hi =
     (if 0 \<le> lo \<and> lo \<le> hi \<and> hi \<le> int (length xs)
      then Inr (take (nat (hi - lo)) (drop (nat lo) xs))
      else Inl IndexOutOfRange)"

text \<open>The loop of \<open>RemovePlaylistTracks\<close>, 50 IDs a call.\<close>

function removePlaylistTracksLoop ::
  "('w, 'ft, 'pl) Client \<Rightarrow> string \<Rightarrow> string list \<Rightarrow> nat \<Rightarrow> 'w \<Rightarrow> error option \<times> 'w"
where
  "removePlaylistTracksLoop c playlistID ids iterations w =
     (let lowerbound = int iterations * 50;
          upperbound = (if int (length ids) < lowerbound + 50
                        then lowerbound + (int (length ids) - lowerbound)
                        else lowerbound + 50)
      in case slice ids lowerbound upperbound of
           Inl panic \<Rightarrow> (Some panic, w)
         | Inr chunk \<Rightarrow>
             (case RemoveTracksFromPlaylist c playlistID chunk w of
                (Some err, w') \<Rightarrow> (Some (ChunkError iterations err), w')
              | (None, w') \<Rightarrow>
                  if length chunk < 50 then (None, w')
                  else removePlaylistTracksLoop c playlistID ids (iterations + 1) w'))"
  by pat_completeness auto
termination
proof (relation "measure (\<lambda>(c, playlistID, ids, iterations, w). length ids - 50 * iterations)")
  show "wf (measure (\<lambda>(c, playlistID, ids, iterations, w). length ids - 50 * iterations))"
    by simp
next
  fix c :: "('w, 'ft, 'pl) Client" and playlistID :: string and ids :: "string list"
    and iterations :: nat and w :: 'w and lowerbound upperbound :: int
    and chunk :: "string list" and r :: "error option \<times> 'w" and e :: "error option" and w' :: 'w
  assume lb: "lowerbound = int iterations * 50"
    and ub: "upperbound = (if int (length ids) < lowerbound + 50
                           then lowerbound + (int (length ids) - lowerbound)
                           else lowerbound + 50)"
    and sl: "slice ids lowerbound upperbound = Inr chunk"
    and len: "\<not> length chunk < 50"
  from sl have "chunk = take (nat (upperbound - lowerbound)) (drop (nat lowerbound) ids)"
    and "upperbound \<le> int (length ids)"
    by (auto simp: slice_def split: if_splits)
  with len lb have "50 * iterations + 50 \<le> length ids"
    by (auto simp: min_def split: if_splits)
  then show "((c, playlistID, ids, iterations + 1, w'), (c, playlistID, ids, iterations, w))
      \<in> measure (\<lambda>(c, playlistID, ids, iterations, w). length ids - 50 * iterations)"
    by simp
qed

declare removePlaylistTracksLoop.simps [simp del]

definition RemovePlaylistTracks ::
  "('w, 'ft, 'pl) Client \<Rightarrow> string \<Rightarrow> string list \<Rightarrow> 'w \<Rightarrow> error option \<times> 'w"
where
  "RemovePlaylistTracks c playlistURI ids w =
     (if length ids = 0 then (None, w)
      else case parsePlaylistURI playlistURI of
             Inl playlistErr \<Rightarrow> (Some playlistErr, w)
           | Inr (owner, playlistID) \<Rightarrow> removePlaylistTracksLoop c playlistID ids 0 w)"

section \<open>The synchronisation engine (package main): data\<close>

text \<open>
  \<open>track.SyncOptions\<close>, the per-track intent flags. The package \<open>track\<close> is not among
  the sources; its types are given by the fields package \<open>main\<close> reads and writes.
\<close>

record SyncOptions =
  Source :: bool
  Metadata :: bool
  Normalization :: bool

text \<open>
  Modelled from the spec: \<open>track.SyncOptionsDefault()\<close> is missing from the sources.
  Section 4.3: a track already present locally defaults to "no forced re-fetch, metadata
  refresh only if flagged"; section 8: an unchanged collection gives a working set where
  every option flag is false.
\<close>

definition SyncOptionsDefault :: SyncOptions where
  "SyncOptionsDefault = \<lparr>Source = False, Metadata = False, Normalization = False\<rparr>"

text \<open>
  Modelled from the spec: \<open>track.SyncOptionsFlush()\<close> is missing from the sources.
  Section 4.3: a track absent locally defaults to "must fetch, must flush metadata". The
  spec leaves the normalization flag of these options open; it is the parameter.
\<close>

definition SyncOptionsFlush :: "bool \<Rightarrow> SyncOptions" where
  "SyncOptionsFlush normalization =
     \<lparr>Source = True, Metadata = True, Normalization = normalization\<rparr>"

text \<open>
  A \<open>*track.Track\<close> is an address; the objects live in the heap of the program state.
  \<open>Artwork\<close> is a pointer to the image bytes, \<open>None\<close> for \<open>nil\<close>.
\<close>

type_synonym ptr = nat

record Track =
  SpotifyID :: string
  URL :: string
  Song :: string
  Artist :: string
  Lyrics :: string
  ArtworkURL :: string
  Artwork :: "string option"

text \<open>\<open>track.TracksDump\<close>; a \<open>time.Time\<close> is a count of nanoseconds.\<close>

record TracksDump =
  Tracks :: "ptr list"
  Time :: int

text \<open>\<open>track.Playlist\<close>; its \<open>Tracks\<close> field is \<open>PTracks\<close> here.\<close>

record Playlist =
  Name :: string
  Owner :: string
  PTracks :: "ptr list"

text \<open>\<open>provider.Entry\<close>; its \<open>URL\<close> field is \<open>EntryURL\<close> here.\<close>

record Entry =
  ID :: string
  Title :: string
  User :: string
  Duration :: int
  EntryURL :: string

text \<open>\<open>system.StringsFlag\<close>: the entries and what \<open>IsSet()\<close> answers.\<close>

record StringsFlag =
  Entries :: "string list"
  IsSet :: bool

text \<open>The command-line flags the engine reads, fixed by \<open>mainFlagsParse\<close>.\<close>

record args =
  argLibrary :: bool
  argAlbums :: StringsFlag
  argPlaylists :: StringsFlag
  argTracksFix :: StringsFlag
  argFlushCache :: bool
  argFlushLocal :: bool
  argFlushMetadata :: bool
  argDisablePlaylistFile :: bool
  argPlsFile :: bool
  argDisableLyrics :: bool
  argInteractive :: bool
  argInput :: bool
  argDebug :: bool
  argSimulate :: bool

text \<open>
  The user interface. A message is what \<open>fmt.Sprintf\<close> is given: the format (the
  constructor) and its arguments. An event of the interface is a call of \<open>ui.Append\<close>,
  \<open>ui.Prompt\<close>, \<open>ui.PromptInputMessage\<close>, \<open>ui.ProgressIncrease\<close>, \<open>ui.ProgressFill\<close> or
  \<open>system.Notify\<close>, with its options.
\<close>

datatype ui_option =
    PanelLeftTop | PanelLeftBottom | StyleBold | ParagraphAutoReturn
  | DebugAppend | WarningAppend | ErrorAppend
  | PromptExit | PromptBinary | PromptInput

datatype message =
    SourceCache string int int
  | FetchingLibrary
  | FetchingAlbum string
  | FetchingPlaylist string
  | UnableToFetchLibrary error
  | UnableToFetchAlbum error
  | UnableToFetchPlaylist error
  | UnableToCacheTracks error
  | FixSongs nat
  | SomethingWentWrong error
  | SongsOnline nat
  | SongsOffline int
  | SongsMissing int
  | NoSongNeedsDownload
  | WillBeDownloaded int int int
  | ProgressLine nat nat string
  | TrackRenamed string string
  | UnableToRename error
  | SearchingEntries string
  | UnableToSearch string string error
  | ResultMet Entry
  | ConfirmEntry string Entry bool
  | VideoGoodToGo string string
  | EnterURL string
  | NoEntryFound
  | WouldDownload Entry string
  | StillBestResult
  | SameOriginURL string string
  | GoingToDownload string
  | UnableToReconstructProvider string
  | DownloadWentWrong string error
  | SearchingLyrics string
  | LyricsProviderError error
  | ErrorText error
  | LaunchingJobs
  | CreatingPlaylistFile string
  | UnableToCreatePlaylistFile error
  | UnableToWritePlaylistFile error
  | TracksFailedToSynchronize nat
  | FailedTrack string
  | SyncedAndFailed int nat
  | Synced nat
  | SynchronizationCompleted
  | UnableToMoveSong error

datatype ui_event =
    Append message "ui_option list"
  | Prompt message "ui_option list"
  | PromptInputMessage message "ui_option list"
  | ProgressMax nat
  | ProgressIncrease
  | ProgressFill
  | Notify message

section \<open>Collaborators and program state\<close>

text \<open>
  Everything outside the process (files, network, clock, subprocesses, the user) is the
  world \<open>'w\<close>. A collaborator is a function of the world that returns its result and
  the next world, so no assumption is made on what the collaborators do. A content
  provider (\<open>provider.Provider\<close>) has the methods \<open>Name\<close>, \<open>Query\<close>, \<open>Match\<close>,
  \<open>Support\<close> and \<open>Download\<close>; a lyrics provider has \<open>Name\<close> and \<open>Query\<close>.
\<close>

record 'w Provider =
  ProviderName :: string
  Query :: "Track \<Rightarrow> 'w \<Rightarrow> (error + Entry list) \<times> 'w"
  Match :: "Entry \<Rightarrow> Track \<Rightarrow> 'w \<Rightarrow> error option \<times> 'w"
  Support :: "string \<Rightarrow> 'w \<Rightarrow> error option \<times> 'w"
  Download :: "Entry \<Rightarrow> string \<Rightarrow> 'w \<Rightarrow> error option \<times> 'w"

record 'w LyricsProvider =
  LyricsName :: string
  LyricsQuery :: "string \<Rightarrow> string \<Rightarrow> 'w \<Rightarrow> (error + string) \<times> 'w"

text \<open>
  The environment of a run: the methods of the missing packages (\<open>track\<close>, \<open>provider\<close>,
  \<open>lyrics\<close>, \<open>shell\<close>, \<open>cui\<close>, \<open>config\<close>, the Spotify client of \<open>main\<close>) and of the
  operating system, as parameters.
\<close>

record 'w env =
  Filename :: "Track \<Rightarrow> string"
  FilenameTemporary :: "Track \<Rightarrow> string"
  Basename :: "Track \<Rightarrow> string"
  Local :: "Track \<Rightarrow> 'w \<Rightarrow> bool"
  flushNormalization :: bool
  OpenLocalTrack :: "string \<Rightarrow> 'w \<Rightarrow> (error + ptr) \<times> 'w"
  CountOffline :: "(ptr \<Rightarrow> Track) \<Rightarrow> (ptr \<rightharpoonup> SyncOptions) \<Rightarrow> 'w \<Rightarrow> int"
  CountOnline :: "(ptr \<Rightarrow> Track) \<Rightarrow> (ptr \<rightharpoonup> SyncOptions) \<Rightarrow> 'w \<Rightarrow> int"
  Flush :: "Track \<Rightarrow> 'w \<Rightarrow> error option \<times> 'w"
  IndexSync :: "(string \<rightharpoonup> string) \<Rightarrow> string \<Rightarrow> 'w \<Rightarrow> 'w"
  FetchGob :: "string \<Rightarrow> 'w \<Rightarrow> (error + TracksDump) \<times> 'w"
  DumpGob :: "string \<Rightarrow> TracksDump \<Rightarrow> 'w \<Rightarrow> error option \<times> 'w"
  FileExists :: "string \<Rightarrow> 'w \<Rightarrow> bool"
  FileCopy :: "string \<Rightarrow> string \<Rightarrow> 'w \<Rightarrow> error option \<times> 'w"
  os_Remove :: "string \<Rightarrow> 'w \<Rightarrow> 'w"
  os_Rename :: "string \<Rightarrow> string \<Rightarrow> 'w \<Rightarrow> error option \<times> 'w"
  time_Now :: "'w \<Rightarrow> int \<times> 'w"
  http_Get :: "string \<Rightarrow> 'w \<Rightarrow> (error + string) \<times> 'w"
  cUserID :: string
  LibraryTracks :: "'w \<Rightarrow> (error + ptr list) \<times> 'w"
  AlbumTracks :: "string \<Rightarrow> 'w \<Rightarrow> (error + ptr list) \<times> 'w"
  ClientPlaylist :: "string \<Rightarrow> 'w \<Rightarrow> (error + string \<times> string) \<times> 'w"
  ClientPlaylistTracks :: "string \<Rightarrow> 'w \<Rightarrow> (error + ptr list) \<times> 'w"
  IDFromURI :: "string \<Rightarrow> string"
  cfgURI :: "string \<Rightarrow> string"
  usrGob :: "string \<Rightarrow> string \<Rightarrow> string"
  usrIndex :: string
  providers :: "'w Provider list"
  providerFor :: "string \<Rightarrow> error + 'w Provider"
  Empty :: "Entry \<Rightarrow> bool"
  lyricsProviders :: "'w LyricsProvider list"
  VolumeDetect :: "string \<Rightarrow> 'w \<Rightarrow> (error + real) \<times> 'w"
  VolumeIncrease :: "real \<Rightarrow> string \<Rightarrow> 'w \<Rightarrow> error option \<times> 'w"
  PromptAnswer :: "message \<Rightarrow> 'w \<Rightarrow> bool \<times> 'w"
  PromptInputAnswer :: "message \<Rightarrow> 'w \<Rightarrow> string \<times> 'w"
  slugMake :: "string \<Rightarrow> string"
  PLS :: "(ptr \<Rightarrow> Track) \<Rightarrow> Playlist \<Rightarrow> string"
  M3U :: "(ptr \<Rightarrow> Track) \<Rightarrow> Playlist \<Rightarrow> string"
  os_Create :: "string \<Rightarrow> 'w \<Rightarrow> error option \<times> 'w"
  WriteString :: "string \<Rightarrow> string \<Rightarrow> 'w \<Rightarrow> error option \<times> 'w"

text \<open>
  What the process does to the world, in program order: the calls of the collaborators
  that act on the world, and the operations of the Go runtime (\<open>go songProcess(...)\<close>,
  \<open>waitGroup.Wait()\<close>, \<open>close(waitGroupPool)\<close>, \<open>os.Exit\<close>).
\<close>

datatype effect =
    FetchGobCall string
  | DumpGobCall string TracksDump
  | RemoveCall string
  | RenameCall string string
  | FileCopyCall string string
  | NowCall
  | HttpGetCall string
  | LibraryTracksCall
  | AlbumTracksCall string
  | PlaylistCall string
  | PlaylistTracksCall string
  | OpenLocalTrackCall string
  | FlushCall ptr
  | IndexSyncCall string
  | QueryCall string ptr
  | MatchCall string Entry ptr
  | SupportCall string string
  | DownloadCall string Entry string
  | LyricsQueryCall string string string
  | VolumeDetectCall string
  | VolumeIncreaseCall real string
  | CreateCall string
  | WriteStringCall string string
  | GoSongProcess ptr
  | WaitGroupWait
  | ClosePool
  | OsExit

text \<open>
  The package-level variables of \<open>main\<close>, with the world, the heap of track objects, the
  log of interface events and the log of effects. \<open>tracks\<close> maps a track pointer to its
  options; each entry owns its options object (the constructors of \<open>track.SyncOptions\<close>
  allocate). \<open>exited\<close> says that \<open>os.Exit\<close> has been called.
\<close>

record 'w state =
  world :: 'w
  heap :: "ptr \<Rightarrow> Track"
  tracks :: "ptr \<rightharpoonup> SyncOptions"
  tracksIndex :: "string \<rightharpoonup> 64 word"
  artworks :: "string \<rightharpoonup> string"
  playlists :: "Playlist list"
  tracksFailed :: "ptr list"
  index :: "string \<rightharpoonup> string"
  ui :: "ui_event list"
  calls :: "effect list"
  exited :: bool

text \<open>
  A call of a collaborator from the program state: the effect is logged, the world is
  the one the collaborator leaves. \<open>perform\<close> is a call with no result.
\<close>

definition call :: "effect \<Rightarrow> ('w \<Rightarrow> 'a \<times> 'w) \<Rightarrow> 'w state \<Rightarrow> 'a \<times> 'w state" where
  "call ev f s =
     (case f (world s) of (a, w') \<Rightarrow> (a, s\<lparr>world := w', calls := calls s @ [ev]\<rparr>))"

definition perform :: "effect \<Rightarrow> ('w \<Rightarrow> 'w) \<Rightarrow> 'w state \<Rightarrow> 'w state" where
  "perform ev f s = s\<lparr>world := f (world s), calls := calls s @ [ev]\<rparr>"

definition ui_Append :: "message \<Rightarrow> ui_option list \<Rightarrow> 'w state \<Rightarrow> 'w state" where
  "ui_Append m opts s = s\<lparr>ui := ui s @ [Append m opts]\<rparr>"

text \<open>
  \<open>mainExit\<close>: the junk files are deleted (\<open>system.FileWildcardDelete\<close>, whose
  effect on the world is left out) and the process exits.
\<close>

definition mainExit :: "'w state \<Rightarrow> 'w state" where
  "mainExit s = s\<lparr>calls := calls s @ [OsExit], exited := True\<rparr>"

text \<open>
  Modelled from the spec: package \<open>cui\<close> is missing. \<open>ui.Prompt\<close> shows the message
  and waits for the user's answer; with \<open>cui.PromptExit\<close> the interface shuts down once
  the prompt is dismissed, which runs the handler \<open>mainUI\<close> registered
  (\<open>ui.OnShutdown\<close>: \<open>mainExit\<close>). Section 7: a source-fetch error is "reported and the
  run halts".
\<close>

definition ui_Prompt :: "'w env \<Rightarrow> message \<Rightarrow> ui_option list \<Rightarrow> 'w state \<Rightarrow> bool \<times> 'w state" where
  "ui_Prompt env m opts s =
     (case PromptAnswer env m (world s) of
        (answer, w') \<Rightarrow>
          (let s' = s\<lparr>world := w', ui := ui s @ [Prompt m opts]\<rparr>
           in (answer, if PromptExit \<in> set opts then mainExit s' else s')))"

section \<open>Ingestion into the working set\<close>

definition tracksInflateWithOption :: "'w env \<Rightarrow> ptr \<Rightarrow> SyncOptions \<Rightarrow> 'w state \<Rightarrow> 'w state" where
  "tracksInflateWithOption env t opts s =
     (let indexKey = FilenameTemporary env (heap s t) in
      if tracksIndex s indexKey \<noteq> None then s
      else s\<lparr>tracks := (tracks s)(t \<mapsto> opts),
              tracksIndex := (tracksIndex s)(indexKey \<mapsto> 1)\<rparr>)"

definition tracksInflate :: "'w env \<Rightarrow> ptr \<Rightarrow> 'w state \<Rightarrow> 'w state" where
  "tracksInflate env t s =
     (let opts = (if Local env (heap s t) (world s) then SyncOptionsDefault
                  else SyncOptionsFlush (flushNormalization env))
      in tracksInflateWithOption env t opts s)"

text \<open>\<open>for _, t := range ts { tracksInflate(t) }\<close>\<close>

definition inflateAll :: "'w env \<Rightarrow> ptr list \<Rightarrow> 'w state \<Rightarrow> 'w state" where
  "inflateAll env ts s = fold (tracksInflate env) ts s"

section \<open>The metadata cache and the fetch phase\<close>

text \<open>
  A \<open>time.Duration\<close> is a count of nanoseconds; \<open>time.Minute\<close> is
  \<open>60 * time.Second\<close>, and \<open>cacheDuration = 30 * time.Minute\<close>.
\<close>

definition time_Minute :: int where
  "time_Minute = 60 * 1000000000"

definition cacheDuration :: int where
  "cacheDuration = 30 * time_Minute"

text \<open>
  \<open>Time.Sub\<close> of the standard library: the difference of two instants as a
  \<open>time.Duration\<close> (an \<open>int64\<close>), the largest or smallest duration when the difference
  does not fit. \<open>time.Since(t)\<close> is \<open>time.Now().Sub(t)\<close>.
\<close>

definition maxDuration :: int where
  "maxDuration = 2 ^ 63 - 1"

definition minDuration :: int where
  "minDuration = - (2 ^ 63)"

definition time_Sub :: "int \<Rightarrow> int \<Rightarrow> int" where
  "time_Sub t u =
     (let d = t - u in
      if d > maxDuration then maxDuration else if d < minDuration then minDuration else d)"

definition time_Since :: "'w env \<Rightarrow> int \<Rightarrow> 'w state \<Rightarrow> int \<times> 'w state" where
  "time_Since env t s = (case call NowCall (time_Now env) s of (now, s') \<Rightarrow> (time_Sub now t, s'))"

definition fetchDump :: "'w env \<Rightarrow> string \<Rightarrow> 'w state \<Rightarrow> (error + TracksDump) \<times> 'w state" where
  "fetchDump env path s =
     (case call (FetchGobCall path) (FetchGob env path) s of
        (Inl err, s1) \<Rightarrow> (Inl err, s1)
      | (Inr dump, s1) \<Rightarrow>
          (case time_Since env (Time dump) s1 of
             (since, s2) \<Rightarrow>
               if since > cacheDuration then (Inl CacheObsolete, s2) else (Inr dump, s2)))"

text \<open>
  \<open>system.DumpGob(gob, track.TracksDump{Tracks: ts, Time: time.Now()})\<close> and the warning
  on its failure, as the three fetch functions write it.
\<close>

definition storeDump :: "'w env \<Rightarrow> string \<Rightarrow> ptr list \<Rightarrow> 'w state \<Rightarrow> 'w state" where
  "storeDump env gob ts s =
     (case call NowCall (time_Now env) s of
        (now, s1) \<Rightarrow>
          (case call (DumpGobCall gob \<lparr>Tracks = ts, Time = now\<rparr>)
                  (DumpGob env gob \<lparr>Tracks = ts, Time = now\<rparr>) s1 of
             (Some err, s2) \<Rightarrow> ui_Append (UnableToCacheTracks err) [WarningAppend] s2
           | (None, s2) \<Rightarrow> s2))"

text \<open>\<open>if argFlushCache { os.Remove(gob) }\<close>\<close>

definition flushCache :: "args \<Rightarrow> 'w env \<Rightarrow> string \<Rightarrow> 'w state \<Rightarrow> 'w state" where
  "flushCache a env gob s =
     (if argFlushCache a then perform (RemoveCall gob) (os_Remove env gob) s else s)"

text \<open>The use of a fresh snapshot: the cache line of the interface, then the ingestion.\<close>

definition useDump :: "'w env \<Rightarrow> string \<Rightarrow> TracksDump \<Rightarrow> 'w state \<Rightarrow> 'w state" where
  "useDump env title dump s =
     (case time_Since env (Time dump) s of
        (shown, s1) \<Rightarrow>
          inflateAll env (Tracks dump)
            (ui_Append (SourceCache title shown cacheDuration) [PanelLeftTop] s1))"

text \<open>The live fetch of the library (the rest of \<open>mainFetchLibrary\<close> after the cache).\<close>

definition libraryLive :: "'w env \<Rightarrow> string \<Rightarrow> 'w state \<Rightarrow> 'w state" where
  "libraryLive env gob s =
     (case call LibraryTracksCall (LibraryTracks env) (ui_Append FetchingLibrary [] s) of
        (Inl err, s1) \<Rightarrow>
          (let s2 = snd (ui_Prompt env (UnableToFetchLibrary err) [PromptExit] s1) in
           if exited s2 then s2 else inflateAll env [] (storeDump env gob [] s2))
      | (Inr library, s1) \<Rightarrow> inflateAll env library (storeDump env gob library s1))"

definition mainFetchLibrary :: "args \<Rightarrow> 'w env \<Rightarrow> 'w state \<Rightarrow> 'w state" where
  "mainFetchLibrary a env s =
     (if \<not> argLibrary a then s
      else
        let gob = usrGob env (cUserID env) ''library'' in
        case fetchDump env gob (flushCache a env gob s) of
          (Inl dumpErr, s1) \<Rightarrow> libraryLive env gob s1
        | (Inr dump, s1) \<Rightarrow>
            (case time_Since env (Time dump) s1 of
               (since, s2) \<Rightarrow>
                 if since < cacheDuration then useDump env ''Library'' dump s2
                 else libraryLive env gob s2))"

text \<open>A loop whose body may end the process: nothing runs after \<open>os.Exit\<close>.\<close>

fun forEach :: "('a \<Rightarrow> 'w state \<Rightarrow> 'w state) \<Rightarrow> 'a list \<Rightarrow> 'w state \<Rightarrow> 'w state" where
  "forEach body [] s = s"
| "forEach body (x # xs) s = (if exited s then s else forEach body xs (body x s))"

text \<open>\<open>alias := cfg.URI(uri); if len(alias) > 0 { uri = alias }\<close>\<close>

definition aliased :: "'w env \<Rightarrow> string \<Rightarrow> string" where
  "aliased env uri = (let alias = cfgURI env uri in if length alias > 0 then alias else uri)"

definition albumLive :: "'w env \<Rightarrow> string \<Rightarrow> string \<Rightarrow> 'w state \<Rightarrow> 'w state" where
  "albumLive env uri gob s =
     (case call (AlbumTracksCall uri) (AlbumTracks env uri)
             (ui_Append (FetchingAlbum (IDFromURI env uri)) [] s) of
        (Inl err, s1) \<Rightarrow>
          (let s2 = snd (ui_Prompt env (UnableToFetchAlbum err) [PromptExit] s1) in
           if exited s2 then s2 else inflateAll env [] (storeDump env gob [] s2))
      | (Inr album, s1) \<Rightarrow> inflateAll env album (storeDump env gob album s1))"

text \<open>The body of the loop of \<open>mainFetchAlbums\<close>.\<close>

definition fetchAlbum :: "args \<Rightarrow> 'w env \<Rightarrow> string \<Rightarrow> 'w state \<Rightarrow> 'w state" where
  "fetchAlbum a env uri0 s =
     (let uri = aliased env uri0;
          gob = usrGob env (cUserID env) (''album_'' @ IDFromURI env uri)
      in case fetchDump env gob (flushCache a env gob s) of
           (Inl dumpErr, s1) \<Rightarrow> albumLive env uri gob s1
         | (Inr dump, s1) \<Rightarrow>
             (case time_Since env (Time dump) s1 of
                (since, s2) \<Rightarrow>
                  if since < cacheDuration then useDump env (IDFromURI env uri) dump s2
                  else albumLive env uri gob s2))"

definition mainFetchAlbums :: "args \<Rightarrow> 'w env \<Rightarrow> 'w state \<Rightarrow> 'w state" where
  "mainFetchAlbums a env s =
     (if \<not> IsSet (argAlbums a) then s
      else forEach (fetchAlbum a env) (Entries (argAlbums a)) s)"

definition addPlaylist :: "Playlist \<Rightarrow> ptr list \<Rightarrow> 'w state \<Rightarrow> 'w state" where
  "addPlaylist playlist ts s = s\<lparr>playlists := playlists s @ [playlist\<lparr>PTracks := ts\<rparr>]\<rparr>"

definition playlistLive :: "'w env \<Rightarrow> string \<Rightarrow> string \<Rightarrow> Playlist \<Rightarrow> 'w state \<Rightarrow> 'w state" where
  "playlistLive env uri gob playlist s =
     (case call (PlaylistTracksCall uri) (ClientPlaylistTracks env uri)
             (ui_Append (FetchingPlaylist (IDFromURI env uri)) [] s) of
        (Inl err, s1) \<Rightarrow>
          (let s2 = snd (ui_Prompt env (UnableToFetchPlaylist err) [PromptExit] s1) in
           if exited s2 then s2
           else addPlaylist playlist [] (inflateAll env [] (storeDump env gob [] s2)))
      | (Inr p, s1) \<Rightarrow> addPlaylist playlist p (inflateAll env p (storeDump env gob p s1)))"

text \<open>The body of the loop of \<open>mainFetchPlaylists\<close>.\<close>

definition fetchPlaylist :: "args \<Rightarrow> 'w env \<Rightarrow> string \<Rightarrow> 'w state \<Rightarrow> 'w state" where
  "fetchPlaylist a env uri0 s =
     (let uri = aliased env uri0 in
      case call (PlaylistCall uri) (ClientPlaylist env uri) s of
        (p, s0) \<Rightarrow>
          (let playlist = (case p of
                             Inl err \<Rightarrow> \<lparr>Name = [], Owner = [], PTracks = []\<rparr>
                           | Inr (name, owner) \<Rightarrow> \<lparr>Name = name, Owner = owner, PTracks = []\<rparr>);
               gob = usrGob env (cUserID env) (''playlist_'' @ IDFromURI env uri)
           in case fetchDump env gob (flushCache a env gob s0) of
                (Inl dumpErr, s1) \<Rightarrow> playlistLive env uri gob playlist s1
              | (Inr dump, s1) \<Rightarrow>
                  (case time_Since env (Time dump) s1 of
                     (since, s2) \<Rightarrow>
                       if since < cacheDuration
                       then addPlaylist playlist (Tracks dump) (useDump env (Name playlist) dump s2)
                       else playlistLive env uri gob playlist s2)))"

definition mainFetchPlaylists :: "args \<Rightarrow> 'w env \<Rightarrow> 'w state \<Rightarrow> 'w state" where
  "mainFetchPlaylists a env s =
     (if \<not> IsSet (argPlaylists a) then s
      else forEach (fetchPlaylist a env) (Entries (argPlaylists a)) s)"

text \<open>The body of the loop of \<open>mainFetchTracksToFix\<close>.\<close>

definition fixTrack :: "'w env \<Rightarrow> string \<Rightarrow> 'w state \<Rightarrow> 'w state" where
  "fixTrack env tFix s =
     (case call (OpenLocalTrackCall tFix) (OpenLocalTrack env tFix) s of
        (Inl err, s1) \<Rightarrow> snd (ui_Prompt env (SomethingWentWrong err) [] s1)
      | (Inr t, s1) \<Rightarrow>
          tracksInflateWithOption env t (SyncOptionsFlush (flushNormalization env)) s1)"

definition mainFetchTracksToFix :: "args \<Rightarrow> 'w env \<Rightarrow> 'w state \<Rightarrow> 'w state" where
  "mainFetchTracksToFix a env s =
     (if \<not> IsSet (argTracksFix a) then s
      else forEach (fixTrack env) (Entries (argTracksFix a))
             (ui_Append (FixSongs (length (Entries (argTracksFix a)))) [PanelLeftTop] s))"

text \<open>A step of \<open>main\<close>: skipped once the process has exited.\<close>

definition running :: "('w state \<Rightarrow> 'w state) \<Rightarrow> 'w state \<Rightarrow> 'w state" where
  "running step s = (if exited s then s else step s)"

text \<open>The four fetch calls that open \<open>mainFetch\<close>.\<close>

definition fetchSources :: "args \<Rightarrow> 'w env \<Rightarrow> 'w state \<Rightarrow> 'w state" where
  "fetchSources a env s =
     running (mainFetchTracksToFix a env)
       (running (mainFetchPlaylists a env)
          (running (mainFetchAlbums a env)
             (running (mainFetchLibrary a env) s)))"

text \<open>
  The second pass of \<open>mainFetch\<close> over the working set:
  \<open>for _, opts := range tracks { opts.Metadata = true; if argFlushLocal { opts.Source = true } }\<close>
  under \<open>if argFlushLocal || argFlushMetadata\<close>.
\<close>

definition flushOverride :: "args \<Rightarrow> 'w state \<Rightarrow> 'w state" where
  "flushOverride a s =
     (if argFlushLocal a \<or> argFlushMetadata a then
        s\<lparr>tracks :=
             (\<lambda>t. map_option
                    (\<lambda>opts. if argFlushLocal a then opts\<lparr>Metadata := True, Source := True\<rparr>
                            else opts\<lparr>Metadata := True\<rparr>)
                    (tracks s t))\<rparr>
      else s)"

text \<open>
  The end of \<open>mainFetch\<close>: the three counters of the interface, \<open>track.IndexWait()\<close>
  (which waits for the index to be built and changes nothing here), and the exit on an
  empty working set. \<open>len(tracks)\<close> is the number of keys of the map.
\<close>

definition reportFetch :: "'w env \<Rightarrow> 'w state \<Rightarrow> 'w state" where
  "reportFetch env s =
     (let s1 = ui_Append (SongsOnline (card (dom (tracks s)))) [PanelLeftTop] s;
          s2 = ui_Append (SongsOffline (CountOffline env (heap s1) (tracks s1) (world s1)))
                 [PanelLeftTop] s1;
          s3 = ui_Append (SongsMissing (CountOnline env (heap s2) (tracks s2) (world s2)))
                 [PanelLeftTop] s2
      in if card (dom (tracks s3)) = 0
         then running mainExit (snd (ui_Prompt env NoSongNeedsDownload [PromptExit] s3))
         else s3)"

definition mainFetch :: "args \<Rightarrow> 'w env \<Rightarrow> 'w state \<Rightarrow> 'w state" where
  "mainFetch a env s =
     running (reportFetch env) (running (flushOverride a) (fetchSources a env s))"

section \<open>Post-processing of a track\<close>

text \<open>
  \<open>songNormalize\<close>. The volume is a \<open>float64\<close>; only its comparison with 0 and its
  absolute value are used, which are exact, so a \<^typ>\<open>real\<close> stands for it.
\<close>

definition songNormalize :: "'w env \<Rightarrow> ptr \<Rightarrow> SyncOptions \<Rightarrow> 'w state \<Rightarrow> error option \<times> 'w state" where
  "songNormalize env track opts s =
     (if \<not> Normalization opts then (None, s)
      else
        case call (VolumeDetectCall (FilenameTemporary env (heap s track)))
               (VolumeDetect env (FilenameTemporary env (heap s track))) s of
          (Inl err, s1) \<Rightarrow> (Some err, s1)
        | (Inr volume, s1) \<Rightarrow>
            if volume > 0 then (None, s1)
            else call (VolumeIncreaseCall \<bar>volume\<bar> (FilenameTemporary env (heap s1 track)))
                   (VolumeIncrease env \<bar>volume\<bar> (FilenameTemporary env (heap s1 track))) s1)"

definition songMetadataFlush :: "'w env \<Rightarrow> ptr \<Rightarrow> SyncOptions \<Rightarrow> 'w state \<Rightarrow> error option \<times> 'w state" where
  "songMetadataFlush env track opts s =
     (if \<not> Metadata opts then (None, s)
      else call (FlushCall track) (Flush env (heap s track)) s)"

text \<open>\<open>if err := f(); err != nil { ui.Append(err.Error(), style) }\<close>\<close>

definition logError :: "ui_option \<Rightarrow> error option \<times> 'w state \<Rightarrow> 'w state" where
  "logError style r =
     (case r of
        (Some err, s) \<Rightarrow> ui_Append (ErrorText err) [style] s
      | (None, s) \<Rightarrow> s)"

text \<open>
  The stages of \<open>songProcess\<close> after the staging: normalization, metadata flush and the
  move of the temporary file to its final path.
\<close>

definition songStages :: "'w env \<Rightarrow> ptr \<Rightarrow> SyncOptions \<Rightarrow> 'w state \<Rightarrow> 'w state" where
  "songStages env track opts s =
     (let s1 = logError ErrorAppend (songNormalize env track opts s);
          s2 = logError ErrorAppend (songMetadataFlush env track opts s1);
          s3 = perform (RemoveCall (Filename env (heap s2 track)))
                 (os_Remove env (Filename env (heap s2 track))) s2
      in case call (RenameCall (FilenameTemporary env (heap s3 track)) (Filename env (heap s3 track)))
                (os_Rename env (FilenameTemporary env (heap s3 track)) (Filename env (heap s3 track)))
                s3 of
           (Some err, s4) \<Rightarrow> ui_Append (UnableToMoveSong err) [WarningAppend] s4
         | (None, s4) \<Rightarrow> s4)"

text \<open>
  \<open>songProcess\<close>, between the receive from \<open>waitGroupPool\<close> and the deferred send to it
  (the two, and \<open>wg.Done()\<close>, are steps of the concurrent system below).
\<close>

definition songProcess :: "'w env \<Rightarrow> ptr \<Rightarrow> SyncOptions \<Rightarrow> 'w state \<Rightarrow> 'w state" where
  "songProcess env track opts s =
     (if \<not> FileExists env (FilenameTemporary env (heap s track)) (world s) then
        case call (FileCopyCall (Filename env (heap s track)) (FilenameTemporary env (heap s track)))
               (FileCopy env (Filename env (heap s track)) (FilenameTemporary env (heap s track))) s of
          (Some err, s1) \<Rightarrow> ui_Append (ErrorText err) [ErrorAppend] s1
        | (None, s1) \<Rightarrow> songStages env track opts s1
      else songStages env track opts s)"

section \<open>Lyrics and artwork\<close>

text \<open>The loop of \<open>songFetchLyrics\<close> over \<open>lyrics.All()\<close>.\<close>

fun lyricsLoop :: "ptr \<Rightarrow> 'w LyricsProvider list \<Rightarrow> 'w state \<Rightarrow> error option \<times> 'w state" where
  "lyricsLoop t [] s = (Some LyricsNotFound, s)"
| "lyricsLoop t (p # ps) s =
     (case call (LyricsQueryCall (LyricsName p) (Song (heap s t)) (Artist (heap s t)))
             (LyricsQuery p (Song (heap s t)) (Artist (heap s t)))
             (ui_Append (SearchingLyrics (LyricsName p)) [DebugAppend] s) of
        (Inl err, s1) \<Rightarrow> lyricsLoop t ps (ui_Append (LyricsProviderError err) [] s1)
      | (Inr text, s1) \<Rightarrow> (None, s1\<lparr>heap := (heap s1)(t := (heap s1 t)\<lparr>Lyrics := text\<rparr>)\<rparr>))"

definition songFetchLyrics :: "args \<Rightarrow> 'w env \<Rightarrow> ptr \<Rightarrow> 'w state \<Rightarrow> error option \<times> 'w state" where
  "songFetchLyrics a env t s =
     (if argDisableLyrics a then (None, s) else lyricsLoop t (lyricsProviders env) s)"

text \<open>\<open>songFetchArtwork\<close>; \<open>http.Get\<close> and the reading of the body are one call.\<close>

definition songFetchArtwork :: "'w env \<Rightarrow> ptr \<Rightarrow> 'w state \<Rightarrow> error option \<times> 'w state" where
  "songFetchArtwork env t s =
     (if length (ArtworkURL (heap s t)) = 0 then (None, s)
      else
        case artworks s (ArtworkURL (heap s t)) of
          Some val \<Rightarrow> (None, s\<lparr>heap := (heap s)(t := (heap s t)\<lparr>Artwork := Some val\<rparr>)\<rparr>)
        | None \<Rightarrow>
            (case call (HttpGetCall (ArtworkURL (heap s t))) (http_Get env (ArtworkURL (heap s t))) s of
               (Inl err, s1) \<Rightarrow> (Some err, s1)
             | (Inr body, s1) \<Rightarrow>
                 (None, s1\<lparr>artworks := (artworks s1)(ArtworkURL (heap s1 t) \<mapsto> body),
                           heap := (heap s1)(t := (heap s1 t)\<lparr>Artwork := Some body\<rparr>)\<rparr>)))"

section \<open>The rename index\<close>

text \<open>
  Modelled from the spec: \<open>track.TracksIndex\<close> and its methods \<open>Match\<close> and \<open>Rename\<close> are
  missing from the sources. Section 3: the index maps a remote track ID to the last-known
  local filename, at most one filename per ID. Section 4.1:
  \<open>match(remoteID, expectedFilename) -> (recordedPath, matches, error)\<close> "returns whether
  the currently indexed filename for remoteID equals expectedFilename; if not,
  recordedPath is the file that must be renamed on disk"; \<open>rename(remoteID, newFilename)\<close>
  "updates the index". An ID that is not indexed is the error of \<open>match\<close>.
\<close>

definition index_Match :: "(string \<rightharpoonup> string) \<Rightarrow> string \<Rightarrow> string \<Rightarrow> error + (string \<times> bool)" where
  "index_Match idx remoteID expectedFilename =
     (case idx remoteID of
        None \<Rightarrow> Inl (External ''not indexed'')
      | Some recordedPath \<Rightarrow> Inr (recordedPath, recordedPath = expectedFilename))"

definition index_Rename :: "(string \<rightharpoonup> string) \<Rightarrow> string \<Rightarrow> string \<Rightarrow> (string \<rightharpoonup> string)" where
  "index_Rename idx remoteID newFilename = idx(remoteID \<mapsto> newFilename)"

section \<open>The search loop\<close>

text \<open>
  The loop variable \<open>trackOpts\<close> points to the options object of the entry \<open>track\<close> of
  \<open>tracks\<close>: its flags are read from, and written to, the entry of the map. The loop only
  visits keys of the map.
\<close>

definition sourceFlag :: "'w state \<Rightarrow> ptr \<Rightarrow> bool" where
  "sourceFlag s t = (case tracks s t of Some trackOpts \<Rightarrow> Source trackOpts | None \<Rightarrow> False)"

definition metadataFlag :: "'w state \<Rightarrow> ptr \<Rightarrow> bool" where
  "metadataFlag s t = (case tracks s t of Some trackOpts \<Rightarrow> Metadata trackOpts | None \<Rightarrow> False)"

text \<open>\<open>trackOpts.Source = false\<close>\<close>

definition clearSource :: "ptr \<Rightarrow> 'w state \<Rightarrow> 'w state" where
  "clearSource t s =
     (case tracks s t of
        Some trackOpts \<Rightarrow> s\<lparr>tracks := (tracks s)(t \<mapsto> trackOpts\<lparr>Source := False\<rparr>)\<rparr>
      | None \<Rightarrow> s)"

text \<open>The rename repair that opens the body of the loop of \<open>mainSearch\<close>.\<close>

definition renameRepair :: "args \<Rightarrow> 'w env \<Rightarrow> ptr \<Rightarrow> 'w state \<Rightarrow> 'w state" where
  "renameRepair a env t s =
     (case index_Match (index s) (SpotifyID (heap s t)) (Filename env (heap s t)) of
        Inl err \<Rightarrow> s
      | Inr (path, match) \<Rightarrow>
          if match then s
          else
            (case call (RenameCall path (Filename env (heap s t)))
                    (os_Rename env path (Filename env (heap s t)))
                    (ui_Append (TrackRenamed (Filename env (heap s t)) path) [] s) of
               (Some err, s1) \<Rightarrow> ui_Append (UnableToRename err) [ErrorAppend] s1
             | (None, s1) \<Rightarrow>
                 (let s2 = s1\<lparr>index := index_Rename (index s1) (SpotifyID (heap s1 t))
                                          (Filename env (heap s1 t))\<rparr>
                  in if \<not> argFlushLocal a then clearSource t s2 else s2)))"

text \<open>\<open>new(provider.Entry)\<close>\<close>

definition newEntry :: Entry where
  "newEntry = \<lparr>ID = [], Title = [], User = [], Duration = 0, EntryURL = []\<rparr>"

text \<open>
  The loop over the results of a provider: the first result that is picked (by
  \<open>p.Match\<close>, or by the user in interactive mode) ends it.
\<close>

fun pickEntry ::
  "args \<Rightarrow> 'w env \<Rightarrow> ptr \<Rightarrow> 'w Provider \<Rightarrow> Entry list \<Rightarrow> 'w state \<Rightarrow> Entry option \<times> 'w state"
where
  "pickEntry a env t p [] s = (None, s)"
| "pickEntry a env t p (provEntry # rest) s =
     (case call (MatchCall (ProviderName p) provEntry t) (Match p provEntry (heap s t))
             (ui_Append (ResultMet provEntry) [DebugAppend] s) of
        (matchErr, s1) \<Rightarrow>
          (case (if argInteractive a
                 then ui_Prompt env
                        (ConfirmEntry (Basename env (heap s1 t)) provEntry (matchErr = None))
                        [PromptBinary] s1
                 else (matchErr = None, s1)) of
             (entryPick, s2) \<Rightarrow>
               if entryPick
               then (Some provEntry,
                     ui_Append (VideoGoodToGo (Title provEntry) (Basename env (heap s2 t))) [] s2)
               else pickEntry a env t p rest s2))"

definition ui_PromptInputMessage ::
  "'w env \<Rightarrow> message \<Rightarrow> ui_option list \<Rightarrow> 'w state \<Rightarrow> string \<times> 'w state"
where
  "ui_PromptInputMessage env m opts s =
     (case PromptInputAnswer env m (world s) of
        (answer, w') \<Rightarrow> (answer, s\<lparr>world := w', ui := ui s @ [PromptInputMessage m opts]\<rparr>))"

text \<open>\<open>if argInput && entry.Empty() { ... }\<close>: the URL typed by the user.\<close>

definition providerManual ::
  "args \<Rightarrow> 'w env \<Rightarrow> ptr \<Rightarrow> 'w Provider \<Rightarrow> Entry \<times> 'w state \<Rightarrow> Entry \<times> 'w state"
where
  "providerManual a env t p es =
     (case es of
        (entry, s) \<Rightarrow>
          if argInput a \<and> Empty env entry then
            case ui_PromptInputMessage env (EnterURL (Basename env (heap s t))) [PromptInput] s of
              (url, s1) \<Rightarrow>
                if length url > 0 then
                  case call (SupportCall (ProviderName p) url) (Support p url) s1 of
                    (None, s2) \<Rightarrow> (entry\<lparr>EntryURL := url\<rparr>, s2)
                  | (Some err, s2) \<Rightarrow> (entry, snd (ui_Prompt env (SomethingWentWrong err) [] s2))
                else (entry, s1)
          else (entry, s))"

text \<open>
  The three checks that end the body of the provider loop, each with its \<open>continue\<close>:
  no entry (the track is appended to \<open>tracksFailed\<close>), simulation, and a local track
  whose origin is the chosen URL.
\<close>

definition providerVerdict :: "args \<Rightarrow> 'w env \<Rightarrow> ptr \<Rightarrow> Entry \<times> 'w state \<Rightarrow> Entry \<times> 'w state" where
  "providerVerdict a env t es =
     (case es of
        (entry, s) \<Rightarrow>
          if Empty env entry then
            (entry, (ui_Append NoEntryFound [ErrorAppend] s)\<lparr>tracksFailed := tracksFailed s @ [t]\<rparr>)
          else if argSimulate a then
            (entry, ui_Append (WouldDownload entry (Basename env (heap s t))) [] s)
          else if sourceFlag s t \<and> URL (heap s t) = EntryURL entry then
            (entry, ui_Append (SameOriginURL (URL (heap s t)) (EntryURL entry)) [DebugAppend]
                      (ui_Append StillBestResult [] s))
          else (entry, s))"

text \<open>The body of \<open>for _, p := range provider.All()\<close>: \<open>entry\<close> lives across the providers.\<close>

definition searchProvider ::
  "args \<Rightarrow> 'w env \<Rightarrow> ptr \<Rightarrow> 'w Provider \<Rightarrow> Entry \<times> 'w state \<Rightarrow> Entry \<times> 'w state"
where
  "searchProvider a env t p es =
     (case es of
        (entry, s) \<Rightarrow>
          if \<not> argInput a then
            case call (QueryCall (ProviderName p) t) (Query p (heap s t))
                   (ui_Append (SearchingEntries (ProviderName p)) [DebugAppend] s) of
              (Inl provErr, s1) \<Rightarrow>
                (entry, ui_Append (UnableToSearch (Basename env (heap s1 t)) (ProviderName p) provErr)
                          [WarningAppend] s1)
            | (Inr provEntries, s1) \<Rightarrow>
                (case pickEntry a env t p provEntries s1 of
                   (Some provEntry, s2) \<Rightarrow>
                     providerVerdict a env t (providerManual a env t p (provEntry, s2))
                 | (None, s2) \<Rightarrow>
                     providerVerdict a env t (providerManual a env t p (entry, s2)))
          else
            providerVerdict a env t
              (providerManual a env t p
                 (entry, ui_Append (SearchingEntries (ProviderName p)) [DebugAppend] s)))"

text \<open>
  The acquisition of a track (the body of \<open>if !track.Local() || trackOpts.Source ||
  argSimulate\<close>): the provider loop, then the download. The result says whether the body of
  the track loop goes on (\<open>False\<close> for \<open>continue\<close>).
\<close>

definition acquireTrack :: "args \<Rightarrow> 'w env \<Rightarrow> ptr \<Rightarrow> 'w state \<Rightarrow> bool \<times> 'w state" where
  "acquireTrack a env t s =
     (case fold (searchProvider a env t) (providers env) (newEntry, s) of
        (entry, s1) \<Rightarrow>
          if Empty env entry \<or> URL (heap s1 t) = EntryURL entry then (False, s1)
          else
            (case providerFor env (EntryURL entry) of
               Inl err \<Rightarrow>
                 (False, ui_Append (UnableToReconstructProvider (EntryURL entry)) [ErrorAppend]
                           (ui_Append (GoingToDownload (EntryURL entry)) [] s1))
             | Inr p \<Rightarrow>
                 (case call (DownloadCall (ProviderName p) entry (FilenameTemporary env (heap s1 t)))
                         (Download p entry (FilenameTemporary env (heap s1 t)))
                         (ui_Append (GoingToDownload (EntryURL entry)) [] s1) of
                    (Some err, s2) \<Rightarrow>
                      (False, (ui_Append (DownloadWentWrong (Basename env (heap s2 t)) err)
                                 [WarningAppend] s2)\<lparr>tracksFailed := tracksFailed s2 @ [t]\<rparr>)
                  | (None, s2) \<Rightarrow>
                      (True, s2\<lparr>heap := (heap s2)(t := (heap s2 t)\<lparr>URL := EntryURL entry\<rparr>)\<rparr>))))"

text \<open>
  The launch of the post-processing: \<open>waitGroup.Add(1); go songProcess(track, trackOpts,
  &waitGroup)\<close>, and in debug mode \<open>waitGroup.Wait()\<close>.
\<close>

definition launch :: "args \<Rightarrow> ptr \<Rightarrow> 'w state \<Rightarrow> 'w state" where
  "launch a t s =
     (if argDebug a then s\<lparr>calls := calls s @ [GoSongProcess t, WaitGroupWait]\<rparr>
      else s\<lparr>calls := calls s @ [GoSongProcess t]\<rparr>)"

text \<open>The body of the track loop of \<open>mainSearch\<close>; \<open>ctr\<close> is the counter after \<open>ctr++\<close>.\<close>

definition searchTrack :: "args \<Rightarrow> 'w env \<Rightarrow> nat \<Rightarrow> ptr \<Rightarrow> 'w state \<Rightarrow> 'w state" where
  "searchTrack a env ctr t s =
     (let s1 = renameRepair a env t
                 (ui_Append (ProgressLine ctr (card (dom (tracks s))) (Basename env (heap s t)))
                    [StyleBold] (s\<lparr>ui := ui s @ [ProgressIncrease]\<rparr>))
      in case (if \<not> Local env (heap s1 t) (world s1) \<or> sourceFlag s1 t \<or> argSimulate a
               then acquireTrack a env t s1 else (True, s1)) of
           (goesOn, s2) \<Rightarrow>
             if \<not> goesOn then s2
             else if Local env (heap s2 t) (world s2) \<and> \<not> metadataFlag s2 t then s2
             else
               launch a t
                 (ui_Append LaunchingJobs []
                    (logError WarningAppend
                       (songFetchArtwork env t
                          (logError WarningAppend (songFetchLyrics a env t s2))))))"

text \<open>
  \<open>for track, trackOpts := range tracks\<close>: Go visits the keys of the map in an order of
  its choice, each once; \<open>order\<close> is that order.
\<close>

fun searchLoop :: "args \<Rightarrow> 'w env \<Rightarrow> nat \<Rightarrow> ptr list \<Rightarrow> 'w state \<Rightarrow> 'w state" where
  "searchLoop a env ctr [] s = s"
| "searchLoop a env ctr (t # order) s =
     searchLoop a env (ctr + 1) order (searchTrack a env (ctr + 1) t s)"

definition countSongs :: "args \<Rightarrow> 'w env \<Rightarrow> 'w state \<Rightarrow> int \<times> int \<times> int" where
  "countSongs a env s =
     (if argFlushLocal a then
        (int (card (dom (tracks s))), int (card (dom (tracks s))), 0)
      else if argFlushMetadata a then
        (CountOnline env (heap s) (tracks s) (world s), int (card (dom (tracks s))), 0)
      else
        (CountOnline env (heap s) (tracks s) (world s),
         CountOnline env (heap s) (tracks s) (world s),
         CountOffline env (heap s) (tracks s) (world s)))"

text \<open>The body of the loop of \<open>flushPlaylists\<close>.\<close>

definition flushPlaylist :: "args \<Rightarrow> 'w env \<Rightarrow> Playlist \<Rightarrow> 'w state \<Rightarrow> 'w state" where
  "flushPlaylist a env p s =
     (let pFname = slugMake env (Name p) @ (if argPlsFile a then ''.pls'' else ''.m3u'');
          s1 = ui_Append (CreatingPlaylistFile pFname) []
                 (perform (RemoveCall pFname) (os_Remove env pFname) s);
          s2 = (if FileExists env pFname (world s1)
                then perform (RemoveCall pFname) (os_Remove env pFname) s1 else s1);
          pContent = (if argPlsFile a then PLS env (heap s2) p else M3U env (heap s2) p)
      in case call (CreateCall pFname) (os_Create env pFname) s2 of
           (Some err, s3) \<Rightarrow> ui_Append (UnableToCreatePlaylistFile err) [WarningAppend] s3
         | (None, s3) \<Rightarrow>
             (case call (WriteStringCall pFname pContent) (WriteString env pFname pContent) s3 of
                (Some err, s4) \<Rightarrow> ui_Append (UnableToWritePlaylistFile err) [WarningAppend] s4
              | (None, s4) \<Rightarrow> s4))"

definition flushPlaylists :: "args \<Rightarrow> 'w env \<Rightarrow> 'w state \<Rightarrow> 'w state" where
  "flushPlaylists a env s =
     (if argSimulate a \<or> argDisablePlaylistFile a \<or> length (Entries (argPlaylists a)) = 0 then s
      else fold (flushPlaylist a env) (playlists s) s)"

text \<open>
  The report of \<open>mainSearch\<close>: the failed tracks and the notification. \<open>len(tracks) -
  len(tracksFailed)\<close> is a difference of Go \<open>int\<close>s.
\<close>

definition reportSearch :: "'w env \<Rightarrow> 'w state \<Rightarrow> 'w state" where
  "reportSearch env s =
     (if length (tracksFailed s) > 0 then
        (let s1 = fold (\<lambda>t. ui_Append (FailedTrack (Basename env (heap s t))) []) (tracksFailed s)
                    (ui_Append (TracksFailedToSynchronize (length (tracksFailed s))) [] s)
         in s1\<lparr>ui := ui s1 @
                   [Notify (SyncedAndFailed
                              (int (card (dom (tracks s1))) - int (length (tracksFailed s1)))
                              (length (tracksFailed s1)))]\<rparr>)
      else s\<lparr>ui := ui s @ [Notify (Synced (card (dom (tracks s))))]\<rparr>)"

text \<open>
  The end of \<open>mainSearch\<close> after the track loop: the barrier, the playlist files, the
  persistence of the index, the closing of the pool, the report and the final prompt.
\<close>

definition finishSearch :: "args \<Rightarrow> 'w env \<Rightarrow> 'w state \<Rightarrow> 'w state" where
  "finishSearch a env s =
     (let s1 = flushPlaylists a env (s\<lparr>calls := calls s @ [WaitGroupWait]\<rparr>);
          s2 = perform (IndexSyncCall (usrIndex env)) (IndexSync env (index s1) (usrIndex env)) s1;
          s3 = s2\<lparr>calls := calls s2 @ [ClosePool, WaitGroupWait], ui := ui s2 @ [ProgressFill]\<rparr>
      in snd (ui_Prompt env SynchronizationCompleted [PromptExit] (reportSearch env s3)))"

definition mainSearch :: "args \<Rightarrow> 'w env \<Rightarrow> ptr list \<Rightarrow> 'w state \<Rightarrow> 'w state" where
  "mainSearch a env order s =
     (case countSongs a env s of
        (songsFetch, songsFlush, songsIgnore) \<Rightarrow>
          finishSearch a env
            (searchLoop a env 0 order
               (ui_Append (WillBeDownloaded songsFetch songsFlush songsIgnore) []
                  (s\<lparr>ui := ui s @ [ProgressMax (card (dom (tracks s)))]\<rparr>))))"

section \<open>The run of \<open>main\<close> and its goroutines\<close>

text \<open>\<open>main\<close> from \<open>mainFetch\<close> on: \<open>mainFetch(); mainSearch(); mainExit()\<close>.\<close>

definition mainRun :: "args \<Rightarrow> 'w env \<Rightarrow> ptr list \<Rightarrow> 'w state \<Rightarrow> 'w state" where
  "mainRun a env order s =
     running mainExit (running (mainSearch a env order) (mainFetch a env s))"

text \<open>The effects of the main goroutine in a run from the state \<open>s\<close>, in program order.\<close>

definition mainProgram :: "args \<Rightarrow> 'w env \<Rightarrow> ptr list \<Rightarrow> 'w state \<Rightarrow> effect list" where
  "mainProgram a env order s = drop (length (calls s)) (calls (mainRun a env order s))"

text \<open>
  \<open>concurrencyLimit\<close>: the capacity of the channel \<open>waitGroupPool\<close>, which \<open>mainInit\<close>
  fills with that many values.
\<close>

definition concurrencyLimit :: nat where
  "concurrencyLimit = 100"

text \<open>
  Where a \<open>songProcess\<close> goroutine stands: \<open>Spawned\<close> before the receive from
  \<open>waitGroupPool\<close>; \<open>Staging\<close> after it, at the copy to the temporary file; \<open>Processing\<close>
  at the stages after the staging; \<open>Returning\<close> when the body has returned (after a failed
  copy, or after the last stage) and the deferred send to \<open>waitGroupPool\<close> is due;
  \<open>Released\<close> after that send, with the deferred \<open>wg.Done()\<close> due; \<open>Finished\<close> after it.
\<close>

datatype pc = Spawned | Staging | Processing | Returning | Released | Finished

text \<open>A goroutine is active while it is past the receive and has not sent its value back.\<close>

definition active :: "pc \<Rightarrow> bool" where
  "active p \<longleftrightarrow> p = Staging \<or> p = Processing \<or> p = Returning"

definition activeCount :: "pc list \<Rightarrow> nat" where
  "activeCount ps = length (filter active ps)"

text \<open>
  The process: what the main goroutine still has to do and what it has done, the number
  of values in \<open>waitGroupPool\<close> and whether it is closed, the counter of \<open>waitGroup\<close>, the
  \<open>songProcess\<close> goroutines in the order of their launch, and whether the process has
  ended (\<open>halted\<close>), by \<open>os.Exit\<close> or by a panic (\<open>panicked\<close>).
\<close>

record system =
  program :: "effect list"
  executed :: "effect list"
  pool :: nat
  closed :: bool
  waitGroup :: nat
  tasks :: "pc list"
  halted :: bool
  panicked :: bool

definition initial :: "effect list \<Rightarrow> system" where
  "initial ops =
     \<lparr>program = ops, executed = [], pool = concurrencyLimit, closed = False, waitGroup = 0,
      tasks = [], halted = False, panicked = False\<rparr>"

text \<open>The effects that act on the goroutines, the wait group or the pool.\<close>

fun synchronises :: "effect \<Rightarrow> bool" where
  "synchronises (GoSongProcess t) = True"
| "synchronises WaitGroupWait = True"
| "synchronises ClosePool = True"
| "synchronises OsExit = True"
| "synchronises e = False"

text \<open>The main goroutine performs its next effect.\<close>

definition advance :: "system \<Rightarrow> system" where
  "advance \<sigma> = \<sigma>\<lparr>program := tl (program \<sigma>), executed := executed \<sigma> @ [hd (program \<sigma>)]\<rparr>"

text \<open>
  One step of the process, by the semantics of Go. The main goroutine: \<open>waitGroup.Add(1);
  go songProcess(...)\<close> starts a goroutine; \<open>waitGroup.Wait()\<close> returns when the counter is
  zero; \<open>close\<close> closes the pool (closing a closed channel panics); \<open>os.Exit\<close> ends the
  process. A \<open>songProcess\<close> goroutine: the receive from the pool takes a value when there is
  one, blocks on an empty open channel and returns at once on an empty closed one; the
  body either fails to stage and returns, or goes through its stages and returns; the
  deferred send gives the value back (on a closed channel it panics, on a full one it
  blocks); the deferred \<open>wg.Done()\<close> decrements the counter (below zero it panics).

  Modelled from the spec: \<open>system.TrapSignal\<close> and package \<open>cui\<close> are missing from the
  sources. \<open>mainInit\<close> registers \<open>mainExit\<close> for the interrupt signal and \<open>mainUI\<close>
  registers it for the shutdown of the interface; section 5: "an external interrupt
  signal triggers an orderly shutdown that ... terminates the process without waiting for
  in-flight post-processing tasks to finish". This is the step \<open>interrupt\<close>.
\<close>

inductive step :: "system \<Rightarrow> system \<Rightarrow> bool" where
  go: "\<not> halted \<sigma> \<Longrightarrow> program \<sigma> = GoSongProcess t # rest \<Longrightarrow>
       step \<sigma> ((advance \<sigma>)\<lparr>waitGroup := waitGroup \<sigma> + 1, tasks := tasks \<sigma> @ [Spawned]\<rparr>)"
| wait: "\<not> halted \<sigma> \<Longrightarrow> program \<sigma> = WaitGroupWait # rest \<Longrightarrow> waitGroup \<sigma> = 0 \<Longrightarrow>
       step \<sigma> (advance \<sigma>)"
| close: "\<not> halted \<sigma> \<Longrightarrow> program \<sigma> = ClosePool # rest \<Longrightarrow> \<not> closed \<sigma> \<Longrightarrow>
       step \<sigma> ((advance \<sigma>)\<lparr>closed := True\<rparr>)"
| close_closed: "\<not> halted \<sigma> \<Longrightarrow> program \<sigma> = ClosePool # rest \<Longrightarrow> closed \<sigma> \<Longrightarrow>
       step \<sigma> (\<sigma>\<lparr>halted := True, panicked := True\<rparr>)"
| exit: "\<not> halted \<sigma> \<Longrightarrow> program \<sigma> = OsExit # rest \<Longrightarrow>
       step \<sigma> ((advance \<sigma>)\<lparr>halted := True\<rparr>)"
| effect: "\<not> halted \<sigma> \<Longrightarrow> program \<sigma> = e # rest \<Longrightarrow> \<not> synchronises e \<Longrightarrow>
       step \<sigma> (advance \<sigma>)"
| acquire: "\<not> halted \<sigma> \<Longrightarrow> i < length (tasks \<sigma>) \<Longrightarrow> tasks \<sigma> ! i = Spawned \<Longrightarrow> 0 < pool \<sigma> \<Longrightarrow>
       step \<sigma> (\<sigma>\<lparr>pool := pool \<sigma> - 1, tasks := (tasks \<sigma>)[i := Staging]\<rparr>)"
| acquire_closed: "\<not> halted \<sigma> \<Longrightarrow> i < length (tasks \<sigma>) \<Longrightarrow> tasks \<sigma> ! i = Spawned \<Longrightarrow>
       pool \<sigma> = 0 \<Longrightarrow> closed \<sigma> \<Longrightarrow>
       step \<sigma> (\<sigma>\<lparr>tasks := (tasks \<sigma>)[i := Staging]\<rparr>)"
| staged: "\<not> halted \<sigma> \<Longrightarrow> i < length (tasks \<sigma>) \<Longrightarrow> tasks \<sigma> ! i = Staging \<Longrightarrow>
       step \<sigma> (\<sigma>\<lparr>tasks := (tasks \<sigma>)[i := Processing]\<rparr>)"
| unstaged: "\<not> halted \<sigma> \<Longrightarrow> i < length (tasks \<sigma>) \<Longrightarrow> tasks \<sigma> ! i = Staging \<Longrightarrow>
       step \<sigma> (\<sigma>\<lparr>tasks := (tasks \<sigma>)[i := Returning]\<rparr>)"
| processed: "\<not> halted \<sigma> \<Longrightarrow> i < length (tasks \<sigma>) \<Longrightarrow> tasks \<sigma> ! i = Processing \<Longrightarrow>
       step \<sigma> (\<sigma>\<lparr>tasks := (tasks \<sigma>)[i := Returning]\<rparr>)"
| release: "\<not> halted \<sigma> \<Longrightarrow> i < length (tasks \<sigma>) \<Longrightarrow> tasks \<sigma> ! i = Returning \<Longrightarrow>
       \<not> closed \<sigma> \<Longrightarrow> pool \<sigma> < concurrencyLimit \<Longrightarrow>
       step \<sigma> (\<sigma>\<lparr>pool := pool \<sigma> + 1, tasks := (tasks \<sigma>)[i := Released]\<rparr>)"
| release_closed: "\<not> halted \<sigma> \<Longrightarrow> i < length (tasks \<sigma>) \<Longrightarrow> tasks \<sigma> ! i = Returning \<Longrightarrow>
       closed \<sigma> \<Longrightarrow>
       step \<sigma> (\<sigma>\<lparr>halted := True, panicked := True\<rparr>)"
| finish: "\<not> halted \<sigma> \<Longrightarrow> i < length (tasks \<sigma>) \<Longrightarrow> tasks \<sigma> ! i = Released \<Longrightarrow>
       0 < waitGroup \<sigma> \<Longrightarrow>
       step \<sigma> (\<sigma>\<lparr>waitGroup := waitGroup \<sigma> - 1, tasks := (tasks \<sigma>)[i := Finished]\<rparr>)"
| finish_negative: "\<not> halted \<sigma> \<Longrightarrow> i < length (tasks \<sigma>) \<Longrightarrow> tasks \<sigma> ! i = Released \<Longrightarrow>
       waitGroup \<sigma> = 0 \<Longrightarrow>
       step \<sigma> (\<sigma>\<lparr>halted := True, panicked := True\<rparr>)"
| interrupt: "\<not> halted \<sigma> \<Longrightarrow> step \<sigma> (\<sigma>\<lparr>halted := True\<rparr>)"

text \<open>The states the process reaches when the main goroutine runs the effects \<open>ops\<close>.\<close>

inductive reachable :: "effect list \<Rightarrow> system \<Rightarrow> bool" for ops :: "effect list" where
  start: "reachable ops (initial ops)"
| after: "reachable ops \<sigma> \<Longrightarrow> step \<sigma> \<sigma>' \<Longrightarrow> reachable ops \<sigma>'"

text \<open>
  Whether a launch is not yet waited for, after the main goroutine has performed the
  effects \<open>es\<close>: \<open>go\<close> raises the flag, \<open>waitGroup.Wait()\<close> lowers it.
\<close>

fun pendingAfter :: "bool \<Rightarrow> effect list \<Rightarrow> bool" where
  "pendingAfter pending [] = pending"
| "pendingAfter pending (GoSongProcess t # es) = pendingAfter True es"
| "pendingAfter pending (WaitGroupWait # es) = pendingAfter False es"
| "pendingAfter pending (e # es) = pendingAfter pending es"

text \<open>
  The discipline of a main program, from the flags \<open>pending\<close> (a launch is not yet
  waited for) and \<open>shut\<close> (the pool is closed): it persists the index or a snapshot of
  the cache, closes the pool and exits only when no launch is pending, closes the pool at
  most once and launches nothing after that. Nothing runs after \<open>os.Exit\<close>.
\<close>

fun guarded :: "bool \<Rightarrow> bool \<Rightarrow> effect list \<Rightarrow> bool" where
  "guarded pending shut [] = True"
| "guarded pending shut (GoSongProcess t # es) = (\<not> shut \<and> guarded True shut es)"
| "guarded pending shut (WaitGroupWait # es) = guarded False shut es"
| "guarded pending shut (ClosePool # es) = (\<not> pending \<and> \<not> shut \<and> guarded pending True es)"
| "guarded pending shut (IndexSyncCall path # es) = (\<not> pending \<and> guarded pending shut es)"
| "guarded pending shut (DumpGobCall path dump # es) = (\<not> pending \<and> guarded pending shut es)"
| "guarded pending shut (OsExit # es) = (\<not> pending)"
| "guarded pending shut (e # es) = guarded pending shut es"

text \<open>The effects that persist the rename index or a snapshot of the cache.\<close>

fun persists :: "effect \<Rightarrow> bool" where
  "persists (IndexSyncCall path) = True"
| "persists (DumpGobCall path dump) = True"
| "persists e = False"

text \<open>
  The invariant of the process under a guarded main program: the counter of the wait
  group is the number of unfinished goroutines; every value of the pool is either in the
  channel or held by an active goroutine; the rest of the main program is guarded from
  the present flags; when no launch is pending, and so whenever the pool is closed, every
  goroutine has finished; and nothing has panicked.
\<close>

definition invariant :: "system \<Rightarrow> bool" where
  "invariant \<sigma> \<longleftrightarrow>
     waitGroup \<sigma> = length (filter (\<lambda>p. p \<noteq> Finished) (tasks \<sigma>)) \<and>
     pool \<sigma> + activeCount (tasks \<sigma>) = concurrencyLimit \<and>
     (\<not> halted \<sigma> \<longrightarrow> guarded (pendingAfter False (executed \<sigma>)) (closed \<sigma>) (program \<sigma>)) \<and>
     (\<not> pendingAfter False (executed \<sigma>) \<longrightarrow> (\<forall>p \<in> set (tasks \<sigma>). p = Finished)) \<and>
     (closed \<sigma> \<longrightarrow> \<not> pendingAfter False (executed \<sigma>)) \<and>
     \<not> panicked \<sigma>"

section \<open>Specification notions and concrete scenarios\<close>

text \<open>\<open>strings.Join\<close> for a one-byte separator: what \<open>strings.Split\<close> takes apart.\<close>

fun strings_Join :: "string list \<Rightarrow> char \<Rightarrow> string" where
  "strings_Join [] c = []"
| "strings_Join [f] c = f"
| "strings_Join (f # g # fs) c = f @ c # strings_Join (g # fs) c"

text \<open>
  The dedup invariant of the working set: the key of every entry is in \<open>tracksIndex\<close>,
  and every key of \<open>tracksIndex\<close> belongs to exactly one entry.
\<close>

definition dedup :: "'w env \<Rightarrow> 'w state \<Rightarrow> bool" where
  "dedup env s \<longleftrightarrow>
     (\<forall>t. tracks s t \<noteq> None \<longrightarrow> tracksIndex s (FilenameTemporary env (heap s t)) \<noteq> None) \<and>
     (\<forall>k. tracksIndex s k \<noteq> None \<longrightarrow>
        (\<exists>!t. tracks s t \<noteq> None \<and> FilenameTemporary env (heap s t) = k))"

text \<open>
  Classes of effects. An effect is quiet when it neither acts on the goroutines, the wait
  group or the pool, nor persists the index or the cache. The fetch phase adds the
  persistence of the cache and the exit to the quiet effects; the track loop adds the
  launch of a goroutine and the wait.
\<close>

fun quiet :: "effect \<Rightarrow> bool" where
  "quiet (GoSongProcess t) = False"
| "quiet WaitGroupWait = False"
| "quiet ClosePool = False"
| "quiet OsExit = False"
| "quiet (IndexSyncCall path) = False"
| "quiet (DumpGobCall path dump) = False"
| "quiet e = True"

fun fetching :: "effect \<Rightarrow> bool" where
  "fetching (DumpGobCall path dump) = True"
| "fetching OsExit = True"
| "fetching e = quiet e"

fun launching :: "effect \<Rightarrow> bool" where
  "launching (GoSongProcess t) = True"
| "launching WaitGroupWait = True"
| "launching e = quiet e"

text \<open>From \<open>s0\<close> to \<open>s\<close> the process has performed effects of the class \<open>P\<close> only.\<close>

definition emits :: "(effect \<Rightarrow> bool) \<Rightarrow> 'w state \<Rightarrow> 'w state \<Rightarrow> bool" where
  "emits P s0 s \<longleftrightarrow> (\<exists>es. calls s = calls s0 @ es \<and> list_all P es)"

named_theorems emits_intros

text \<open>
  A client that is offline, for concrete runs of the playlist functions; its world is a
  clock.
\<close>

definition offlineClient :: "(int, string, string) Client" where
  "offlineClient =
     \<lparr>GetPlaylist = (\<lambda>playlistID w. (Inl (External ''offline''), w)),
      GetPlaylistTracksOpt = (\<lambda>playlistID limit offset w. (Inl (External ''offline''), w)),
      RemoveTracksFromPlaylist = (\<lambda>playlistID ids w. (Some (External ''offline''), w))\<rparr>"

text \<open>
  A concrete run of the engine. The world is the clock (nanoseconds). Every pointer but
  3 holds the same song (the library's and a playlist's object of one track), pointer 3
  holds another one, which is present locally.
\<close>

definition demoTrack :: "string \<Rightarrow> string \<Rightarrow> Track" where
  "demoTrack spotifyID song =
     \<lparr>SpotifyID = spotifyID, URL = [], Song = song, Artist = ''artist'', Lyrics = [],
      ArtworkURL = [], Artwork = None\<rparr>"

definition demoHeap :: "ptr \<Rightarrow> Track" where
  "demoHeap p = (if p = 3 then demoTrack ''id3'' ''other'' else demoTrack ''id1'' ''song'')"

definition demoProvider :: "string \<Rightarrow> (error + Entry list) \<Rightarrow> int Provider" where
  "demoProvider name found =
     \<lparr>ProviderName = name,
      Query = (\<lambda>track w. (found, w)),
      Match = (\<lambda>entry track w. (None, w)),
      Support = (\<lambda>url w. (None, w)),
      Download = (\<lambda>entry path w. (None, w))\<rparr>"

definition demoEnv :: "int env" where
  "demoEnv =
     \<lparr>Filename = (\<lambda>t. Song t @ ''.mp3''),
      FilenameTemporary = (\<lambda>t. ''.'' @ Song t @ ''.mp3''),
      Basename = Song,
      Local = (\<lambda>t w. Song t = ''other''),
      flushNormalization = True,
      OpenLocalTrack = (\<lambda>path w. (Inr 3, w)),
      CountOffline = (\<lambda>h ts w. 0),
      CountOnline = (\<lambda>h ts w. 0),
      Flush = (\<lambda>t w. (None, w)),
      IndexSync = (\<lambda>idx path w. w),
      FetchGob = (\<lambda>path w. (Inr \<lparr>Tracks = [1, 3], Time = 0\<rparr>, w)),
      DumpGob = (\<lambda>path dump w. (None, w)),
      FileExists = (\<lambda>path w. True),
      FileCopy = (\<lambda>src dst w. (None, w)),
      os_Remove = (\<lambda>path w. w),
      os_Rename = (\<lambda>src dst w. (None, w)),
      time_Now = (\<lambda>w. (w, w)),
      http_Get = (\<lambda>url w. (Inl (External ''offline''), w)),
      cUserID = ''user'',
      LibraryTracks = (\<lambda>w. (Inr [1, 3], w)),
      AlbumTracks = (\<lambda>uri w. (Inr [], w)),
      ClientPlaylist = (\<lambda>uri w. (Inr (''mix'', ''user''), w)),
      ClientPlaylistTracks = (\<lambda>uri w. (Inr [2], w)),
      IDFromURI = (\<lambda>uri. uri),
      cfgURI = (\<lambda>uri. []),
      usrGob = (\<lambda>user source. user @ ''_'' @ source @ ''.gob''),
      usrIndex = ''index.gob'',
      providers = [],
      providerFor = (\<lambda>url. Inl (External ''no provider'')),
      Empty = (\<lambda>e. EntryURL e = []),
      lyricsProviders = [],
      VolumeDetect = (\<lambda>path w. (Inr 0, w)),
      VolumeIncrease = (\<lambda>gain path w. (None, w)),
      PromptAnswer = (\<lambda>m w. (True, w)),
      PromptInputAnswer = (\<lambda>m w. ([], w)),
      slugMake = (\<lambda>name. name),
      PLS = (\<lambda>h p. []),
      M3U = (\<lambda>h p. []),
      os_Create = (\<lambda>path w. (None, w)),
      WriteString = (\<lambda>path content w. (None, w))\<rparr>"

text \<open>The state at the start of \<open>mainFetch\<close>, at time \<open>now\<close>: nothing ingested yet.\<close>

definition demoState :: "int \<Rightarrow> int state" where
  "demoState now =
     \<lparr>world = now, heap = demoHeap, tracks = Map.empty, tracksIndex = Map.empty,
      artworks = Map.empty, playlists = [], tracksFailed = [], index = Map.empty,
      ui = [], calls = [], exited = False\<rparr>"

definition demoArgs :: args where
  "demoArgs =
     \<lparr>argLibrary = True,
      argAlbums = \<lparr>Entries = [], IsSet = False\<rparr>,
      argPlaylists = \<lparr>Entries = [], IsSet = False\<rparr>,
      argTracksFix = \<lparr>Entries = [], IsSet = False\<rparr>,
      argFlushCache = False, argFlushLocal = False, argFlushMetadata = False,
      argDisablePlaylistFile = False, argPlsFile = False, argDisableLyrics = False,
      argInteractive = False, argInput = False, argDebug = False, argSimulate = False\<rparr>"

text \<open>
  A run with \<open>-flush-metadata\<close> on the fresh library snapshot of the objects 1 and 3:
  object 1 is not present locally and no provider is configured, object 3 is present
  locally and its metadata is flushed by a \<open>songProcess\<close> goroutine.
\<close>

definition flushMetadataArgs :: args where
  "flushMetadataArgs = demoArgs\<lparr>argFlushMetadata := True\<rparr>"

text \<open>The state of that run after \<open>mainFetch\<close>.\<close>

definition fetchedState :: "int state" where
  "fetchedState =
     (demoState 0)
       \<lparr>tracks := [1 \<mapsto> SyncOptionsFlush True,
                    3 \<mapsto> \<lparr>Source = False, Metadata = True, Normalization = False\<rparr>],
        tracksIndex := [''.song.mp3'' \<mapsto> 1, ''.other.mp3'' \<mapsto> 1],
        ui := [Append (SourceCache ''Library'' 0 cacheDuration) [PanelLeftTop],
               Append (SongsOnline 2) [PanelLeftTop], Append (SongsOffline 0) [PanelLeftTop],
               Append (SongsMissing 0) [PanelLeftTop]],
        calls := [FetchGobCall ''user_library.gob'', NowCall, NowCall, NowCall]\<rparr>"

text \<open>
  Two states of the process of that run: after the launch of the goroutine of object 3,
  and after the barrier, when that goroutine has finished and the index is about to be
  persisted.
\<close>

definition afterLaunch :: system where
  "afterLaunch =
     \<lparr>program = [WaitGroupWait, IndexSyncCall ''index.gob'', ClosePool, WaitGroupWait, OsExit],
      executed = [FetchGobCall ''user_library.gob'', NowCall, NowCall, NowCall, GoSongProcess 3],
      pool = concurrencyLimit, closed = False, waitGroup = 1, tasks = [Spawned],
      halted = False, panicked = False\<rparr>"

definition afterBarrier :: system where
  "afterBarrier =
     \<lparr>program = [IndexSyncCall ''index.gob'', ClosePool, WaitGroupWait, OsExit],
      executed = [FetchGobCall ''user_library.gob'', NowCall, NowCall, NowCall, GoSongProcess 3,
                  WaitGroupWait],
      pool = concurrencyLimit, closed = False, waitGroup = 0, tasks = [Finished],
      halted = False, panicked = False\<rparr>"

text \<open>Variations of the run: what the loudness tool, the staging and the tag writer answer.\<close>

definition detectFailsEnv :: "int env" where
  "detectFailsEnv = demoEnv\<lparr>VolumeDetect := (\<lambda>path w. (Inl (External ''ffmpeg''), w))\<rparr>"

definition loudEnv :: "int env" where
  "loudEnv = demoEnv\<lparr>VolumeDetect := (\<lambda>path w. (Inr 3, w))\<rparr>"

definition quietEnv :: "int env" where
  "quietEnv = demoEnv\<lparr>VolumeDetect := (\<lambda>path w. (Inr (- 5), w))\<rparr>"

definition unstagedEnv :: "int env" where
  "unstagedEnv = demoEnv\<lparr>FileExists := (\<lambda>path w. False)\<rparr>"

definition flushFailsEnv :: "int env" where
  "flushFailsEnv = demoEnv\<lparr>Flush := (\<lambda>t w. (Some (External ''tags''), w))\<rparr>"

text \<open>
  The state before the search of a renamed track: object 1 is in the working set with
  the flush options, and the index still records its file under an old name.
\<close>

definition renamedState :: "int state" where
  "renamedState =
     (demoState 0)
       \<lparr>tracks := [1 \<mapsto> SyncOptionsFlush True],
        tracksIndex := [''.song.mp3'' \<mapsto> 1],
        index := [''id1'' \<mapsto> ''old.mp3'']\<rparr>"

definition renameFailsEnv :: "int env" where
  "renameFailsEnv = demoEnv\<lparr>os_Rename := (\<lambda>src dst w. (Some (External ''rename''), w))\<rparr>"

text \<open>
  The state before the search of one track that is not present locally (object 1, with
  the flush options, not in the rename index), and three provider chains: one provider
  whose search fails, one provider that finds nothing, and two providers that both find
  nothing.
\<close>

definition searchState :: "int state" where
  "searchState =
     (demoState 0)
       \<lparr>tracks := [1 \<mapsto> SyncOptionsFlush True], tracksIndex := [''.song.mp3'' \<mapsto> 1]\<rparr>"

definition offlineProviderEnv :: "int env" where
  "offlineProviderEnv =
     demoEnv\<lparr>providers := [demoProvider ''youtube'' (Inl (External ''network''))]\<rparr>"

definition oneProviderEnv :: "int env" where
  "oneProviderEnv = demoEnv\<lparr>providers := [demoProvider ''youtube'' (Inr [])]\<rparr>"

definition twoProvidersEnv :: "int env" where
  "twoProvidersEnv =
     demoEnv\<lparr>providers := [demoProvider ''youtube'' (Inr []), demoProvider ''soundcloud'' (Inr [])]\<rparr>"

section \<open>Playlist URIs: properties\<close>

lemma strings_Index_None_Count: "strings_Index s c = None \<Longrightarrow> strings_Count s c = 0"
  by (induction s) (auto split: if_splits)

lemma strings_Index_Some_Count:
  "strings_Index s c = Some m \<Longrightarrow> strings_Count s c = Suc (strings_Count (drop (Suc m) s) c)"
  by (induction s arbitrary: m) (auto split: if_splits)

lemma strings_Index_Some_take:
  "strings_Index s c = Some m \<Longrightarrow> s = take m s @ c # drop (Suc m) s \<and> c \<notin> set (take m s)"
  by (induction s arbitrary: m) (auto split: if_splits)

lemma strings_Index_None_set: "strings_Index s c = None \<Longrightarrow> c \<notin> set s"
  by (induction s) (auto split: if_splits)

text \<open>\<open>strings.Split\<close> returns one field more than there are separators.\<close>

lemma length_strings_Split: "length (strings_Split s c) = Suc (strings_Count s c)"
proof (induction s c rule: strings_Split.induct)
  case (1 s c)
  show ?case
  proof (cases "strings_Index s c")
    case None
    then show ?thesis
      by (simp add: strings_Split.simps [of s c] strings_Index_None_Count)
  next
    case (Some m)
    with "1.IH" [OF Some] show ?thesis
      by (simp add: strings_Split.simps [of s c] strings_Index_Some_Count)
  qed
qed

text \<open>
  The fields of \<open>strings.Split\<close> are the separated fields of the string: joined with the
  separator they give the string back, and none of them holds the separator.
\<close>

lemma strings_Split_fields:
  "strings_Join (strings_Split s c) c = s \<and> (\<forall>f \<in> set (strings_Split s c). c \<notin> set f)"
proof (induction s c rule: strings_Split.induct)
  case (1 s c)
  show ?case
  proof (cases "strings_Index s c")
    case None
    then show ?thesis
      by (simp add: strings_Split.simps [of s c] strings_Index_None_set)
  next
    case (Some m)
    obtain g gs where g: "strings_Split (drop (Suc m) s) c = g # gs"
      using length_strings_Split [of "drop (Suc m) s" c]
      by (cases "strings_Split (drop (Suc m) s) c") auto
    from "1.IH" [OF Some] g strings_Index_Some_take [OF Some] show ?thesis
      by (simp add: strings_Split.simps [of s c] Some)
  qed
qed

lemma parsePlaylistURI_eq:
  "parsePlaylistURI u =
     (if strings_Count u CHR '':'' = 4
      then Inr (strings_Split u CHR '':'' ! 2, strings_Split u CHR '':'' ! 4)
      else Inl (MalformedPlaylistURI (strings_Count u CHR '':'')))"
  by (simp add: parsePlaylistURI_def at_index_def length_strings_Split)

text \<open>
  C10, as stated, at the URI \<open>spotify:playlist:xyz\<close> (two colons) with no IDs to
  remove: \<open>RemovePlaylistTracks\<close> returns \<open>nil\<close> before it looks at the URI, so it does
  not fail on every URI whose colon count differs from 4.
\<close>

theorem RemovePlaylistTracks_no_ids_counterexample:
  "strings_Count ''spotify:playlist:xyz'' CHR '':'' \<noteq> 4 \<and>
   RemovePlaylistTracks offlineClient ''spotify:playlist:xyz'' [] 0 = (None, 0)"
  by (simp add: RemovePlaylistTracks_def)

text \<open>
  C10, amended: \<open>parsePlaylistURI u\<close> returns an error if and only if the number of
  \<open>:\<close> in \<open>u\<close> is not 4 (the error names that number); with exactly 4 it returns the
  third and the fifth of the five colon-separated fields of \<open>u\<close> and no error, and the two
  indexings never leave the slice. Hence \<open>Playlist\<close> and \<open>PlaylistTracks\<close> fail on every
  URI whose colon count differs from 4, before any call of the API, and so does
  \<open>RemovePlaylistTracks\<close> whenever it is given at least one ID; with no ID it returns
  no error whatever the URI.
\<close>

theorem parsePlaylistURI_colon_count:
  fixes c :: "('w, 'ft, 'pl) Client"
  shows
    "((\<exists>e. parsePlaylistURI u = Inl e) \<longleftrightarrow> strings_Count u CHR '':'' \<noteq> 4) \<and>
     strings_Join (strings_Split u CHR '':'') CHR '':'' = u \<and>
     (\<forall>f \<in> set (strings_Split u CHR '':''). CHR '':'' \<notin> set f) \<and>
     (strings_Count u CHR '':'' = 4 \<longrightarrow>
        length (strings_Split u CHR '':'') = 5 \<and>
        parsePlaylistURI u =
          Inr (strings_Split u CHR '':'' ! 2, strings_Split u CHR '':'' ! 4)) \<and>
     (strings_Count u CHR '':'' \<noteq> 4 \<longrightarrow>
        parsePlaylistURI u = Inl (MalformedPlaylistURI (strings_Count u CHR '':'')) \<and>
        Playlist c u w = (Inl (MalformedPlaylistURI (strings_Count u CHR '':'')), w) \<and>
        PlaylistTracks c u w =
          Some (Inl (MalformedPlaylistURI (strings_Count u CHR '':'')), w) \<and>
        (ids \<noteq> [] \<longrightarrow>
           RemovePlaylistTracks c u ids w =
             (Some (MalformedPlaylistURI (strings_Count u CHR '':'')), w))) \<and>
     RemovePlaylistTracks c u [] w = (None, w)"
proof -
  have fields: "strings_Join (strings_Split u CHR '':'') CHR '':'' = u"
    "\<forall>f \<in> set (strings_Split u CHR '':''). CHR '':'' \<notin> set f"
    using strings_Split_fields [of u "CHR '':''"] by simp_all
  have four: "strings_Count u CHR '':'' = 4 \<Longrightarrow>
      length (strings_Split u CHR '':'') = 5 \<and>
      parsePlaylistURI u = Inr (strings_Split u CHR '':'' ! 2, strings_Split u CHR '':'' ! 4)"
    by (simp add: parsePlaylistURI_eq length_strings_Split)
  have other: "strings_Count u CHR '':'' \<noteq> 4 \<Longrightarrow>
      parsePlaylistURI u = Inl (MalformedPlaylistURI (strings_Count u CHR '':''))"
    by (simp add: parsePlaylistURI_eq)
  have iff: "(\<exists>e. parsePlaylistURI u = Inl e) \<longleftrightarrow> strings_Count u CHR '':'' \<noteq> 4"
    by (simp add: parsePlaylistURI_eq)
  have callers: "strings_Count u CHR '':'' \<noteq> 4 \<Longrightarrow>
      Playlist c u w = (Inl (MalformedPlaylistURI (strings_Count u CHR '':'')), w) \<and>
      PlaylistTracks c u w = Some (Inl (MalformedPlaylistURI (strings_Count u CHR '':'')), w) \<and>
      (ids \<noteq> [] \<longrightarrow>
         RemovePlaylistTracks c u ids w =
           (Some (MalformedPlaylistURI (strings_Count u CHR '':'')), w))"
    by (simp add: Playlist_def PlaylistTracks_def RemovePlaylistTracks_def other)
  have none: "RemovePlaylistTracks c u [] w = (None, w)"
    by (simp add: RemovePlaylistTracks_def)
  from fields four other iff callers none show ?thesis by blast
qed

theorem parsePlaylistURI_colon_count_witness:
  "strings_Count ''spotify:user:alice:playlist:xyz'' CHR '':'' = 4 \<and>
   parsePlaylistURI ''spotify:user:alice:playlist:xyz'' = Inr (''alice'', ''xyz'') \<and>
   strings_Count ''spotify:playlist:xyz'' CHR '':'' \<noteq> 4 \<and>
   Playlist offlineClient ''spotify:playlist:xyz'' 0 = (Inl (MalformedPlaylistURI 2), 0) \<and>
   PlaylistTracks offlineClient ''spotify:playlist:xyz'' 0 =
     Some (Inl (MalformedPlaylistURI 2), 0) \<and>
   [''track''] \<noteq> [] \<and>
   RemovePlaylistTracks offlineClient ''spotify:playlist:xyz'' [''track''] 0 =
     (Some (MalformedPlaylistURI 2), 0)"
proof -
  have four: "strings_Count ''spotify:user:alice:playlist:xyz'' CHR '':'' = 4"
    by simp
  have split: "strings_Split ''spotify:user:alice:playlist:xyz'' CHR '':'' =
      [''spotify'', ''user'', ''alice'', ''playlist'', ''xyz'']"
    by code_simp
  have two: "strings_Count ''spotify:playlist:xyz'' CHR '':'' = 2"
    by simp
  from parsePlaylistURI_colon_count [of "''spotify:user:alice:playlist:xyz''" offlineClient 0 "[]"]
    four split
  have a: "parsePlaylistURI ''spotify:user:alice:playlist:xyz'' = Inr (''alice'', ''xyz'')"
    by simp
  from parsePlaylistURI_colon_count [of "''spotify:playlist:xyz''" offlineClient 0 "[''track'']"]
    two
  have b: "Playlist offlineClient ''spotify:playlist:xyz'' 0 = (Inl (MalformedPlaylistURI 2), 0) \<and>
     PlaylistTracks offlineClient ''spotify:playlist:xyz'' 0 =
       Some (Inl (MalformedPlaylistURI 2), 0) \<and>
     RemovePlaylistTracks offlineClient ''spotify:playlist:xyz'' [''track''] 0 =
       (Some (MalformedPlaylistURI 2), 0)"
    by simp
  from four two a b show ?thesis by simp
qed

section \<open>The working set: properties\<close>

lemma tracksInflateWithOption_heap [simp]:
  "heap (tracksInflateWithOption env t opts s) = heap s"
  by (simp add: tracksInflateWithOption_def Let_def)

lemma tracksInflateWithOption_dup:
  "tracksIndex s (FilenameTemporary env (heap s t)) \<noteq> None \<Longrightarrow>
   tracksInflateWithOption env t opts s = s"
  by (simp add: tracksInflateWithOption_def Let_def)

lemma dedup_tracksInflateWithOption:
  assumes "dedup env s"
  shows "dedup env (tracksInflateWithOption env t opts s)"
proof (cases "tracksIndex s (FilenameTemporary env (heap s t)) \<noteq> None")
  case True
  then show ?thesis using assms by (simp add: tracksInflateWithOption_dup)
next
  case False
  then have new: "tracksIndex s (FilenameTemporary env (heap s t)) = None" by simp
  have fresh: "tracks s t' \<noteq> None \<Longrightarrow> FilenameTemporary env (heap s t') \<noteq> FilenameTemporary env (heap s t)" for t'
    using assms new unfolding dedup_def by metis
  show ?thesis
    unfolding dedup_def
  proof (intro conjI allI impI)
    fix t' assume "tracks (tracksInflateWithOption env t opts s) t' \<noteq> None"
    then show "tracksIndex (tracksInflateWithOption env t opts s)
             (FilenameTemporary env (heap (tracksInflateWithOption env t opts s) t')) \<noteq> None"
      using assms new unfolding dedup_def
      by (auto simp: tracksInflateWithOption_def Let_def split: if_splits)
  next
    fix k assume k: "tracksIndex (tracksInflateWithOption env t opts s) k \<noteq> None"
    show "\<exists>!t'. tracks (tracksInflateWithOption env t opts s) t' \<noteq> None \<and>
               FilenameTemporary env (heap (tracksInflateWithOption env t opts s) t') = k"
    proof (cases "k = FilenameTemporary env (heap s t)")
      case True
      show ?thesis
      proof (rule ex1I [of _ t])
        show "tracks (tracksInflateWithOption env t opts s) t \<noteq> None \<and>
              FilenameTemporary env (heap (tracksInflateWithOption env t opts s) t) = k"
          using new True by (simp add: tracksInflateWithOption_def Let_def)
      next
        fix t' assume "tracks (tracksInflateWithOption env t opts s) t' \<noteq> None \<and>
              FilenameTemporary env (heap (tracksInflateWithOption env t opts s) t') = k"
        then show "t' = t"
          using new True fresh [of t']
          by (auto simp: tracksInflateWithOption_def Let_def split: if_splits)
      qed
    next
      case False
      with k new have "tracksIndex s k \<noteq> None"
        by (auto simp: tracksInflateWithOption_def Let_def split: if_splits)
      with assms obtain u where u: "tracks s u \<noteq> None" "FilenameTemporary env (heap s u) = k"
        and uniq: "\<And>v. tracks s v \<noteq> None \<Longrightarrow> FilenameTemporary env (heap s v) = k \<Longrightarrow> v = u"
        unfolding dedup_def by metis
      show ?thesis
      proof (rule ex1I [of _ u])
        show "tracks (tracksInflateWithOption env t opts s) u \<noteq> None \<and>
              FilenameTemporary env (heap (tracksInflateWithOption env t opts s) u) = k"
          using u new by (auto simp: tracksInflateWithOption_def Let_def)
      next
        fix v assume "tracks (tracksInflateWithOption env t opts s) v \<noteq> None \<and>
              FilenameTemporary env (heap (tracksInflateWithOption env t opts s) v) = k"
        then show "v = u"
          using new False uniq [of v]
          by (auto simp: tracksInflateWithOption_def Let_def split: if_splits)
      qed
    qed
  qed
qed

lemma tracksInflateWithOption_indexed:
  "tracksIndex (tracksInflateWithOption env t opts s) (FilenameTemporary env (heap s t)) \<noteq> None"
  by (simp add: tracksInflateWithOption_def Let_def)

lemma tracksInflateWithOption_index_mono:
  "tracksIndex s k \<noteq> None \<Longrightarrow> tracksIndex (tracksInflateWithOption env t opts s) k \<noteq> None"
  by (simp add: tracksInflateWithOption_def Let_def)

lemma tracksInflate_heap [simp]: "heap (tracksInflate env t s) = heap s"
  by (simp add: tracksInflate_def Let_def)

lemma dedup_tracksInflate: "dedup env s \<Longrightarrow> dedup env (tracksInflate env t s)"
  by (simp add: tracksInflate_def Let_def dedup_tracksInflateWithOption)

lemma tracksInflate_indexed:
  "tracksIndex (tracksInflate env t s) (FilenameTemporary env (heap s t)) \<noteq> None"
  unfolding tracksInflate_def Let_def by (rule tracksInflateWithOption_indexed)

lemma tracksInflate_index_mono:
  "tracksIndex s k \<noteq> None \<Longrightarrow> tracksIndex (tracksInflate env t s) k \<noteq> None"
  unfolding tracksInflate_def Let_def by (rule tracksInflateWithOption_index_mono)

lemma inflateAll_Cons: "inflateAll env (t # ts) s = inflateAll env ts (tracksInflate env t s)"
  by (simp add: inflateAll_def)

lemma inflateAll_Nil [simp]: "inflateAll env [] s = s"
  by (simp add: inflateAll_def)

lemma inflateAll_heap [simp]: "heap (inflateAll env ts s) = heap s"
  by (induction ts arbitrary: s) (simp_all add: inflateAll_Cons)

lemma dedup_inflateAll: "dedup env s \<Longrightarrow> dedup env (inflateAll env ts s)"
  by (induction ts arbitrary: s) (simp_all add: inflateAll_Cons dedup_tracksInflate)

lemma inflateAll_index_mono:
  "tracksIndex s k \<noteq> None \<Longrightarrow> tracksIndex (inflateAll env ts s) k \<noteq> None"
proof (induction ts arbitrary: s)
  case Nil
  then show ?case by simp
next
  case (Cons a ts)
  from Cons.prems have "tracksIndex (tracksInflate env a s) k \<noteq> None"
    by (rule tracksInflate_index_mono)
  then show ?case
    unfolding inflateAll_Cons by (rule Cons.IH)
qed

lemma inflateAll_indexed:
  "t \<in> set ts \<Longrightarrow> tracksIndex (inflateAll env ts s) (FilenameTemporary env (heap s t)) \<noteq> None"
proof (induction ts arbitrary: s)
  case Nil
  then show ?case by simp
next
  case (Cons a ts)
  show ?case
  proof (cases "t = a")
    case True
    show ?thesis
      unfolding inflateAll_Cons True by (rule inflateAll_index_mono) (rule tracksInflate_indexed)
  next
    case False
    with Cons.prems have "t \<in> set ts" by simp
    from Cons.IH [OF this, of "tracksInflate env a s"] show ?thesis
      unfolding inflateAll_Cons by simp
  qed
qed

lemma dedup_initial: "tracks s = Map.empty \<Longrightarrow> tracksIndex s = Map.empty \<Longrightarrow> dedup env s"
  by (simp add: dedup_def)

text \<open>
  C1. Ingestion is idempotent per canonical temporary filename: a call of
  \<open>tracksInflateWithOption\<close> whose key \<open>t.FilenameTemporary()\<close> is already in
  \<open>tracksIndex\<close> changes nothing (neither \<open>tracks\<close> nor \<open>tracksIndex\<close>, nor anything else
  of the state). Consequently, when the fetched sources (the library, albums, playlists,
  in the order they are fetched) are ingested into the empty working set, every track of
  every source is represented by exactly one entry: exactly one key of \<open>tracks\<close> has its
  temporary filename, however many sources hold it.
\<close>

theorem tracksInflateWithOption_idempotent:
  "(tracksIndex s (FilenameTemporary env (heap s t)) \<noteq> None \<longrightarrow>
      tracksInflateWithOption env t opts s = s) \<and>
   (tracks s0 = Map.empty \<and> tracksIndex s0 = Map.empty \<and> u \<in> set (concat sources) \<longrightarrow>
      (\<exists>!t'. tracks (inflateAll env (concat sources) s0) t' \<noteq> None \<and>
             FilenameTemporary env (heap s0 t') = FilenameTemporary env (heap s0 u)))"
proof (intro conjI impI)
  assume "tracksIndex s (FilenameTemporary env (heap s t)) \<noteq> None"
  then show "tracksInflateWithOption env t opts s = s"
    by (rule tracksInflateWithOption_dup)
next
  assume a: "tracks s0 = Map.empty \<and> tracksIndex s0 = Map.empty \<and> u \<in> set (concat sources)"
  then have "dedup env (inflateAll env (concat sources) s0)"
    by (simp add: dedup_initial dedup_inflateAll)
  moreover from a have "tracksIndex (inflateAll env (concat sources) s0)
      (FilenameTemporary env (heap s0 u)) \<noteq> None"
    by (intro inflateAll_indexed) simp
  ultimately show "\<exists>!t'. tracks (inflateAll env (concat sources) s0) t' \<noteq> None \<and>
      FilenameTemporary env (heap s0 t') = FilenameTemporary env (heap s0 u)"
    unfolding dedup_def by simp
qed

text \<open>
  The library holds the objects 1 and 3, a playlist holds the object 2 of the song of
  object 1: ingesting object 2 after object 1 changes nothing.
\<close>

theorem tracksInflateWithOption_idempotent_witness:
  "tracksIndex (tracksInflate demoEnv 1 (demoState 0))
     (FilenameTemporary demoEnv (heap (tracksInflate demoEnv 1 (demoState 0)) 2)) \<noteq> None \<and>
   tracksInflateWithOption demoEnv 2 SyncOptionsDefault (tracksInflate demoEnv 1 (demoState 0)) =
     tracksInflate demoEnv 1 (demoState 0) \<and>
   tracks (demoState 0) = Map.empty \<and> tracksIndex (demoState 0) = Map.empty \<and>
   (2::ptr) \<in> set (concat [[1, 3], [2]]) \<and>
   (\<exists>!t'. tracks (inflateAll demoEnv (concat [[1, 3], [2]]) (demoState 0)) t' \<noteq> None \<and>
          FilenameTemporary demoEnv (heap (demoState 0) t') =
          FilenameTemporary demoEnv (heap (demoState 0) 2))"
proof -
  have h1: "tracksIndex (tracksInflate demoEnv 1 (demoState 0))
     (FilenameTemporary demoEnv (heap (tracksInflate demoEnv 1 (demoState 0)) 2)) \<noteq> None"
    by (simp add: tracksInflate_def tracksInflateWithOption_def Let_def demoEnv_def
        demoState_def demoHeap_def demoTrack_def)
  have h2: "tracks (demoState 0) = Map.empty \<and> tracksIndex (demoState 0) = Map.empty \<and>
      (2::ptr) \<in> set (concat [[1, 3], [2]])"
    by (simp add: demoState_def)
  from tracksInflateWithOption_idempotent
    [of "tracksInflate demoEnv 1 (demoState 0)" demoEnv 2 SyncOptionsDefault "demoState 0" 2
      "[[1, 3], [2]]"] h1 h2
  show ?thesis by blast
qed

text \<open>
  C7. Ingestion defaults: a track that \<open>tracksInflate\<close> ingests (its key is not yet in
  \<open>tracksIndex\<close>) gets the flush options, which force the fetch of the source and the
  flush of the metadata, when \<open>t.Local()\<close> is false, and the default options, with no
  forced re-fetch and no metadata refresh (that flag is raised only by the global flags,
  later), when \<open>t.Local()\<close> is true.
\<close>

theorem tracksInflate_defaults:
  "(tracksIndex s (FilenameTemporary env (heap s t)) = None \<and> \<not> Local env (heap s t) (world s) \<longrightarrow>
      tracks (tracksInflate env t s) t = Some (SyncOptionsFlush (flushNormalization env)) \<and>
      Source (SyncOptionsFlush (flushNormalization env)) \<and>
      Metadata (SyncOptionsFlush (flushNormalization env))) \<and>
   (tracksIndex s (FilenameTemporary env (heap s t)) = None \<and> Local env (heap s t) (world s) \<longrightarrow>
      tracks (tracksInflate env t s) t = Some SyncOptionsDefault \<and>
      \<not> Source SyncOptionsDefault \<and> \<not> Metadata SyncOptionsDefault)"
  by (simp add: tracksInflate_def tracksInflateWithOption_def Let_def SyncOptionsFlush_def
      SyncOptionsDefault_def)

text \<open>Object 1 is not present locally, object 3 is.\<close>

theorem tracksInflate_defaults_witness:
  "tracksIndex (demoState 0) (FilenameTemporary demoEnv (heap (demoState 0) 1)) = None \<and>
   \<not> Local demoEnv (heap (demoState 0) 1) (world (demoState 0)) \<and>
   tracks (tracksInflate demoEnv 1 (demoState 0)) 1 =
     Some \<lparr>Source = True, Metadata = True, Normalization = True\<rparr> \<and>
   tracksIndex (demoState 0) (FilenameTemporary demoEnv (heap (demoState 0) 3)) = None \<and>
   Local demoEnv (heap (demoState 0) 3) (world (demoState 0)) \<and>
   tracks (tracksInflate demoEnv 3 (demoState 0)) 3 =
     Some \<lparr>Source = False, Metadata = False, Normalization = False\<rparr>"
proof -
  have h1: "tracksIndex (demoState 0) (FilenameTemporary demoEnv (heap (demoState 0) 1)) = None \<and>
      \<not> Local demoEnv (heap (demoState 0) 1) (world (demoState 0))"
    by (simp add: demoState_def demoEnv_def demoHeap_def demoTrack_def)
  have h3: "tracksIndex (demoState 0) (FilenameTemporary demoEnv (heap (demoState 0) 3)) = None \<and>
      Local demoEnv (heap (demoState 0) 3) (world (demoState 0))"
    by (simp add: demoState_def demoEnv_def demoHeap_def demoTrack_def)
  have n: "flushNormalization demoEnv = True"
    by (simp add: demoEnv_def)
  from tracksInflate_defaults [of "demoState 0" demoEnv 1] h1 n
  have a: "tracks (tracksInflate demoEnv 1 (demoState 0)) 1 =
      Some \<lparr>Source = True, Metadata = True, Normalization = True\<rparr>"
    by (simp add: SyncOptionsFlush_def)
  from tracksInflate_defaults [of "demoState 0" demoEnv 3] h3
  have b: "tracks (tracksInflate demoEnv 3 (demoState 0)) 3 =
      Some \<lparr>Source = False, Metadata = False, Normalization = False\<rparr>"
    by (simp add: SyncOptionsDefault_def)
  from h1 h3 a b show ?thesis by simp
qed

section \<open>The fetch phase: properties\<close>

lemma tracks_ui_Append [simp]: "tracks (ui_Append m opts s) = tracks s"
  by (simp add: ui_Append_def)

lemma tracks_ui_Prompt [simp]: "tracks (snd (ui_Prompt env m opts s)) = tracks s"
  by (simp add: ui_Prompt_def mainExit_def Let_def split: prod.splits)

lemma tracks_mainExit [simp]: "tracks (mainExit s) = tracks s"
  by (simp add: mainExit_def)

lemma tracks_reportFetch [simp]: "tracks (reportFetch env s) = tracks s"
  by (simp add: reportFetch_def Let_def running_def)

lemma exited_flushOverride [simp]: "exited (flushOverride a s) = exited s"
  by (simp add: flushOverride_def)

text \<open>
  C8. The global override is the second pass of \<open>mainFetch\<close>: when no fetch has ended
  the run, the working set that \<open>mainFetch\<close> leaves is the one \<open>flushOverride\<close> makes of
  the working set ingested from all the sources. With \<open>argFlushLocal\<close> every entry then
  has \<open>Source\<close> set; with \<open>argFlushLocal\<close> or \<open>argFlushMetadata\<close> every entry has
  \<open>Metadata\<close> set, whatever its options were; the pass changes no \<open>Normalization\<close> flag
  and neither adds nor removes an entry.
\<close>

theorem flushOverride_second_pass:
  "(\<not> exited (fetchSources a env s0) \<longrightarrow>
      tracks (mainFetch a env s0) = tracks (flushOverride a (fetchSources a env s0))) \<and>
   (argFlushLocal a \<longrightarrow>
      (\<forall>t opts. tracks (flushOverride a s) t = Some opts \<longrightarrow> Source opts)) \<and>
   (argFlushLocal a \<or> argFlushMetadata a \<longrightarrow>
      (\<forall>t opts. tracks (flushOverride a s) t = Some opts \<longrightarrow> Metadata opts)) \<and>
   (\<forall>t. map_option Normalization (tracks (flushOverride a s) t) =
        map_option Normalization (tracks s t)) \<and>
   dom (tracks (flushOverride a s)) = dom (tracks s)"
proof (intro conjI impI allI)
  assume "\<not> exited (fetchSources a env s0)"
  then show "tracks (mainFetch a env s0) = tracks (flushOverride a (fetchSources a env s0))"
    by (simp add: mainFetch_def running_def)
next
  fix t opts
  assume "argFlushLocal a" and "tracks (flushOverride a s) t = Some opts"
  then show "Source opts"
    by (auto simp: flushOverride_def)
next
  fix t opts
  assume "argFlushLocal a \<or> argFlushMetadata a" and "tracks (flushOverride a s) t = Some opts"
  then show "Metadata opts"
    by (auto simp: flushOverride_def split: if_splits)
next
  fix t
  show "map_option Normalization (tracks (flushOverride a s) t) =
      map_option Normalization (tracks s t)"
    by (cases "tracks s t") (simp_all add: flushOverride_def)
next
  show "dom (tracks (flushOverride a s)) = dom (tracks s)"
    by (auto simp: flushOverride_def dom_def)
qed

text \<open>
  A run with \<open>-flush-local\<close> on a fresh library snapshot of the objects 1 and 3: object 3
  is present locally, and the second pass sets its \<open>Source\<close> and \<open>Metadata\<close> flags.
\<close>

lemma demo_fetchSources:
  "fetchSources (demoArgs\<lparr>argFlushLocal := True\<rparr>) demoEnv (demoState 0) =
     (demoState 0)
       \<lparr>tracks := [1 \<mapsto> SyncOptionsFlush True, 3 \<mapsto> SyncOptionsDefault],
        tracksIndex := [''.song.mp3'' \<mapsto> 1, ''.other.mp3'' \<mapsto> 1],
        ui := [Append (SourceCache ''Library'' 0 cacheDuration) [PanelLeftTop]],
        calls := [FetchGobCall ''user_library.gob'', NowCall, NowCall, NowCall]\<rparr>"
  by (simp add: fetchSources_def running_def mainFetchLibrary_def mainFetchAlbums_def
      mainFetchPlaylists_def mainFetchTracksToFix_def fetchDump_def flushCache_def
      useDump_def time_Since_def time_Sub_def call_def inflateAll_def tracksInflate_def
      tracksInflateWithOption_def ui_Append_def cacheDuration_def time_Minute_def maxDuration_def
      minDuration_def Let_def demoArgs_def demoEnv_def demoState_def demoHeap_def
      demoTrack_def)

theorem flushOverride_second_pass_witness:
  "\<not> exited (fetchSources (demoArgs\<lparr>argFlushLocal := True\<rparr>) demoEnv (demoState 0)) \<and>
   argFlushLocal (demoArgs\<lparr>argFlushLocal := True\<rparr>) \<and>
   tracks (flushOverride (demoArgs\<lparr>argFlushLocal := True\<rparr>)
     (fetchSources (demoArgs\<lparr>argFlushLocal := True\<rparr>) demoEnv (demoState 0))) 3 =
     Some \<lparr>Source = True, Metadata = True, Normalization = False\<rparr> \<and>
   tracks (mainFetch (demoArgs\<lparr>argFlushLocal := True\<rparr>) demoEnv (demoState 0)) 3 =
     Some \<lparr>Source = True, Metadata = True, Normalization = False\<rparr> \<and>
   Source \<lparr>Source = True, Metadata = True, Normalization = False\<rparr> \<and>
   Metadata \<lparr>Source = True, Metadata = True, Normalization = False\<rparr>"
proof -
  let ?a = "demoArgs\<lparr>argFlushLocal := True\<rparr>"
  let ?s = "fetchSources ?a demoEnv (demoState 0)"
  have running: "\<not> exited ?s"
    by (simp add: demo_fetchSources) (simp add: demoState_def)
  have flag: "argFlushLocal ?a"
    by simp
  have entry: "tracks (flushOverride ?a ?s) 3 =
      Some \<lparr>Source = True, Metadata = True, Normalization = False\<rparr>"
    by (simp add: demo_fetchSources) (simp add: flushOverride_def SyncOptionsDefault_def)
  from flushOverride_second_pass [of ?a demoEnv "demoState 0" ?s] running flag entry
  show ?thesis by simp
qed

text \<open>Against the 30 minutes, the saturation of \<open>Time.Sub\<close> makes no difference.\<close>

lemma time_Sub_exceeds: "time_Sub now t > cacheDuration \<longleftrightarrow> now - t > cacheDuration"
  by (simp add: time_Sub_def Let_def cacheDuration_def time_Minute_def maxDuration_def
      minDuration_def)

lemma fetchDump_eq:
  "fetchDump env path s =
     (case call (FetchGobCall path) (FetchGob env path) s of
        (Inl err, s1) \<Rightarrow> (Inl err, s1)
      | (Inr dump, s1) \<Rightarrow>
          if fst (call NowCall (time_Now env) s1) - Time dump > cacheDuration
          then (Inl CacheObsolete, snd (call NowCall (time_Now env) s1))
          else (Inr dump, snd (call NowCall (time_Now env) s1)))"
proof (cases "call (FetchGobCall path) (FetchGob env path) s")
  case (Pair r s1)
  show ?thesis
  proof (cases r)
    case (Inl err)
    with Pair show ?thesis by (simp add: fetchDump_def)
  next
    case (Inr dump)
    obtain now s2 where now: "call NowCall (time_Now env) s1 = (now, s2)"
      by (cases "call NowCall (time_Now env) s1")
    with Pair Inr show ?thesis
      by (simp add: fetchDump_def time_Since_def time_Sub_exceeds)
  qed
qed

lemma calls_ui_Append [simp]: "calls (ui_Append m opts s) = calls s"
  by (simp add: ui_Append_def)

lemma calls_tracksInflateWithOption [simp]:
  "calls (tracksInflateWithOption env t opts s) = calls s"
  by (simp add: tracksInflateWithOption_def Let_def)

lemma calls_tracksInflate [simp]: "calls (tracksInflate env t s) = calls s"
  by (simp add: tracksInflate_def Let_def)

lemma calls_inflateAll [simp]: "calls (inflateAll env ts s) = calls s"
  by (induction ts arbitrary: s) (simp_all add: inflateAll_Cons)

lemma calls_call: "calls (snd (call ev f s)) = calls s @ [ev]"
  by (simp add: call_def split: prod.splits)

lemma calls_ui_Prompt:
  "calls (snd (ui_Prompt env m opts s)) =
     (if PromptExit \<in> set opts then calls s @ [OsExit] else calls s)"
  by (simp add: ui_Prompt_def mainExit_def Let_def split: prod.splits)

lemma exited_ui_Prompt:
  "exited (snd (ui_Prompt env m opts s)) \<longleftrightarrow> PromptExit \<in> set opts \<or> exited s"
  by (simp add: ui_Prompt_def mainExit_def Let_def split: prod.splits)

lemma calls_storeDump: "\<exists>dump. calls (storeDump env gob ts s) = calls s @ [NowCall, DumpGobCall gob dump]"
proof -
  obtain now s1 where n: "call NowCall (time_Now env) s = (now, s1)"
    by (cases "call NowCall (time_Now env) s")
  obtain r s2 where d: "call (DumpGobCall gob \<lparr>Tracks = ts, Time = now\<rparr>)
      (DumpGob env gob \<lparr>Tracks = ts, Time = now\<rparr>) s1 = (r, s2)"
    by (cases "call (DumpGobCall gob \<lparr>Tracks = ts, Time = now\<rparr>)
      (DumpGob env gob \<lparr>Tracks = ts, Time = now\<rparr>) s1")
  from calls_call [of NowCall "time_Now env" s] n have c1: "calls s1 = calls s @ [NowCall]"
    by simp
  from calls_call [of "DumpGobCall gob \<lparr>Tracks = ts, Time = now\<rparr>"
      "DumpGob env gob \<lparr>Tracks = ts, Time = now\<rparr>" s1] d
  have c2: "calls s2 = calls s1 @ [DumpGobCall gob \<lparr>Tracks = ts, Time = now\<rparr>]"
    by simp
  from n d c1 c2 show ?thesis
    by (cases r) (auto simp: storeDump_def)
qed

text \<open>The live fetches call the Spotify API.\<close>

lemma libraryLive_calls: "LibraryTracksCall \<in> set (calls (libraryLive env gob s))"
proof -
  let ?s0 = "ui_Append FetchingLibrary [] s"
  obtain r s1 where c: "call LibraryTracksCall (LibraryTracks env) ?s0 = (r, s1)"
    by (cases "call LibraryTracksCall (LibraryTracks env) ?s0")
  from calls_call [of LibraryTracksCall "LibraryTracks env" ?s0] c
  have s1: "LibraryTracksCall \<in> set (calls s1)"
    by simp
  show ?thesis
  proof (cases r)
    case (Inl err)
    with c s1 show ?thesis
      by (simp add: libraryLive_def Let_def calls_ui_Prompt exited_ui_Prompt)
  next
    case (Inr library)
    from calls_storeDump [of env gob library s1] s1
    have "LibraryTracksCall \<in> set (calls (storeDump env gob library s1))"
      by auto
    with c Inr show ?thesis
      by (simp add: libraryLive_def)
  qed
qed

lemma albumLive_calls: "AlbumTracksCall uri \<in> set (calls (albumLive env uri gob s))"
proof -
  let ?s0 = "ui_Append (FetchingAlbum (IDFromURI env uri)) [] s"
  obtain r s1 where c: "call (AlbumTracksCall uri) (AlbumTracks env uri) ?s0 = (r, s1)"
    by (cases "call (AlbumTracksCall uri) (AlbumTracks env uri) ?s0")
  from calls_call [of "AlbumTracksCall uri" "AlbumTracks env uri" ?s0] c
  have s1: "AlbumTracksCall uri \<in> set (calls s1)"
    by simp
  show ?thesis
  proof (cases r)
    case (Inl err)
    with c s1 show ?thesis
      by (simp add: albumLive_def Let_def calls_ui_Prompt exited_ui_Prompt)
  next
    case (Inr album)
    from calls_storeDump [of env gob album s1] s1
    have "AlbumTracksCall uri \<in> set (calls (storeDump env gob album s1))"
      by auto
    with c Inr show ?thesis
      by (simp add: albumLive_def)
  qed
qed

lemma calls_addPlaylist [simp]: "calls (addPlaylist playlist ts s) = calls s"
  by (simp add: addPlaylist_def)

lemma playlistLive_calls:
  "PlaylistTracksCall uri \<in> set (calls (playlistLive env uri gob playlist s))"
proof -
  let ?s0 = "ui_Append (FetchingPlaylist (IDFromURI env uri)) [] s"
  obtain r s1 where c: "call (PlaylistTracksCall uri) (ClientPlaylistTracks env uri) ?s0 = (r, s1)"
    by (cases "call (PlaylistTracksCall uri) (ClientPlaylistTracks env uri) ?s0")
  from calls_call [of "PlaylistTracksCall uri" "ClientPlaylistTracks env uri" ?s0] c
  have s1: "PlaylistTracksCall uri \<in> set (calls s1)"
    by simp
  show ?thesis
  proof (cases r)
    case (Inl err)
    with c s1 show ?thesis
      by (simp add: playlistLive_def Let_def calls_ui_Prompt exited_ui_Prompt)
  next
    case (Inr p)
    from calls_storeDump [of env gob p s1] s1
    have "PlaylistTracksCall uri \<in> set (calls (storeDump env gob p s1))"
      by auto
    with c Inr show ?thesis
      by (simp add: playlistLive_def)
  qed
qed

text \<open>
  C2. \<open>fetchDump\<close> fails exactly when the snapshot file cannot be read (\<open>system.FetchGob\<close>
  returns an error) or when the snapshot is read and \<open>now - snapshot.Time\<close> exceeds
  \<open>cacheDuration\<close>, which is 30 minutes. A snapshot stored at time \<open>T\<close> is therefore
  fetched with success at \<open>T + 29min\<close> and refused at \<open>T + 31min\<close>. On either failure
  each of the three callers (\<open>mainFetchLibrary\<close>, the loop bodies of \<open>mainFetchAlbums\<close>
  and \<open>mainFetchPlaylists\<close>) goes on with its live fetch, which calls the Spotify API
  (\<open>c.LibraryTracks\<close>, \<open>c.AlbumTracks\<close>, \<open>c.PlaylistTracks\<close>).
\<close>

theorem fetchDump_ttl:
  "((\<exists>e. fst (fetchDump env path s) = Inl e) \<longleftrightarrow>
      (\<exists>err. fst (call (FetchGobCall path) (FetchGob env path) s) = Inl err) \<or>
      (\<exists>dump s1. call (FetchGobCall path) (FetchGob env path) s = (Inr dump, s1) \<and>
         fst (call NowCall (time_Now env) s1) - Time dump > cacheDuration)) \<and>
   cacheDuration = 30 * time_Minute \<and>
   (call (FetchGobCall path) (FetchGob env path) s = (Inr dump, s1) \<and>
    fst (call NowCall (time_Now env) s1) = Time dump + 29 * time_Minute \<longrightarrow>
      fst (fetchDump env path s) = Inr dump) \<and>
   (call (FetchGobCall path) (FetchGob env path) s = (Inr dump, s1) \<and>
    fst (call NowCall (time_Now env) s1) = Time dump + 31 * time_Minute \<longrightarrow>
      fst (fetchDump env path s) = Inl CacheObsolete) \<and>
   (argLibrary a \<and>
    fst (fetchDump env (usrGob env (cUserID env) ''library'')
           (flushCache a env (usrGob env (cUserID env) ''library'') s)) = Inl e \<longrightarrow>
      mainFetchLibrary a env s =
        libraryLive env (usrGob env (cUserID env) ''library'')
          (snd (fetchDump env (usrGob env (cUserID env) ''library'')
                  (flushCache a env (usrGob env (cUserID env) ''library'') s))) \<and>
      LibraryTracksCall \<in> set (calls (mainFetchLibrary a env s))) \<and>
   (fst (fetchDump env (usrGob env (cUserID env) (''album_'' @ IDFromURI env (aliased env uri)))
           (flushCache a env
              (usrGob env (cUserID env) (''album_'' @ IDFromURI env (aliased env uri))) s)) = Inl e \<longrightarrow>
      fetchAlbum a env uri s =
        albumLive env (aliased env uri)
          (usrGob env (cUserID env) (''album_'' @ IDFromURI env (aliased env uri)))
          (snd (fetchDump env
                  (usrGob env (cUserID env) (''album_'' @ IDFromURI env (aliased env uri)))
                  (flushCache a env
                     (usrGob env (cUserID env) (''album_'' @ IDFromURI env (aliased env uri))) s))) \<and>
      AlbumTracksCall (aliased env uri) \<in> set (calls (fetchAlbum a env uri s))) \<and>
   (fst (fetchDump env (usrGob env (cUserID env) (''playlist_'' @ IDFromURI env (aliased env uri)))
           (flushCache a env
              (usrGob env (cUserID env) (''playlist_'' @ IDFromURI env (aliased env uri)))
              (snd (call (PlaylistCall (aliased env uri)) (ClientPlaylist env (aliased env uri)) s)))) = Inl e \<longrightarrow>
      PlaylistTracksCall (aliased env uri) \<in> set (calls (fetchPlaylist a env uri s)) \<and>
      (\<exists>playlist.
         fetchPlaylist a env uri s =
           playlistLive env (aliased env uri)
             (usrGob env (cUserID env) (''playlist_'' @ IDFromURI env (aliased env uri)))
             playlist
             (snd (fetchDump env
                     (usrGob env (cUserID env) (''playlist_'' @ IDFromURI env (aliased env uri)))
                     (flushCache a env
                        (usrGob env (cUserID env) (''playlist_'' @ IDFromURI env (aliased env uri)))
                        (snd (call (PlaylistCall (aliased env uri)) (ClientPlaylist env (aliased env uri)) s)))))))"
proof -
  let ?lib = "usrGob env (cUserID env) ''library''"
  let ?alb = "usrGob env (cUserID env) (''album_'' @ IDFromURI env (aliased env uri))"
  let ?pls = "usrGob env (cUserID env) (''playlist_'' @ IDFromURI env (aliased env uri))"
  let ?s0 = "snd (call (PlaylistCall (aliased env uri)) (ClientPlaylist env (aliased env uri)) s)"
  have fails: "(\<exists>e. fst (fetchDump env path s) = Inl e) \<longleftrightarrow>
      (\<exists>err. fst (call (FetchGobCall path) (FetchGob env path) s) = Inl err) \<or>
      (\<exists>dump s1. call (FetchGobCall path) (FetchGob env path) s = (Inr dump, s1) \<and>
         fst (call NowCall (time_Now env) s1) - Time dump > cacheDuration)"
    by (auto simp: fetchDump_eq split: prod.splits sum.splits if_splits)
  have ttl: "cacheDuration = 30 * time_Minute"
    by (simp add: cacheDuration_def)
  have early: "call (FetchGobCall path) (FetchGob env path) s = (Inr dump, s1) \<and>
      fst (call NowCall (time_Now env) s1) = Time dump + 29 * time_Minute \<longrightarrow>
      fst (fetchDump env path s) = Inr dump"
    by (simp add: fetchDump_eq cacheDuration_def time_Minute_def)
  have late: "call (FetchGobCall path) (FetchGob env path) s = (Inr dump, s1) \<and>
      fst (call NowCall (time_Now env) s1) = Time dump + 31 * time_Minute \<longrightarrow>
      fst (fetchDump env path s) = Inl CacheObsolete"
    by (simp add: fetchDump_eq cacheDuration_def time_Minute_def)
  have library: "argLibrary a \<and> fst (fetchDump env ?lib (flushCache a env ?lib s)) = Inl e \<longrightarrow>
      mainFetchLibrary a env s =
        libraryLive env ?lib (snd (fetchDump env ?lib (flushCache a env ?lib s))) \<and>
      LibraryTracksCall \<in> set (calls (mainFetchLibrary a env s))"
  proof (rule impI)
    assume "argLibrary a \<and> fst (fetchDump env ?lib (flushCache a env ?lib s)) = Inl e"
    then have "mainFetchLibrary a env s =
        libraryLive env ?lib (snd (fetchDump env ?lib (flushCache a env ?lib s)))"
      by (cases "fetchDump env ?lib (flushCache a env ?lib s)")
        (simp add: mainFetchLibrary_def Let_def)
    then show "mainFetchLibrary a env s =
        libraryLive env ?lib (snd (fetchDump env ?lib (flushCache a env ?lib s))) \<and>
      LibraryTracksCall \<in> set (calls (mainFetchLibrary a env s))"
      by (simp add: libraryLive_calls)
  qed
  have album: "fst (fetchDump env ?alb (flushCache a env ?alb s)) = Inl e \<longrightarrow>
      fetchAlbum a env uri s =
        albumLive env (aliased env uri) ?alb (snd (fetchDump env ?alb (flushCache a env ?alb s))) \<and>
      AlbumTracksCall (aliased env uri) \<in> set (calls (fetchAlbum a env uri s))"
  proof (rule impI)
    assume "fst (fetchDump env ?alb (flushCache a env ?alb s)) = Inl e"
    then have "fetchAlbum a env uri s =
        albumLive env (aliased env uri) ?alb (snd (fetchDump env ?alb (flushCache a env ?alb s)))"
      by (cases "fetchDump env ?alb (flushCache a env ?alb s)")
        (simp add: fetchAlbum_def Let_def)
    then show "fetchAlbum a env uri s =
        albumLive env (aliased env uri) ?alb (snd (fetchDump env ?alb (flushCache a env ?alb s))) \<and>
      AlbumTracksCall (aliased env uri) \<in> set (calls (fetchAlbum a env uri s))"
      by (simp add: albumLive_calls)
  qed
  have playlist: "fst (fetchDump env ?pls (flushCache a env ?pls ?s0)) = Inl e \<longrightarrow>
      PlaylistTracksCall (aliased env uri) \<in> set (calls (fetchPlaylist a env uri s)) \<and>
      (\<exists>playlist. fetchPlaylist a env uri s =
         playlistLive env (aliased env uri) ?pls playlist
           (snd (fetchDump env ?pls (flushCache a env ?pls ?s0))))"
  proof (rule impI)
    assume "fst (fetchDump env ?pls (flushCache a env ?pls ?s0)) = Inl e"
    then have ex: "\<exists>playlist. fetchPlaylist a env uri s =
        playlistLive env (aliased env uri) ?pls playlist
          (snd (fetchDump env ?pls (flushCache a env ?pls ?s0)))"
      by (cases "fetchDump env ?pls (flushCache a env ?pls ?s0)";
          cases "call (PlaylistCall (aliased env uri)) (ClientPlaylist env (aliased env uri)) s")
        (auto simp: fetchPlaylist_def Let_def)
    then have "PlaylistTracksCall (aliased env uri) \<in> set (calls (fetchPlaylist a env uri s))"
      by (auto simp: playlistLive_calls)
    with ex show "PlaylistTracksCall (aliased env uri) \<in> set (calls (fetchPlaylist a env uri s)) \<and>
      (\<exists>playlist. fetchPlaylist a env uri s =
         playlistLive env (aliased env uri) ?pls playlist
           (snd (fetchDump env ?pls (flushCache a env ?pls ?s0))))"
      by simp
  qed
  show ?thesis
    by (intro conjI) (fact fails ttl early late library album playlist)+
qed

text \<open>
  The snapshot of the library was stored at time 0. At 29 minutes it is fetched; at 31
  minutes it is refused and the library, an album and a playlist are fetched live.
\<close>

lemma demo_call_FetchGob:
  "world s = now \<Longrightarrow>
   call (FetchGobCall path) (FetchGob demoEnv path) s =
     (Inr \<lparr>Tracks = [1, 3], Time = 0\<rparr>, s\<lparr>calls := calls s @ [FetchGobCall path]\<rparr>)"
  by (simp add: call_def demoEnv_def)

lemma demo_call_time_Now:
  "call NowCall (time_Now demoEnv) s = (world s, s\<lparr>calls := calls s @ [NowCall]\<rparr>)"
  by (simp add: call_def demoEnv_def)

lemma demo_flushCache: "flushCache demoArgs demoEnv gob s = s"
  by (simp add: flushCache_def demoArgs_def)

lemma demo_fetchDump_late:
  "world s = 31 * time_Minute \<Longrightarrow>
   fetchDump demoEnv path s = (Inl CacheObsolete, s\<lparr>calls := calls s @ [FetchGobCall path, NowCall]\<rparr>)"
  by (simp add: fetchDump_eq demo_call_FetchGob demo_call_time_Now cacheDuration_def
      time_Minute_def)

theorem fetchDump_ttl_witness:
  "call (FetchGobCall ''user_library.gob'') (FetchGob demoEnv ''user_library.gob'')
     (demoState (29 * time_Minute)) =
     (Inr \<lparr>Tracks = [1, 3], Time = 0\<rparr>,
      (demoState (29 * time_Minute))\<lparr>calls := [FetchGobCall ''user_library.gob'']\<rparr>) \<and>
   fst (call NowCall (time_Now demoEnv)
          ((demoState (29 * time_Minute))\<lparr>calls := [FetchGobCall ''user_library.gob'']\<rparr>)) =
     Time \<lparr>Tracks = [1, 3], Time = 0\<rparr> + 29 * time_Minute \<and>
   fst (fetchDump demoEnv ''user_library.gob'' (demoState (29 * time_Minute))) =
     Inr \<lparr>Tracks = [1, 3], Time = 0\<rparr> \<and>
   call (FetchGobCall ''user_library.gob'') (FetchGob demoEnv ''user_library.gob'')
     (demoState (31 * time_Minute)) =
     (Inr \<lparr>Tracks = [1, 3], Time = 0\<rparr>,
      (demoState (31 * time_Minute))\<lparr>calls := [FetchGobCall ''user_library.gob'']\<rparr>) \<and>
   fst (call NowCall (time_Now demoEnv)
          ((demoState (31 * time_Minute))\<lparr>calls := [FetchGobCall ''user_library.gob'']\<rparr>)) =
     Time \<lparr>Tracks = [1, 3], Time = 0\<rparr> + 31 * time_Minute \<and>
   fst (fetchDump demoEnv ''user_library.gob'' (demoState (31 * time_Minute))) =
     Inl CacheObsolete \<and>
   argLibrary demoArgs \<and>
   LibraryTracksCall \<in> set (calls (mainFetchLibrary demoArgs demoEnv (demoState (31 * time_Minute)))) \<and>
   AlbumTracksCall ''album1'' \<in>
     set (calls (fetchAlbum demoArgs demoEnv ''album1'' (demoState (31 * time_Minute)))) \<and>
   PlaylistTracksCall ''playlist1'' \<in>
     set (calls (fetchPlaylist demoArgs demoEnv ''playlist1'' (demoState (31 * time_Minute))))"
proof -
  let ?d = "\<lparr>Tracks = [1, 3], Time = 0\<rparr>"
  let ?early = "demoState (29 * time_Minute)"
  let ?late = "demoState (31 * time_Minute)"
  let ?early1 = "?early\<lparr>calls := [FetchGobCall ''user_library.gob'']\<rparr>"
  let ?late1 = "?late\<lparr>calls := [FetchGobCall ''user_library.gob'']\<rparr>"
  have e1: "call (FetchGobCall ''user_library.gob'') (FetchGob demoEnv ''user_library.gob'') ?early =
      (Inr ?d, ?early1)"
    by (simp add: demo_call_FetchGob) (simp add: demoState_def)
  have e2: "fst (call NowCall (time_Now demoEnv) ?early1) = Time ?d + 29 * time_Minute"
    by (simp add: demo_call_time_Now) (simp add: demoState_def)
  have l1: "call (FetchGobCall ''user_library.gob'') (FetchGob demoEnv ''user_library.gob'') ?late =
      (Inr ?d, ?late1)"
    by (simp add: demo_call_FetchGob) (simp add: demoState_def)
  have l2: "fst (call NowCall (time_Now demoEnv) ?late1) = Time ?d + 31 * time_Minute"
    by (simp add: demo_call_time_Now) (simp add: demoState_def)
  have names: "usrGob demoEnv (cUserID demoEnv) ''library'' = ''user_library.gob''"
    "aliased demoEnv ''album1'' = ''album1''"
    "aliased demoEnv ''playlist1'' = ''playlist1''"
    by (simp_all add: demoEnv_def aliased_def)
  have lib: "argLibrary demoArgs"
    by (simp add: demoArgs_def)
  have w: "world ?late = 31 * time_Minute"
    by (simp add: demoState_def)
  have pl: "world (snd (call (PlaylistCall ''playlist1'') (ClientPlaylist demoEnv ''playlist1'') ?late)) =
      31 * time_Minute"
    by (simp add: call_def demoEnv_def demoState_def)
  from fetchDump_ttl [of demoEnv "''user_library.gob''" ?early ?d ?early1] e1 e2
  have early: "fst (fetchDump demoEnv ''user_library.gob'' ?early) = Inr ?d"
    by blast
  from fetchDump_ttl [of demoEnv "''user_library.gob''" ?late ?d ?late1] l1 l2
  have late: "fst (fetchDump demoEnv ''user_library.gob'' ?late) = Inl CacheObsolete"
    by blast
  have hl: "argLibrary demoArgs \<and>
      fst (fetchDump demoEnv (usrGob demoEnv (cUserID demoEnv) ''library'')
             (flushCache demoArgs demoEnv (usrGob demoEnv (cUserID demoEnv) ''library'') ?late)) =
        Inl CacheObsolete"
    by (simp add: lib demo_flushCache demo_fetchDump_late [OF w])
  from fetchDump_ttl [where env = demoEnv and s = ?late and a = demoArgs and e = CacheObsolete] hl
  have library: "LibraryTracksCall \<in> set (calls (mainFetchLibrary demoArgs demoEnv ?late))"
    by blast
  have ha: "fst (fetchDump demoEnv
               (usrGob demoEnv (cUserID demoEnv) (''album_'' @ IDFromURI demoEnv (aliased demoEnv ''album1'')))
               (flushCache demoArgs demoEnv
                  (usrGob demoEnv (cUserID demoEnv)
                     (''album_'' @ IDFromURI demoEnv (aliased demoEnv ''album1''))) ?late)) =
        Inl CacheObsolete"
    by (simp add: demo_flushCache demo_fetchDump_late [OF w])
  from fetchDump_ttl [where env = demoEnv and s = ?late and a = demoArgs and e = CacheObsolete
      and uri = "''album1''"] ha
  have "AlbumTracksCall (aliased demoEnv ''album1'') \<in>
      set (calls (fetchAlbum demoArgs demoEnv ''album1'' ?late))"
    by blast
  then have album: "AlbumTracksCall ''album1'' \<in>
      set (calls (fetchAlbum demoArgs demoEnv ''album1'' ?late))"
    by (simp add: names)
  have hp: "fst (fetchDump demoEnv
               (usrGob demoEnv (cUserID demoEnv)
                  (''playlist_'' @ IDFromURI demoEnv (aliased demoEnv ''playlist1'')))
               (flushCache demoArgs demoEnv
                  (usrGob demoEnv (cUserID demoEnv)
                     (''playlist_'' @ IDFromURI demoEnv (aliased demoEnv ''playlist1'')))
                  (snd (call (PlaylistCall (aliased demoEnv ''playlist1''))
                          (ClientPlaylist demoEnv (aliased demoEnv ''playlist1'')) ?late)))) =
        Inl CacheObsolete"
    by (simp add: demo_flushCache names demo_fetchDump_late [OF pl])
  from fetchDump_ttl [where env = demoEnv and s = ?late and a = demoArgs and e = CacheObsolete
      and uri = "''playlist1''"] hp
  have "PlaylistTracksCall (aliased demoEnv ''playlist1'') \<in>
      set (calls (fetchPlaylist demoArgs demoEnv ''playlist1'' ?late))"
    by blast
  then have playlist: "PlaylistTracksCall ''playlist1'' \<in>
      set (calls (fetchPlaylist demoArgs demoEnv ''playlist1'' ?late))"
    by (simp add: names)
  from e1 e2 early l1 l2 late lib library album playlist show ?thesis
    by blast
qed

section \<open>Post-processing: properties\<close>

lemma calls_logError [simp]: "calls (logError style r) = calls (snd r)"
  by (cases r) (simp add: logError_def split: option.splits)

lemma calls_perform [simp]: "calls (perform ev f s) = calls s @ [ev]"
  by (simp add: perform_def)

lemma heap_call [simp]: "heap (snd (call ev f s)) = heap s"
  by (simp add: call_def split: prod.splits)

lemma heap_ui_Append [simp]: "heap (ui_Append m opts s) = heap s"
  by (simp add: ui_Append_def)

lemma heap_perform [simp]: "heap (perform ev f s) = heap s"
  by (simp add: perform_def)

lemma heap_logError [simp]: "heap (logError style r) = heap (snd r)"
  by (cases r) (simp add: logError_def split: option.splits)

lemma ui_call [simp]: "ui (snd (call ev f s)) = ui s"
  by (simp add: call_def split: prod.splits)

text \<open>A call changes the world and the log of effects, nothing else.\<close>

lemma call_frame:
  "call ev f s = (r, s') \<Longrightarrow> s' = s\<lparr>world := world s', calls := calls s @ [ev]\<rparr>"
  by (auto simp: call_def split: prod.splits)

lemma call_ui: "call ev f s = (r, s') \<Longrightarrow> ui s' = ui s"
  by (auto simp: call_def split: prod.splits)

lemma ui_perform [simp]: "ui (perform ev f s) = ui s"
  by (simp add: perform_def)

text \<open>What \<open>songNormalize\<close> does, by the cases of its inputs.\<close>

lemma songNormalize_off:
  "\<not> Normalization opts \<Longrightarrow> songNormalize env t opts s = (None, s)"
  by (simp add: songNormalize_def)

lemma songNormalize_detect_error:
  assumes "Normalization opts"
    and "call (VolumeDetectCall (FilenameTemporary env (heap s t)))
           (VolumeDetect env (FilenameTemporary env (heap s t))) s = (Inl err, s1)"
  shows "songNormalize env t opts s = (Some err, s1)"
    and "calls s1 = calls s @ [VolumeDetectCall (FilenameTemporary env (heap s t))]"
  using assms calls_call [of "VolumeDetectCall (FilenameTemporary env (heap s t))"
      "VolumeDetect env (FilenameTemporary env (heap s t))" s]
  by (simp_all add: songNormalize_def)

lemma songNormalize_loud:
  assumes "Normalization opts"
    and "call (VolumeDetectCall (FilenameTemporary env (heap s t)))
           (VolumeDetect env (FilenameTemporary env (heap s t))) s = (Inr volume, s1)"
    and "volume > 0"
  shows "songNormalize env t opts s = (None, s1)"
    and "calls s1 = calls s @ [VolumeDetectCall (FilenameTemporary env (heap s t))]"
  using assms calls_call [of "VolumeDetectCall (FilenameTemporary env (heap s t))"
      "VolumeDetect env (FilenameTemporary env (heap s t))" s]
  by (simp_all add: songNormalize_def)

lemma songNormalize_gain:
  assumes "Normalization opts"
    and "call (VolumeDetectCall (FilenameTemporary env (heap s t)))
           (VolumeDetect env (FilenameTemporary env (heap s t))) s = (Inr volume, s1)"
    and "\<not> volume > 0"
  shows "songNormalize env t opts s =
           call (VolumeIncreaseCall \<bar>volume\<bar> (FilenameTemporary env (heap s t)))
             (VolumeIncrease env \<bar>volume\<bar> (FilenameTemporary env (heap s t))) s1"
    and "calls (snd (songNormalize env t opts s)) =
           calls s @ [VolumeDetectCall (FilenameTemporary env (heap s t)),
                      VolumeIncreaseCall \<bar>volume\<bar> (FilenameTemporary env (heap s t))]"
proof -
  from assms(2) have h: "heap s1 = heap s"
    using heap_call [of "VolumeDetectCall (FilenameTemporary env (heap s t))"
        "VolumeDetect env (FilenameTemporary env (heap s t))" s] by simp
  from assms(2) have c: "calls s1 = calls s @ [VolumeDetectCall (FilenameTemporary env (heap s t))]"
    using calls_call [of "VolumeDetectCall (FilenameTemporary env (heap s t))"
        "VolumeDetect env (FilenameTemporary env (heap s t))" s] by simp
  from assms h show eq: "songNormalize env t opts s =
      call (VolumeIncreaseCall \<bar>volume\<bar> (FilenameTemporary env (heap s t)))
        (VolumeIncrease env \<bar>volume\<bar> (FilenameTemporary env (heap s t))) s1"
    by (simp add: songNormalize_def)
  show "calls (snd (songNormalize env t opts s)) =
      calls s @ [VolumeDetectCall (FilenameTemporary env (heap s t)),
                 VolumeIncreaseCall \<bar>volume\<bar> (FilenameTemporary env (heap s t))]"
    unfolding eq by (simp add: calls_call c)
qed

text \<open>The effects of \<open>songNormalize\<close>: a measurement, and at most one gain after it.\<close>

lemma songNormalize_calls:
  "calls (snd (songNormalize env t opts s)) = calls s \<or>
   calls (snd (songNormalize env t opts s)) =
     calls s @ [VolumeDetectCall (FilenameTemporary env (heap s t))] \<or>
   (\<exists>v. calls (snd (songNormalize env t opts s)) =
      calls s @ [VolumeDetectCall (FilenameTemporary env (heap s t)),
                 VolumeIncreaseCall v (FilenameTemporary env (heap s t))])"
proof (cases "Normalization opts")
  case False
  then show ?thesis by (simp add: songNormalize_off)
next
  case True
  obtain r s1 where c: "call (VolumeDetectCall (FilenameTemporary env (heap s t)))
      (VolumeDetect env (FilenameTemporary env (heap s t))) s = (r, s1)"
    by (cases "call (VolumeDetectCall (FilenameTemporary env (heap s t)))
      (VolumeDetect env (FilenameTemporary env (heap s t))) s")
  show ?thesis
  proof (cases r)
    case (Inl err)
    with True c songNormalize_detect_error [of opts env s t err s1] show ?thesis by simp
  next
    case (Inr volume)
    show ?thesis
    proof (cases "volume > 0")
      case v: True
      with True c Inr songNormalize_loud [of opts env s t volume s1] show ?thesis by simp
    next
      case v: False
      with True c Inr songNormalize_gain(2) [of opts env s t volume s1] show ?thesis by blast
    qed
  qed
qed

lemma heap_songNormalize [simp]: "heap (snd (songNormalize env t opts s)) = heap s"
  by (simp add: songNormalize_def split: prod.splits sum.splits)
    (metis heap_call snd_conv)

lemma songMetadataFlush_calls:
  "calls (snd (songMetadataFlush env t opts s)) =
     (if Metadata opts then calls s @ [FlushCall t] else calls s)"
  by (simp add: songMetadataFlush_def calls_call)

lemma heap_songMetadataFlush [simp]: "heap (snd (songMetadataFlush env t opts s)) = heap s"
  by (simp add: songMetadataFlush_def)

text \<open>
  Whatever normalization and metadata flush return, the stages end with the removal of
  the final path and the move of the temporary file onto it.
\<close>

lemma songStages_finalizes:
  "\<exists>mid. calls (songStages env t opts s) =
     calls s @ mid @ [RemoveCall (Filename env (heap s t)),
                      RenameCall (FilenameTemporary env (heap s t)) (Filename env (heap s t))] \<and>
     set mid \<subseteq> {VolumeDetectCall (FilenameTemporary env (heap s t)), FlushCall t} \<union>
               range (\<lambda>v. VolumeIncreaseCall v (FilenameTemporary env (heap s t)))"
proof -
  let ?tmp = "FilenameTemporary env (heap s t)"
  let ?s1 = "logError ErrorAppend (songNormalize env t opts s)"
  let ?s2 = "logError ErrorAppend (songMetadataFlush env t opts ?s1)"
  let ?s3 = "perform (RemoveCall (Filename env (heap s t))) (os_Remove env (Filename env (heap s t))) ?s2"
  have h1: "heap ?s1 = heap s" by simp
  have h2: "heap ?s2 = heap s" by simp
  obtain m1 where m1: "calls ?s1 = calls s @ m1"
    "set m1 \<subseteq> {VolumeDetectCall ?tmp} \<union> range (\<lambda>v. VolumeIncreaseCall v ?tmp)"
    using songNormalize_calls [of env t opts s] by auto
  have c2: "calls ?s2 = calls ?s1 @ (if Metadata opts then [FlushCall t] else [])"
    by (simp add: songMetadataFlush_calls)
  have c3: "calls ?s3 = calls ?s2 @ [RemoveCall (Filename env (heap s t))]"
    by simp
  obtain r s4 where r: "call (RenameCall ?tmp (Filename env (heap s t)))
      (os_Rename env ?tmp (Filename env (heap s t))) ?s3 = (r, s4)"
    by (cases "call (RenameCall ?tmp (Filename env (heap s t)))
      (os_Rename env ?tmp (Filename env (heap s t))) ?s3")
  with calls_call [of "RenameCall ?tmp (Filename env (heap s t))"
      "os_Rename env ?tmp (Filename env (heap s t))" ?s3]
  have c4: "calls s4 = calls ?s3 @ [RenameCall ?tmp (Filename env (heap s t))]"
    by simp
  from r have "calls (songStages env t opts s) = calls s4"
    by (cases r) (simp_all add: songStages_def Let_def)
  with m1 c2 c3 c4 show ?thesis
    by (intro exI [of _ "m1 @ (if Metadata opts then [FlushCall t] else [])"]) auto
qed

lemma ui_songNormalize [simp]: "ui (snd (songNormalize env t opts s)) = ui s"
  by (simp add: songNormalize_def split: prod.splits sum.splits)
    (metis ui_call snd_conv)

lemma ui_songMetadataFlush [simp]: "ui (snd (songMetadataFlush env t opts s)) = ui s"
  by (simp add: songMetadataFlush_def)

lemma ui_logError:
  "ui (logError style r) =
     ui (snd r) @ (case fst r of Some err \<Rightarrow> [Append (ErrorText err) [style]] | None \<Rightarrow> [])"
  by (cases r) (simp add: logError_def ui_Append_def split: option.splits)

text \<open>The errors of normalization and of the metadata flush are in the log of the interface.\<close>

lemma songStages_ui:
  "\<exists>more. ui (songStages env t opts s) =
     ui s @
     (case fst (songNormalize env t opts s) of
        Some err \<Rightarrow> [Append (ErrorText err) [ErrorAppend]] | None \<Rightarrow> []) @
     (case fst (songMetadataFlush env t opts (logError ErrorAppend (songNormalize env t opts s))) of
        Some err \<Rightarrow> [Append (ErrorText err) [ErrorAppend]] | None \<Rightarrow> []) @
     more"
proof -
  let ?s1 = "logError ErrorAppend (songNormalize env t opts s)"
  let ?s2 = "logError ErrorAppend (songMetadataFlush env t opts ?s1)"
  let ?s3 = "perform (RemoveCall (Filename env (heap ?s2 t))) (os_Remove env (Filename env (heap ?s2 t))) ?s2"
  let ?ev = "RenameCall (FilenameTemporary env (heap ?s3 t)) (Filename env (heap ?s3 t))"
  let ?f = "os_Rename env (FilenameTemporary env (heap ?s3 t)) (Filename env (heap ?s3 t))"
  have u2: "ui ?s3 =
      ui s @
      (case fst (songNormalize env t opts s) of
         Some err \<Rightarrow> [Append (ErrorText err) [ErrorAppend]] | None \<Rightarrow> []) @
      (case fst (songMetadataFlush env t opts ?s1) of
         Some err \<Rightarrow> [Append (ErrorText err) [ErrorAppend]] | None \<Rightarrow> [])"
    by (simp add: ui_logError)
  obtain r s4 where r: "call ?ev ?f ?s3 = (r, s4)"
    by (cases "call ?ev ?f ?s3")
  then have u4: "ui s4 = ui ?s3"
    by (rule call_ui)
  from r have "songStages env t opts s =
      (case r of Some err \<Rightarrow> ui_Append (UnableToMoveSong err) [WarningAppend] s4 | None \<Rightarrow> s4)"
    by (simp add: songStages_def Let_def)
  then have "\<exists>more. ui (songStages env t opts s) = ui s4 @ more"
    by (cases r) (simp_all add: ui_Append_def)
  with u4 u2 show ?thesis
    by auto
qed

text \<open>
  C9, as stated, at a measured volume of exactly 0 dB: the volume is not below zero, and
  \<open>songNormalize\<close> still calls \<open>VolumeIncrease\<close> (with a gain of 0) on the temporary
  file, because only \<open>volume > 0\<close> returns early.
\<close>

theorem songNormalize_zero_volume_counterexample:
  "Normalization \<lparr>Source = True, Metadata = True, Normalization = True\<rparr> \<and>
   fst (VolumeDetect demoEnv ''.song.mp3'' 0) = Inr 0 \<and>
   \<not> (0::real) < 0 \<and>
   calls (snd (songNormalize demoEnv 1 \<lparr>Source = True, Metadata = True, Normalization = True\<rparr>
                 (demoState 0))) =
     [VolumeDetectCall ''.song.mp3'', VolumeIncreaseCall 0 ''.song.mp3'']"
  by (simp add: songNormalize_def call_def demoEnv_def demoState_def demoHeap_def demoTrack_def)

text \<open>
  C9, amended. \<open>songNormalize\<close> does nothing and returns no error when
  \<open>opts.Normalization\<close> is false. Otherwise it measures the loudness of the temporary file;
  when the measurement fails it returns that error; when the measured volume is above
  zero it stops there with no error; when the volume is not above zero (below zero, or
  zero) it applies, as its one further effect, the gain \<open>|volume|\<close> to the temporary file.
  \<open>songMetadataFlush\<close> writes the tags (\<open>track.Flush()\<close>) if and only if \<open>opts.Metadata\<close>
  is true. In \<open>songProcess\<close>, once the temporary file is staged, the error of either
  stage is appended to the interface log and the track goes through the remaining stages:
  its effects always end with the removal of the final path and the move of the
  temporary file onto it.
\<close>

theorem songNormalize_skip_transitions:
  "(\<not> Normalization opts \<longrightarrow> songNormalize env t opts s = (None, s)) \<and>
   (Normalization opts \<and>
    call (VolumeDetectCall (FilenameTemporary env (heap s t)))
      (VolumeDetect env (FilenameTemporary env (heap s t))) s = (Inl err, s1) \<longrightarrow>
      songNormalize env t opts s = (Some err, s1) \<and>
      calls s1 = calls s @ [VolumeDetectCall (FilenameTemporary env (heap s t))]) \<and>
   (Normalization opts \<and>
    call (VolumeDetectCall (FilenameTemporary env (heap s t)))
      (VolumeDetect env (FilenameTemporary env (heap s t))) s = (Inr volume, s1) \<longrightarrow>
      calls (snd (songNormalize env t opts s)) =
        calls s @
        (if volume > 0 then [VolumeDetectCall (FilenameTemporary env (heap s t))]
         else [VolumeDetectCall (FilenameTemporary env (heap s t)),
               VolumeIncreaseCall \<bar>volume\<bar> (FilenameTemporary env (heap s t))]) \<and>
      (volume > 0 \<longrightarrow> songNormalize env t opts s = (None, s1)) \<and>
      (volume \<le> 0 \<longrightarrow>
         songNormalize env t opts s =
           call (VolumeIncreaseCall \<bar>volume\<bar> (FilenameTemporary env (heap s t)))
             (VolumeIncrease env \<bar>volume\<bar> (FilenameTemporary env (heap s t))) s1)) \<and>
   (\<not> Metadata opts \<longrightarrow> songMetadataFlush env t opts s = (None, s)) \<and>
   calls (snd (songMetadataFlush env t opts s)) =
     (if Metadata opts then calls s @ [FlushCall t] else calls s) \<and>
   (FileExists env (FilenameTemporary env (heap s t)) (world s) \<longrightarrow>
      songProcess env t opts s = songStages env t opts s) \<and>
   (\<not> FileExists env (FilenameTemporary env (heap s t)) (world s) \<and>
    call (FileCopyCall (Filename env (heap s t)) (FilenameTemporary env (heap s t)))
      (FileCopy env (Filename env (heap s t)) (FilenameTemporary env (heap s t))) s = (None, s1) \<longrightarrow>
      songProcess env t opts s = songStages env t opts s1) \<and>
   (\<exists>mid. calls (songStages env t opts s) =
      calls s @ mid @
      [RemoveCall (Filename env (heap s t)),
       RenameCall (FilenameTemporary env (heap s t)) (Filename env (heap s t))]) \<and>
   (fst (songNormalize env t opts s) = Some err \<longrightarrow>
      Append (ErrorText err) [ErrorAppend] \<in> set (ui (songStages env t opts s))) \<and>
   (fst (songMetadataFlush env t opts (logError ErrorAppend (songNormalize env t opts s))) = Some err \<longrightarrow>
      Append (ErrorText err) [ErrorAppend] \<in> set (ui (songStages env t opts s)))"
proof -
  let ?tmp = "FilenameTemporary env (heap s t)"
  let ?detect = "call (VolumeDetectCall ?tmp) (VolumeDetect env ?tmp) s"
  have off: "\<not> Normalization opts \<longrightarrow> songNormalize env t opts s = (None, s)"
    by (simp add: songNormalize_off)
  have failed: "Normalization opts \<and> ?detect = (Inl err, s1) \<longrightarrow>
      songNormalize env t opts s = (Some err, s1) \<and> calls s1 = calls s @ [VolumeDetectCall ?tmp]"
    using songNormalize_detect_error [of opts env s t err s1] by blast
  have measured: "Normalization opts \<and> ?detect = (Inr volume, s1) \<longrightarrow>
      calls (snd (songNormalize env t opts s)) =
        calls s @
        (if volume > 0 then [VolumeDetectCall ?tmp]
         else [VolumeDetectCall ?tmp, VolumeIncreaseCall \<bar>volume\<bar> ?tmp]) \<and>
      (volume > 0 \<longrightarrow> songNormalize env t opts s = (None, s1)) \<and>
      (volume \<le> 0 \<longrightarrow>
         songNormalize env t opts s =
           call (VolumeIncreaseCall \<bar>volume\<bar> ?tmp) (VolumeIncrease env \<bar>volume\<bar> ?tmp) s1)"
  proof (rule impI)
    assume a: "Normalization opts \<and> ?detect = (Inr volume, s1)"
    show "calls (snd (songNormalize env t opts s)) =
        calls s @
        (if volume > 0 then [VolumeDetectCall ?tmp]
         else [VolumeDetectCall ?tmp, VolumeIncreaseCall \<bar>volume\<bar> ?tmp]) \<and>
      (volume > 0 \<longrightarrow> songNormalize env t opts s = (None, s1)) \<and>
      (volume \<le> 0 \<longrightarrow>
         songNormalize env t opts s =
           call (VolumeIncreaseCall \<bar>volume\<bar> ?tmp) (VolumeIncrease env \<bar>volume\<bar> ?tmp) s1)"
    proof (cases "volume > 0")
      case True
      with a songNormalize_loud [of opts env s t volume s1] show ?thesis by simp
    next
      case False
      with a songNormalize_gain [of opts env s t volume s1] show ?thesis by simp
    qed
  qed
  have flush_off: "\<not> Metadata opts \<longrightarrow> songMetadataFlush env t opts s = (None, s)"
    by (simp add: songMetadataFlush_def)
  have flush: "calls (snd (songMetadataFlush env t opts s)) =
      (if Metadata opts then calls s @ [FlushCall t] else calls s)"
    by (rule songMetadataFlush_calls)
  have staged: "FileExists env ?tmp (world s) \<longrightarrow>
      songProcess env t opts s = songStages env t opts s"
    by (simp add: songProcess_def)
  have copied: "\<not> FileExists env ?tmp (world s) \<and>
      call (FileCopyCall (Filename env (heap s t)) ?tmp)
        (FileCopy env (Filename env (heap s t)) ?tmp) s = (None, s1) \<longrightarrow>
      songProcess env t opts s = songStages env t opts s1"
    by (simp add: songProcess_def)
  have final: "\<exists>mid. calls (songStages env t opts s) =
      calls s @ mid @ [RemoveCall (Filename env (heap s t)), RenameCall ?tmp (Filename env (heap s t))]"
    using songStages_finalizes [of env t opts s] by blast
  have logged1: "fst (songNormalize env t opts s) = Some err \<longrightarrow>
      Append (ErrorText err) [ErrorAppend] \<in> set (ui (songStages env t opts s))"
    using songStages_ui [of env t opts s] by auto
  have logged2: "fst (songMetadataFlush env t opts (logError ErrorAppend (songNormalize env t opts s))) =
        Some err \<longrightarrow>
      Append (ErrorText err) [ErrorAppend] \<in> set (ui (songStages env t opts s))"
    using songStages_ui [of env t opts s] by auto
  show ?thesis
    by (intro conjI) (fact off failed measured flush_off flush staged copied final logged1 logged2)+
qed

text \<open>
  Object 1 with the default options (nothing to do) and with the flush options, when the
  loudness tool fails, measures 3 dB, measures -5 dB, when the temporary file has to be
  copied first, and when the tag writer fails.
\<close>

theorem songNormalize_skip_transitions_witness:
  "(\<not> Normalization SyncOptionsDefault) \<and>
   songNormalize demoEnv 1 SyncOptionsDefault (demoState 0) = (None, (demoState 0)) \<and>
   (Normalization (SyncOptionsFlush True) \<and> call (VolumeDetectCall (FilenameTemporary detectFailsEnv (heap (demoState 0) 1))) (VolumeDetect detectFailsEnv (FilenameTemporary detectFailsEnv (heap (demoState 0) 1))) (demoState 0) = (Inl (External ''ffmpeg''), ((demoState 0)\<lparr>calls := [VolumeDetectCall (FilenameTemporary detectFailsEnv (heap (demoState 0) 1))]\<rparr>))) \<and>
   songNormalize detectFailsEnv 1 (SyncOptionsFlush True) (demoState 0) = (Some (External ''ffmpeg''), ((demoState 0)\<lparr>calls := [VolumeDetectCall (FilenameTemporary detectFailsEnv (heap (demoState 0) 1))]\<rparr>)) \<and>
   ((Normalization (SyncOptionsFlush True) \<and> call (VolumeDetectCall (FilenameTemporary loudEnv (heap (demoState 0) 1))) (VolumeDetect loudEnv (FilenameTemporary loudEnv (heap (demoState 0) 1))) (demoState 0) = (Inr 3, ((demoState 0)\<lparr>calls := [VolumeDetectCall (FilenameTemporary loudEnv (heap (demoState 0) 1))]\<rparr>))) \<and> (3::real) > 0) \<and>
   songNormalize loudEnv 1 (SyncOptionsFlush True) (demoState 0) = (None, ((demoState 0)\<lparr>calls := [VolumeDetectCall (FilenameTemporary loudEnv (heap (demoState 0) 1))]\<rparr>)) \<and>
   ((Normalization (SyncOptionsFlush True) \<and> call (VolumeDetectCall (FilenameTemporary quietEnv (heap (demoState 0) 1))) (VolumeDetect quietEnv (FilenameTemporary quietEnv (heap (demoState 0) 1))) (demoState 0) = (Inr (- 5), ((demoState 0)\<lparr>calls := [VolumeDetectCall (FilenameTemporary quietEnv (heap (demoState 0) 1))]\<rparr>))) \<and> (- 5::real) \<le> 0) \<and>
   calls (snd (songNormalize quietEnv 1 (SyncOptionsFlush True) (demoState 0))) = calls (demoState 0) @ (if (- 5::real) > 0 then [VolumeDetectCall (FilenameTemporary quietEnv (heap (demoState 0) 1))] else [VolumeDetectCall (FilenameTemporary quietEnv (heap (demoState 0) 1)), VolumeIncreaseCall \<bar>- 5\<bar> (FilenameTemporary quietEnv (heap (demoState 0) 1))]) \<and>
   (\<not> Metadata SyncOptionsDefault) \<and>
   songMetadataFlush demoEnv 1 SyncOptionsDefault (demoState 0) = (None, (demoState 0)) \<and>
   (FileExists demoEnv (FilenameTemporary demoEnv (heap (demoState 0) 1)) (world (demoState 0))) \<and>
   songProcess demoEnv 1 (SyncOptionsFlush True) (demoState 0) = songStages demoEnv 1 (SyncOptionsFlush True) (demoState 0) \<and>
   (\<not> FileExists unstagedEnv (FilenameTemporary unstagedEnv (heap (demoState 0) 1)) (world (demoState 0)) \<and> call (FileCopyCall (Filename unstagedEnv (heap (demoState 0) 1)) (FilenameTemporary unstagedEnv (heap (demoState 0) 1))) (FileCopy unstagedEnv (Filename unstagedEnv (heap (demoState 0) 1)) (FilenameTemporary unstagedEnv (heap (demoState 0) 1))) (demoState 0) = (None, ((demoState 0)\<lparr>calls := [FileCopyCall (Filename unstagedEnv (heap (demoState 0) 1)) (FilenameTemporary unstagedEnv (heap (demoState 0) 1))]\<rparr>))) \<and>
   songProcess unstagedEnv 1 (SyncOptionsFlush True) (demoState 0) = songStages unstagedEnv 1 (SyncOptionsFlush True) ((demoState 0)\<lparr>calls := [FileCopyCall (Filename unstagedEnv (heap (demoState 0) 1)) (FilenameTemporary unstagedEnv (heap (demoState 0) 1))]\<rparr>) \<and>
   (fst (songNormalize detectFailsEnv 1 (SyncOptionsFlush True) (demoState 0)) = Some (External ''ffmpeg'')) \<and>
   Append (ErrorText (External ''ffmpeg'')) [ErrorAppend] \<in> set (ui (songStages detectFailsEnv 1 (SyncOptionsFlush True) (demoState 0))) \<and>
   (fst (songMetadataFlush flushFailsEnv 1 (SyncOptionsFlush True) (logError ErrorAppend (songNormalize flushFailsEnv 1 (SyncOptionsFlush True) (demoState 0)))) = Some (External ''tags'')) \<and>
   Append (ErrorText (External ''tags'')) [ErrorAppend] \<in> set (ui (songStages flushFailsEnv 1 (SyncOptionsFlush True) (demoState 0)))"
proof -
  have h_off: "\<not> Normalization SyncOptionsDefault"
    by (simp add: songNormalize_def songMetadataFlush_def logError_def call_def ui_Append_def SyncOptionsFlush_def SyncOptionsDefault_def demoEnv_def detectFailsEnv_def loudEnv_def quietEnv_def unstagedEnv_def flushFailsEnv_def demoState_def demoHeap_def demoTrack_def)
  from songNormalize_skip_transitions [where env = demoEnv and t = 1 and opts = SyncOptionsDefault and s = "demoState 0"] h_off
  have c_off: "songNormalize demoEnv 1 SyncOptionsDefault (demoState 0) = (None, (demoState 0))"
    by blast
  have h_failed: "Normalization (SyncOptionsFlush True) \<and> call (VolumeDetectCall (FilenameTemporary detectFailsEnv (heap (demoState 0) 1))) (VolumeDetect detectFailsEnv (FilenameTemporary detectFailsEnv (heap (demoState 0) 1))) (demoState 0) = (Inl (External ''ffmpeg''), ((demoState 0)\<lparr>calls := [VolumeDetectCall (FilenameTemporary detectFailsEnv (heap (demoState 0) 1))]\<rparr>))"
    by (simp add: songNormalize_def songMetadataFlush_def logError_def call_def ui_Append_def SyncOptionsFlush_def SyncOptionsDefault_def demoEnv_def detectFailsEnv_def loudEnv_def quietEnv_def unstagedEnv_def flushFailsEnv_def demoState_def demoHeap_def demoTrack_def)
  from songNormalize_skip_transitions [where env = detectFailsEnv and t = 1 and opts = "SyncOptionsFlush True" and s = "demoState 0" and err = "External ''ffmpeg''" and ?s1.0 = "(demoState 0)\<lparr>calls := [VolumeDetectCall (FilenameTemporary detectFailsEnv (heap (demoState 0) 1))]\<rparr>"] h_failed
  have c_failed: "songNormalize detectFailsEnv 1 (SyncOptionsFlush True) (demoState 0) = (Some (External ''ffmpeg''), ((demoState 0)\<lparr>calls := [VolumeDetectCall (FilenameTemporary detectFailsEnv (heap (demoState 0) 1))]\<rparr>))"
    by blast
  have h_loud: "(Normalization (SyncOptionsFlush True) \<and> call (VolumeDetectCall (FilenameTemporary loudEnv (heap (demoState 0) 1))) (VolumeDetect loudEnv (FilenameTemporary loudEnv (heap (demoState 0) 1))) (demoState 0) = (Inr 3, ((demoState 0)\<lparr>calls := [VolumeDetectCall (FilenameTemporary loudEnv (heap (demoState 0) 1))]\<rparr>))) \<and> (3::real) > 0"
    by (simp add: songNormalize_def songMetadataFlush_def logError_def call_def ui_Append_def SyncOptionsFlush_def SyncOptionsDefault_def demoEnv_def detectFailsEnv_def loudEnv_def quietEnv_def unstagedEnv_def flushFailsEnv_def demoState_def demoHeap_def demoTrack_def)
  from songNormalize_skip_transitions [where env = loudEnv and t = 1 and opts = "SyncOptionsFlush True" and s = "demoState 0" and volume = 3 and ?s1.0 = "(demoState 0)\<lparr>calls := [VolumeDetectCall (FilenameTemporary loudEnv (heap (demoState 0) 1))]\<rparr>"] h_loud
  have c_loud: "songNormalize loudEnv 1 (SyncOptionsFlush True) (demoState 0) = (None, ((demoState 0)\<lparr>calls := [VolumeDetectCall (FilenameTemporary loudEnv (heap (demoState 0) 1))]\<rparr>))"
    by blast
  have h_quiet: "(Normalization (SyncOptionsFlush True) \<and> call (VolumeDetectCall (FilenameTemporary quietEnv (heap (demoState 0) 1))) (VolumeDetect quietEnv (FilenameTemporary quietEnv (heap (demoState 0) 1))) (demoState 0) = (Inr (- 5), ((demoState 0)\<lparr>calls := [VolumeDetectCall (FilenameTemporary quietEnv (heap (demoState 0) 1))]\<rparr>))) \<and> (- 5::real) \<le> 0"
    by (simp add: songNormalize_def songMetadataFlush_def logError_def call_def ui_Append_def SyncOptionsFlush_def SyncOptionsDefault_def demoEnv_def detectFailsEnv_def loudEnv_def quietEnv_def unstagedEnv_def flushFailsEnv_def demoState_def demoHeap_def demoTrack_def)
  from songNormalize_skip_transitions [where env = quietEnv and t = 1 and opts = "SyncOptionsFlush True" and s = "demoState 0" and volume = "- 5" and ?s1.0 = "(demoState 0)\<lparr>calls := [VolumeDetectCall (FilenameTemporary quietEnv (heap (demoState 0) 1))]\<rparr>"] h_quiet
  have c_quiet: "calls (snd (songNormalize quietEnv 1 (SyncOptionsFlush True) (demoState 0))) = calls (demoState 0) @ (if (- 5::real) > 0 then [VolumeDetectCall (FilenameTemporary quietEnv (heap (demoState 0) 1))] else [VolumeDetectCall (FilenameTemporary quietEnv (heap (demoState 0) 1)), VolumeIncreaseCall \<bar>- 5\<bar> (FilenameTemporary quietEnv (heap (demoState 0) 1))])"
    by blast
  have h_flushoff: "\<not> Metadata SyncOptionsDefault"
    by (simp add: songNormalize_def songMetadataFlush_def logError_def call_def ui_Append_def SyncOptionsFlush_def SyncOptionsDefault_def demoEnv_def detectFailsEnv_def loudEnv_def quietEnv_def unstagedEnv_def flushFailsEnv_def demoState_def demoHeap_def demoTrack_def)
  from songNormalize_skip_transitions [where env = demoEnv and t = 1 and opts = SyncOptionsDefault and s = "demoState 0"] h_flushoff
  have c_flushoff: "songMetadataFlush demoEnv 1 SyncOptionsDefault (demoState 0) = (None, (demoState 0))"
    by blast
  have h_staged: "FileExists demoEnv (FilenameTemporary demoEnv (heap (demoState 0) 1)) (world (demoState 0))"
    by (simp add: songNormalize_def songMetadataFlush_def logError_def call_def ui_Append_def SyncOptionsFlush_def SyncOptionsDefault_def demoEnv_def detectFailsEnv_def loudEnv_def quietEnv_def unstagedEnv_def flushFailsEnv_def demoState_def demoHeap_def demoTrack_def)
  from songNormalize_skip_transitions [where env = demoEnv and t = 1 and opts = "SyncOptionsFlush True" and s = "demoState 0"] h_staged
  have c_staged: "songProcess demoEnv 1 (SyncOptionsFlush True) (demoState 0) = songStages demoEnv 1 (SyncOptionsFlush True) (demoState 0)"
    by blast
  have h_copied: "\<not> FileExists unstagedEnv (FilenameTemporary unstagedEnv (heap (demoState 0) 1)) (world (demoState 0)) \<and> call (FileCopyCall (Filename unstagedEnv (heap (demoState 0) 1)) (FilenameTemporary unstagedEnv (heap (demoState 0) 1))) (FileCopy unstagedEnv (Filename unstagedEnv (heap (demoState 0) 1)) (FilenameTemporary unstagedEnv (heap (demoState 0) 1))) (demoState 0) = (None, ((demoState 0)\<lparr>calls := [FileCopyCall (Filename unstagedEnv (heap (demoState 0) 1)) (FilenameTemporary unstagedEnv (heap (demoState 0) 1))]\<rparr>))"
    by (simp add: songNormalize_def songMetadataFlush_def logError_def call_def ui_Append_def SyncOptionsFlush_def SyncOptionsDefault_def demoEnv_def detectFailsEnv_def loudEnv_def quietEnv_def unstagedEnv_def flushFailsEnv_def demoState_def demoHeap_def demoTrack_def)
  from songNormalize_skip_transitions [where env = unstagedEnv and t = 1 and opts = "SyncOptionsFlush True" and s = "demoState 0" and ?s1.0 = "(demoState 0)\<lparr>calls := [FileCopyCall (Filename unstagedEnv (heap (demoState 0) 1)) (FilenameTemporary unstagedEnv (heap (demoState 0) 1))]\<rparr>"] h_copied
  have c_copied: "songProcess unstagedEnv 1 (SyncOptionsFlush True) (demoState 0) = songStages unstagedEnv 1 (SyncOptionsFlush True) ((demoState 0)\<lparr>calls := [FileCopyCall (Filename unstagedEnv (heap (demoState 0) 1)) (FilenameTemporary unstagedEnv (heap (demoState 0) 1))]\<rparr>)"
    by blast
  have h_logged1: "fst (songNormalize detectFailsEnv 1 (SyncOptionsFlush True) (demoState 0)) = Some (External ''ffmpeg'')"
    by (simp add: songNormalize_def songMetadataFlush_def logError_def call_def ui_Append_def SyncOptionsFlush_def SyncOptionsDefault_def demoEnv_def detectFailsEnv_def loudEnv_def quietEnv_def unstagedEnv_def flushFailsEnv_def demoState_def demoHeap_def demoTrack_def)
  from songNormalize_skip_transitions [where env = detectFailsEnv and t = 1 and opts = "SyncOptionsFlush True" and s = "demoState 0" and err = "External ''ffmpeg''"] h_logged1
  have c_logged1: "Append (ErrorText (External ''ffmpeg'')) [ErrorAppend] \<in> set (ui (songStages detectFailsEnv 1 (SyncOptionsFlush True) (demoState 0)))"
    by blast
  have h_logged2: "fst (songMetadataFlush flushFailsEnv 1 (SyncOptionsFlush True) (logError ErrorAppend (songNormalize flushFailsEnv 1 (SyncOptionsFlush True) (demoState 0)))) = Some (External ''tags'')"
    by (simp add: songNormalize_def songMetadataFlush_def logError_def call_def ui_Append_def SyncOptionsFlush_def SyncOptionsDefault_def demoEnv_def detectFailsEnv_def loudEnv_def quietEnv_def unstagedEnv_def flushFailsEnv_def demoState_def demoHeap_def demoTrack_def)
  from songNormalize_skip_transitions [where env = flushFailsEnv and t = 1 and opts = "SyncOptionsFlush True" and s = "demoState 0" and err = "External ''tags''"] h_logged2
  have c_logged2: "Append (ErrorText (External ''tags'')) [ErrorAppend] \<in> set (ui (songStages flushFailsEnv 1 (SyncOptionsFlush True) (demoState 0)))"
    by blast
  from h_off c_off h_failed c_failed h_loud c_loud h_quiet c_quiet h_flushoff c_flushoff h_staged c_staged h_copied c_copied h_logged1 c_logged1 h_logged2 c_logged2
  show ?thesis
    by blast
qed

section \<open>The search loop: properties\<close>

lemma tracks_call: "call ev f s = (r, s') \<Longrightarrow> tracks s' = tracks s"
  by (auto simp: call_def split: prod.splits)

lemma index_call: "call ev f s = (r, s') \<Longrightarrow> index s' = index s"
  by (auto simp: call_def split: prod.splits)

lemma heap_call_eq: "call ev f s = (r, s') \<Longrightarrow> heap s' = heap s"
  by (auto simp: call_def split: prod.splits)

lemma calls_call_eq: "call ev f s = (r, s') \<Longrightarrow> calls s' = calls s @ [ev]"
  by (auto simp: call_def split: prod.splits)

lemma tracksFailed_call: "call ev f s = (r, s') \<Longrightarrow> tracksFailed s' = tracksFailed s"
  by (auto simp: call_def split: prod.splits)

lemma exited_call: "call ev f s = (r, s') \<Longrightarrow> exited s' = exited s"
  by (auto simp: call_def split: prod.splits)

lemma sourceFlag_clearSource: "\<not> sourceFlag (clearSource t s) t"
  by (simp add: sourceFlag_def clearSource_def split: option.splits)

text \<open>Once the index records the expected filename, the repair does nothing.\<close>

lemma renameRepair_matching:
  "index_Match (index s) (SpotifyID (heap s t)) (Filename env (heap s t)) =
     Inr (Filename env (heap s t), True) \<Longrightarrow>
   renameRepair a env t s = s"
  by (simp add: renameRepair_def)

text \<open>
  C3, as stated, in a run with \<open>-flush-local\<close>: the index records \<open>old.mp3\<close> for the
  track, the expected filename is \<open>song.mp3\<close>, the rename on disk succeeds, and the
  \<open>Source\<close> flag of the track is still set afterwards.
\<close>

theorem renameRepair_flush_local_counterexample:
  "index_Match (index renamedState) (SpotifyID (heap renamedState 1))
     (Filename demoEnv (heap renamedState 1)) = Inr (''old.mp3'', False) \<and>
   fst (os_Rename demoEnv ''old.mp3'' (Filename demoEnv (heap renamedState 1)) (world renamedState)) =
     None \<and>
   sourceFlag (renameRepair (demoArgs\<lparr>argFlushLocal := True\<rparr>) demoEnv 1 renamedState) 1"
  by (simp add: renameRepair_def index_Match_def index_Rename_def call_def ui_Append_def
      sourceFlag_def SyncOptionsFlush_def renamedState_def demoState_def demoEnv_def demoHeap_def
      demoTrack_def)

text \<open>The outcomes of the repair, by the result \<open>r\<close> of the rename on disk.\<close>

lemma renameRepair_cases:
  "index_Match (index s) (SpotifyID (heap s t)) (Filename env (heap s t)) = Inr (p, False) \<and>
   tracks s t = Some trackOpts \<and>
   call (RenameCall p (Filename env (heap s t))) (os_Rename env p (Filename env (heap s t)))
     (ui_Append (TrackRenamed (Filename env (heap s t)) p) [] s) = (r, s1) \<longrightarrow>
     calls (renameRepair a env t s) = calls s @ [RenameCall p (Filename env (heap s t))] \<and>
     exited (renameRepair a env t s) = exited s \<and>
     tracksFailed (renameRepair a env t s) = tracksFailed s \<and>
     (r = None \<longrightarrow>
        index (renameRepair a env t s) =
          index_Rename (index s) (SpotifyID (heap s t)) (Filename env (heap s t)) \<and>
        index_Match (index (renameRepair a env t s)) (SpotifyID (heap s t)) (Filename env (heap s t)) =
          Inr (Filename env (heap s t), True) \<and>
        renameRepair a env t (renameRepair a env t s) = renameRepair a env t s \<and>
        (\<not> argFlushLocal a \<longrightarrow>
           tracks (renameRepair a env t s) = (tracks s)(t \<mapsto> trackOpts\<lparr>Source := False\<rparr>) \<and>
           \<not> sourceFlag (renameRepair a env t s) t) \<and>
        (argFlushLocal a \<longrightarrow> tracks (renameRepair a env t s) = tracks s)) \<and>
     (\<forall>err. r = Some err \<longrightarrow>
        renameRepair a env t s = ui_Append (UnableToRename err) [ErrorAppend] s1 \<and>
        tracks (renameRepair a env t s) = tracks s \<and>
        sourceFlag (renameRepair a env t s) t = Source trackOpts \<and>
        index (renameRepair a env t s) = index s)"
proof (rule impI)
  let ?f = "Filename env (heap s t)"
  let ?id = "SpotifyID (heap s t)"
  let ?s0 = "ui_Append (TrackRenamed ?f p) [] s"
  let ?R = "renameRepair a env t s"
  assume a: "index_Match (index s) ?id ?f = Inr (p, False) \<and> tracks s t = Some trackOpts \<and>
      call (RenameCall p ?f) (os_Rename env p ?f) ?s0 = (r, s1)"
  then have m: "index_Match (index s) ?id ?f = Inr (p, False)"
    and o: "tracks s t = Some trackOpts"
    and c: "call (RenameCall p ?f) (os_Rename env p ?f) ?s0 = (r, s1)"
    by simp_all
  have frame: "tracks s1 = tracks s" "index s1 = index s" "heap s1 = heap s"
    "calls s1 = calls s @ [RenameCall p ?f]" "tracksFailed s1 = tracksFailed s"
    "exited s1 = exited s"
    using tracks_call [OF c] index_call [OF c] heap_call_eq [OF c] calls_call_eq [OF c]
      tracksFailed_call [OF c] exited_call [OF c]
    by (simp_all add: ui_Append_def)
  show "calls ?R = calls s @ [RenameCall p ?f] \<and>
     exited ?R = exited s \<and>
     tracksFailed ?R = tracksFailed s \<and>
     (r = None \<longrightarrow>
        index ?R = index_Rename (index s) ?id ?f \<and>
        index_Match (index ?R) ?id ?f = Inr (?f, True) \<and>
        renameRepair a env t ?R = ?R \<and>
        (\<not> argFlushLocal a \<longrightarrow>
           tracks ?R = (tracks s)(t \<mapsto> trackOpts\<lparr>Source := False\<rparr>) \<and> \<not> sourceFlag ?R t) \<and>
        (argFlushLocal a \<longrightarrow> tracks ?R = tracks s)) \<and>
     (\<forall>err. r = Some err \<longrightarrow>
        ?R = ui_Append (UnableToRename err) [ErrorAppend] s1 \<and>
        tracks ?R = tracks s \<and>
        sourceFlag ?R t = Source trackOpts \<and>
        index ?R = index s)"
  proof (cases r)
    case None
    let ?s2 = "s1\<lparr>index := index_Rename (index s1) (SpotifyID (heap s1 t)) (Filename env (heap s1 t))\<rparr>"
    from m c None have R: "?R = (if \<not> argFlushLocal a then clearSource t ?s2 else ?s2)"
      by (simp add: renameRepair_def Let_def)
    have idx: "index ?R = index_Rename (index s) ?id ?f"
      using R frame by (simp add: clearSource_def split: option.splits)
    have hp: "heap ?R = heap s"
      using R frame by (simp add: clearSource_def split: option.splits)
    have mt: "index_Match (index ?R) ?id ?f = Inr (?f, True)"
      by (simp add: idx index_Match_def index_Rename_def)
    have again: "renameRepair a env t ?R = ?R"
      using mt hp by (intro renameRepair_matching) simp
    have cl: "calls ?R = calls s @ [RenameCall p ?f]" "exited ?R = exited s"
      "tracksFailed ?R = tracksFailed s"
      using R frame by (simp_all add: clearSource_def split: option.splits)
    have tr1: "\<not> argFlushLocal a \<longrightarrow>
        tracks ?R = (tracks s)(t \<mapsto> trackOpts\<lparr>Source := False\<rparr>) \<and> \<not> sourceFlag ?R t"
      using R frame o by (simp add: clearSource_def sourceFlag_def)
    have tr2: "argFlushLocal a \<longrightarrow> tracks ?R = tracks s"
      using R frame by simp
    from None idx mt again cl tr1 tr2 show ?thesis
      by simp
  next
    case (Some err)
    from m c Some have R: "?R = ui_Append (UnableToRename err) [ErrorAppend] s1"
      by (simp add: renameRepair_def)
    with frame o Some show ?thesis
      by (simp add: ui_Append_def sourceFlag_def)
  qed
qed

text \<open>
  C3, amended. For a track of the working set for which \<open>index.Match(id,
  expectedFilename)\<close> returns no error, \<open>matches = false\<close> and the recorded path \<open>p\<close>, the
  engine renames \<open>p\<close> on disk to the expected filename, and that is its only effect on the
  world. If the rename succeeds, the index is updated by \<open>index.Rename\<close>, so that a
  subsequent \<open>Match\<close> of the same pair returns \<open>matches = true\<close> and a second pass of the
  repair does nothing; the \<open>Source\<close> flag of the track is cleared unless the run has
  \<open>-flush-local\<close> (\<open>argFlushLocal\<close>), in which case the options stay as they are. If the
  rename fails, the failure is appended to the interface log (in the style
  \<open>cui.ErrorAppend\<close>), the run goes on, and the options, the index and the failure list
  are left as they were.
\<close>

theorem renameRepair_outcomes:
  "(index_Match (index s) (SpotifyID (heap s t)) (Filename env (heap s t)) = Inr (p, False) \<and>
    tracks s t = Some trackOpts \<and>
    call (RenameCall p (Filename env (heap s t))) (os_Rename env p (Filename env (heap s t)))
      (ui_Append (TrackRenamed (Filename env (heap s t)) p) [] s) = (r, s1) \<longrightarrow>
      calls (renameRepair a env t s) = calls s @ [RenameCall p (Filename env (heap s t))] \<and>
      exited (renameRepair a env t s) = exited s \<and>
      tracksFailed (renameRepair a env t s) = tracksFailed s) \<and>
   (index_Match (index s) (SpotifyID (heap s t)) (Filename env (heap s t)) = Inr (p, False) \<and>
    tracks s t = Some trackOpts \<and>
    call (RenameCall p (Filename env (heap s t))) (os_Rename env p (Filename env (heap s t)))
      (ui_Append (TrackRenamed (Filename env (heap s t)) p) [] s) = (None, s1) \<longrightarrow>
      index (renameRepair a env t s) =
        index_Rename (index s) (SpotifyID (heap s t)) (Filename env (heap s t)) \<and>
      index_Match (index (renameRepair a env t s)) (SpotifyID (heap s t)) (Filename env (heap s t)) =
        Inr (Filename env (heap s t), True) \<and>
      renameRepair a env t (renameRepair a env t s) = renameRepair a env t s) \<and>
   (index_Match (index s) (SpotifyID (heap s t)) (Filename env (heap s t)) = Inr (p, False) \<and>
    tracks s t = Some trackOpts \<and>
    call (RenameCall p (Filename env (heap s t))) (os_Rename env p (Filename env (heap s t)))
      (ui_Append (TrackRenamed (Filename env (heap s t)) p) [] s) = (None, s1) \<and>
    \<not> argFlushLocal a \<longrightarrow>
      tracks (renameRepair a env t s) = (tracks s)(t \<mapsto> trackOpts\<lparr>Source := False\<rparr>) \<and>
      \<not> sourceFlag (renameRepair a env t s) t) \<and>
   (index_Match (index s) (SpotifyID (heap s t)) (Filename env (heap s t)) = Inr (p, False) \<and>
    tracks s t = Some trackOpts \<and>
    call (RenameCall p (Filename env (heap s t))) (os_Rename env p (Filename env (heap s t)))
      (ui_Append (TrackRenamed (Filename env (heap s t)) p) [] s) = (None, s1) \<and>
    argFlushLocal a \<longrightarrow>
      tracks (renameRepair a env t s) = tracks s) \<and>
   (index_Match (index s) (SpotifyID (heap s t)) (Filename env (heap s t)) = Inr (p, False) \<and>
    tracks s t = Some trackOpts \<and>
    call (RenameCall p (Filename env (heap s t))) (os_Rename env p (Filename env (heap s t)))
      (ui_Append (TrackRenamed (Filename env (heap s t)) p) [] s) = (Some err, s1) \<longrightarrow>
      renameRepair a env t s = ui_Append (UnableToRename err) [ErrorAppend] s1 \<and>
      tracks (renameRepair a env t s) = tracks s \<and>
      sourceFlag (renameRepair a env t s) t = Source trackOpts \<and>
      index (renameRepair a env t s) = index s)"
proof (intro conjI impI)
  assume "index_Match (index s) (SpotifyID (heap s t)) (Filename env (heap s t)) = Inr (p, False) \<and>
    tracks s t = Some trackOpts \<and>
    call (RenameCall p (Filename env (heap s t))) (os_Rename env p (Filename env (heap s t)))
      (ui_Append (TrackRenamed (Filename env (heap s t)) p) [] s) = (r, s1)"
  from renameRepair_cases [THEN mp, OF this, of a]
  show "calls (renameRepair a env t s) = calls s @ [RenameCall p (Filename env (heap s t))]"
    and "exited (renameRepair a env t s) = exited s"
    and "tracksFailed (renameRepair a env t s) = tracksFailed s"
    by blast+
next
  assume "index_Match (index s) (SpotifyID (heap s t)) (Filename env (heap s t)) = Inr (p, False) \<and>
    tracks s t = Some trackOpts \<and>
    call (RenameCall p (Filename env (heap s t))) (os_Rename env p (Filename env (heap s t)))
      (ui_Append (TrackRenamed (Filename env (heap s t)) p) [] s) = (None, s1)"
  from renameRepair_cases [THEN mp, OF this, of a]
  show "index (renameRepair a env t s) =
      index_Rename (index s) (SpotifyID (heap s t)) (Filename env (heap s t))"
    and "index_Match (index (renameRepair a env t s)) (SpotifyID (heap s t)) (Filename env (heap s t)) =
      Inr (Filename env (heap s t), True)"
    and "renameRepair a env t (renameRepair a env t s) = renameRepair a env t s"
    by blast+
next
  assume "index_Match (index s) (SpotifyID (heap s t)) (Filename env (heap s t)) = Inr (p, False) \<and>
    tracks s t = Some trackOpts \<and>
    call (RenameCall p (Filename env (heap s t))) (os_Rename env p (Filename env (heap s t)))
      (ui_Append (TrackRenamed (Filename env (heap s t)) p) [] s) = (None, s1) \<and>
    \<not> argFlushLocal a"
  then have h: "index_Match (index s) (SpotifyID (heap s t)) (Filename env (heap s t)) = Inr (p, False) \<and>
    tracks s t = Some trackOpts \<and>
    call (RenameCall p (Filename env (heap s t))) (os_Rename env p (Filename env (heap s t)))
      (ui_Append (TrackRenamed (Filename env (heap s t)) p) [] s) = (None, s1)"
    and n: "\<not> argFlushLocal a"
    by simp_all
  from renameRepair_cases [THEN mp, OF h, of a] n
  show "tracks (renameRepair a env t s) = (tracks s)(t \<mapsto> trackOpts\<lparr>Source := False\<rparr>)"
    and "\<not> sourceFlag (renameRepair a env t s) t"
    by blast+
next
  assume "index_Match (index s) (SpotifyID (heap s t)) (Filename env (heap s t)) = Inr (p, False) \<and>
    tracks s t = Some trackOpts \<and>
    call (RenameCall p (Filename env (heap s t))) (os_Rename env p (Filename env (heap s t)))
      (ui_Append (TrackRenamed (Filename env (heap s t)) p) [] s) = (None, s1) \<and>
    argFlushLocal a"
  then have h: "index_Match (index s) (SpotifyID (heap s t)) (Filename env (heap s t)) = Inr (p, False) \<and>
    tracks s t = Some trackOpts \<and>
    call (RenameCall p (Filename env (heap s t))) (os_Rename env p (Filename env (heap s t)))
      (ui_Append (TrackRenamed (Filename env (heap s t)) p) [] s) = (None, s1)"
    and n: "argFlushLocal a"
    by simp_all
  from renameRepair_cases [THEN mp, OF h, of a] n
  show "tracks (renameRepair a env t s) = tracks s"
    by blast
next
  assume "index_Match (index s) (SpotifyID (heap s t)) (Filename env (heap s t)) = Inr (p, False) \<and>
    tracks s t = Some trackOpts \<and>
    call (RenameCall p (Filename env (heap s t))) (os_Rename env p (Filename env (heap s t)))
      (ui_Append (TrackRenamed (Filename env (heap s t)) p) [] s) = (Some err, s1)"
  from renameRepair_cases [THEN mp, OF this, of a]
  show "renameRepair a env t s = ui_Append (UnableToRename err) [ErrorAppend] s1"
    and "tracks (renameRepair a env t s) = tracks s"
    and "sourceFlag (renameRepair a env t s) t = Source trackOpts"
    and "index (renameRepair a env t s) = index s"
    by blast+
qed

text \<open>
  The renamed track of \<open>renamedState\<close>: the rename succeeds in a plain run and in a run with
  \<open>-flush-local\<close>, and fails in a third run.
\<close>

theorem renameRepair_outcomes_witness:
  "(index_Match (index renamedState) (SpotifyID (heap renamedState 1)) (Filename demoEnv (heap renamedState 1)) = Inr (''old.mp3'', False) \<and> tracks renamedState 1 = Some (SyncOptionsFlush True) \<and> (call (RenameCall ''old.mp3'' (Filename demoEnv (heap renamedState 1))) (os_Rename demoEnv ''old.mp3'' (Filename demoEnv (heap renamedState 1))) (ui_Append (TrackRenamed (Filename demoEnv (heap renamedState 1)) ''old.mp3'') [] renamedState)) = (None, snd (call (RenameCall ''old.mp3'' (Filename demoEnv (heap renamedState 1))) (os_Rename demoEnv ''old.mp3'' (Filename demoEnv (heap renamedState 1))) (ui_Append (TrackRenamed (Filename demoEnv (heap renamedState 1)) ''old.mp3'') [] renamedState)))) \<and>
   calls (renameRepair (demoArgs) demoEnv 1 renamedState) = calls renamedState @ [RenameCall ''old.mp3'' (Filename demoEnv (heap renamedState 1))] \<and> exited (renameRepair (demoArgs) demoEnv 1 renamedState) = exited renamedState \<and> tracksFailed (renameRepair (demoArgs) demoEnv 1 renamedState) = tracksFailed renamedState \<and>
   (index_Match (index renamedState) (SpotifyID (heap renamedState 1)) (Filename demoEnv (heap renamedState 1)) = Inr (''old.mp3'', False) \<and> tracks renamedState 1 = Some (SyncOptionsFlush True) \<and> (call (RenameCall ''old.mp3'' (Filename demoEnv (heap renamedState 1))) (os_Rename demoEnv ''old.mp3'' (Filename demoEnv (heap renamedState 1))) (ui_Append (TrackRenamed (Filename demoEnv (heap renamedState 1)) ''old.mp3'') [] renamedState)) = (None, snd (call (RenameCall ''old.mp3'' (Filename demoEnv (heap renamedState 1))) (os_Rename demoEnv ''old.mp3'' (Filename demoEnv (heap renamedState 1))) (ui_Append (TrackRenamed (Filename demoEnv (heap renamedState 1)) ''old.mp3'') [] renamedState)))) \<and>
   index (renameRepair (demoArgs) demoEnv 1 renamedState) = index_Rename (index renamedState) (SpotifyID (heap renamedState 1)) (Filename demoEnv (heap renamedState 1)) \<and> index_Match (index (renameRepair (demoArgs) demoEnv 1 renamedState)) (SpotifyID (heap renamedState 1)) (Filename demoEnv (heap renamedState 1)) = Inr ((Filename demoEnv (heap renamedState 1)), True) \<and> renameRepair (demoArgs) demoEnv 1 (renameRepair (demoArgs) demoEnv 1 renamedState) = (renameRepair (demoArgs) demoEnv 1 renamedState) \<and>
   (index_Match (index renamedState) (SpotifyID (heap renamedState 1)) (Filename demoEnv (heap renamedState 1)) = Inr (''old.mp3'', False) \<and> tracks renamedState 1 = Some (SyncOptionsFlush True) \<and> (call (RenameCall ''old.mp3'' (Filename demoEnv (heap renamedState 1))) (os_Rename demoEnv ''old.mp3'' (Filename demoEnv (heap renamedState 1))) (ui_Append (TrackRenamed (Filename demoEnv (heap renamedState 1)) ''old.mp3'') [] renamedState)) = (None, snd (call (RenameCall ''old.mp3'' (Filename demoEnv (heap renamedState 1))) (os_Rename demoEnv ''old.mp3'' (Filename demoEnv (heap renamedState 1))) (ui_Append (TrackRenamed (Filename demoEnv (heap renamedState 1)) ''old.mp3'') [] renamedState))) \<and> \<not> argFlushLocal (demoArgs)) \<and>
   tracks (renameRepair (demoArgs) demoEnv 1 renamedState) = (tracks renamedState)(1 \<mapsto> (SyncOptionsFlush True)\<lparr>Source := False\<rparr>) \<and> \<not> sourceFlag (renameRepair (demoArgs) demoEnv 1 renamedState) 1 \<and>
   (index_Match (index renamedState) (SpotifyID (heap renamedState 1)) (Filename demoEnv (heap renamedState 1)) = Inr (''old.mp3'', False) \<and> tracks renamedState 1 = Some (SyncOptionsFlush True) \<and> (call (RenameCall ''old.mp3'' (Filename demoEnv (heap renamedState 1))) (os_Rename demoEnv ''old.mp3'' (Filename demoEnv (heap renamedState 1))) (ui_Append (TrackRenamed (Filename demoEnv (heap renamedState 1)) ''old.mp3'') [] renamedState)) = (None, snd (call (RenameCall ''old.mp3'' (Filename demoEnv (heap renamedState 1))) (os_Rename demoEnv ''old.mp3'' (Filename demoEnv (heap renamedState 1))) (ui_Append (TrackRenamed (Filename demoEnv (heap renamedState 1)) ''old.mp3'') [] renamedState))) \<and> argFlushLocal (demoArgs\<lparr>argFlushLocal := True\<rparr>)) \<and>
   tracks (renameRepair (demoArgs\<lparr>argFlushLocal := True\<rparr>) demoEnv 1 renamedState) = tracks renamedState \<and>
   (index_Match (index renamedState) (SpotifyID (heap renamedState 1)) (Filename renameFailsEnv (heap renamedState 1)) = Inr (''old.mp3'', False) \<and> tracks renamedState 1 = Some (SyncOptionsFlush True) \<and> (call (RenameCall ''old.mp3'' (Filename renameFailsEnv (heap renamedState 1))) (os_Rename renameFailsEnv ''old.mp3'' (Filename renameFailsEnv (heap renamedState 1))) (ui_Append (TrackRenamed (Filename renameFailsEnv (heap renamedState 1)) ''old.mp3'') [] renamedState)) = (Some (External ''rename''), snd (call (RenameCall ''old.mp3'' (Filename renameFailsEnv (heap renamedState 1))) (os_Rename renameFailsEnv ''old.mp3'' (Filename renameFailsEnv (heap renamedState 1))) (ui_Append (TrackRenamed (Filename renameFailsEnv (heap renamedState 1)) ''old.mp3'') [] renamedState)))) \<and>
   (renameRepair (demoArgs) renameFailsEnv 1 renamedState) = ui_Append (UnableToRename (External ''rename'')) [ErrorAppend] (snd (call (RenameCall ''old.mp3'' (Filename renameFailsEnv (heap renamedState 1))) (os_Rename renameFailsEnv ''old.mp3'' (Filename renameFailsEnv (heap renamedState 1))) (ui_Append (TrackRenamed (Filename renameFailsEnv (heap renamedState 1)) ''old.mp3'') [] renamedState))) \<and> tracks (renameRepair (demoArgs) renameFailsEnv 1 renamedState) = tracks renamedState \<and> sourceFlag (renameRepair (demoArgs) renameFailsEnv 1 renamedState) 1 = Source (SyncOptionsFlush True) \<and> index (renameRepair (demoArgs) renameFailsEnv 1 renamedState) = index renamedState"
proof -
  have h_renamed: "index_Match (index renamedState) (SpotifyID (heap renamedState 1)) (Filename demoEnv (heap renamedState 1)) = Inr (''old.mp3'', False) \<and> tracks renamedState 1 = Some (SyncOptionsFlush True) \<and> (call (RenameCall ''old.mp3'' (Filename demoEnv (heap renamedState 1))) (os_Rename demoEnv ''old.mp3'' (Filename demoEnv (heap renamedState 1))) (ui_Append (TrackRenamed (Filename demoEnv (heap renamedState 1)) ''old.mp3'') [] renamedState)) = (None, snd (call (RenameCall ''old.mp3'' (Filename demoEnv (heap renamedState 1))) (os_Rename demoEnv ''old.mp3'' (Filename demoEnv (heap renamedState 1))) (ui_Append (TrackRenamed (Filename demoEnv (heap renamedState 1)) ''old.mp3'') [] renamedState)))"
    by (simp add: index_Match_def call_def ui_Append_def SyncOptionsFlush_def renamedState_def demoState_def demoArgs_def demoEnv_def renameFailsEnv_def demoHeap_def demoTrack_def)
  have c_renamed: "calls (renameRepair (demoArgs) demoEnv 1 renamedState) = calls renamedState @ [RenameCall ''old.mp3'' (Filename demoEnv (heap renamedState 1))] \<and> exited (renameRepair (demoArgs) demoEnv 1 renamedState) = exited renamedState \<and> tracksFailed (renameRepair (demoArgs) demoEnv 1 renamedState) = tracksFailed renamedState"
    by (rule renameRepair_outcomes [where env = demoEnv and s = renamedState and t = 1 and p = "''old.mp3''" and trackOpts = "SyncOptionsFlush True" and ?s1.0 = "snd (call (RenameCall ''old.mp3'' (Filename demoEnv (heap renamedState 1))) (os_Rename demoEnv ''old.mp3'' (Filename demoEnv (heap renamedState 1))) (ui_Append (TrackRenamed (Filename demoEnv (heap renamedState 1)) ''old.mp3'') [] renamedState))" and a = "demoArgs" and r = "None", THEN conjunct1, THEN mp, OF h_renamed])
  have h_indexed: "index_Match (index renamedState) (SpotifyID (heap renamedState 1)) (Filename demoEnv (heap renamedState 1)) = Inr (''old.mp3'', False) \<and> tracks renamedState 1 = Some (SyncOptionsFlush True) \<and> (call (RenameCall ''old.mp3'' (Filename demoEnv (heap renamedState 1))) (os_Rename demoEnv ''old.mp3'' (Filename demoEnv (heap renamedState 1))) (ui_Append (TrackRenamed (Filename demoEnv (heap renamedState 1)) ''old.mp3'') [] renamedState)) = (None, snd (call (RenameCall ''old.mp3'' (Filename demoEnv (heap renamedState 1))) (os_Rename demoEnv ''old.mp3'' (Filename demoEnv (heap renamedState 1))) (ui_Append (TrackRenamed (Filename demoEnv (heap renamedState 1)) ''old.mp3'') [] renamedState)))"
    by (simp add: index_Match_def call_def ui_Append_def SyncOptionsFlush_def renamedState_def demoState_def demoArgs_def demoEnv_def renameFailsEnv_def demoHeap_def demoTrack_def)
  have c_indexed: "index (renameRepair (demoArgs) demoEnv 1 renamedState) = index_Rename (index renamedState) (SpotifyID (heap renamedState 1)) (Filename demoEnv (heap renamedState 1)) \<and> index_Match (index (renameRepair (demoArgs) demoEnv 1 renamedState)) (SpotifyID (heap renamedState 1)) (Filename demoEnv (heap renamedState 1)) = Inr ((Filename demoEnv (heap renamedState 1)), True) \<and> renameRepair (demoArgs) demoEnv 1 (renameRepair (demoArgs) demoEnv 1 renamedState) = (renameRepair (demoArgs) demoEnv 1 renamedState)"
    by (rule renameRepair_outcomes [where env = demoEnv and s = renamedState and t = 1 and p = "''old.mp3''" and trackOpts = "SyncOptionsFlush True" and ?s1.0 = "snd (call (RenameCall ''old.mp3'' (Filename demoEnv (heap renamedState 1))) (os_Rename demoEnv ''old.mp3'' (Filename demoEnv (heap renamedState 1))) (ui_Append (TrackRenamed (Filename demoEnv (heap renamedState 1)) ''old.mp3'') [] renamedState))" and a = "demoArgs", THEN conjunct2, THEN conjunct1, THEN mp, OF h_indexed])
  have h_cleared: "index_Match (index renamedState) (SpotifyID (heap renamedState 1)) (Filename demoEnv (heap renamedState 1)) = Inr (''old.mp3'', False) \<and> tracks renamedState 1 = Some (SyncOptionsFlush True) \<and> (call (RenameCall ''old.mp3'' (Filename demoEnv (heap renamedState 1))) (os_Rename demoEnv ''old.mp3'' (Filename demoEnv (heap renamedState 1))) (ui_Append (TrackRenamed (Filename demoEnv (heap renamedState 1)) ''old.mp3'') [] renamedState)) = (None, snd (call (RenameCall ''old.mp3'' (Filename demoEnv (heap renamedState 1))) (os_Rename demoEnv ''old.mp3'' (Filename demoEnv (heap renamedState 1))) (ui_Append (TrackRenamed (Filename demoEnv (heap renamedState 1)) ''old.mp3'') [] renamedState))) \<and> \<not> argFlushLocal (demoArgs)"
    by (simp add: index_Match_def call_def ui_Append_def SyncOptionsFlush_def renamedState_def demoState_def demoArgs_def demoEnv_def renameFailsEnv_def demoHeap_def demoTrack_def)
  have c_cleared: "tracks (renameRepair (demoArgs) demoEnv 1 renamedState) = (tracks renamedState)(1 \<mapsto> (SyncOptionsFlush True)\<lparr>Source := False\<rparr>) \<and> \<not> sourceFlag (renameRepair (demoArgs) demoEnv 1 renamedState) 1"
    by (rule renameRepair_outcomes [where env = demoEnv and s = renamedState and t = 1 and p = "''old.mp3''" and trackOpts = "SyncOptionsFlush True" and ?s1.0 = "snd (call (RenameCall ''old.mp3'' (Filename demoEnv (heap renamedState 1))) (os_Rename demoEnv ''old.mp3'' (Filename demoEnv (heap renamedState 1))) (ui_Append (TrackRenamed (Filename demoEnv (heap renamedState 1)) ''old.mp3'') [] renamedState))" and a = "demoArgs", THEN conjunct2, THEN conjunct2, THEN conjunct1, THEN mp, OF h_cleared])
  have h_forced: "index_Match (index renamedState) (SpotifyID (heap renamedState 1)) (Filename demoEnv (heap renamedState 1)) = Inr (''old.mp3'', False) \<and> tracks renamedState 1 = Some (SyncOptionsFlush True) \<and> (call (RenameCall ''old.mp3'' (Filename demoEnv (heap renamedState 1))) (os_Rename demoEnv ''old.mp3'' (Filename demoEnv (heap renamedState 1))) (ui_Append (TrackRenamed (Filename demoEnv (heap renamedState 1)) ''old.mp3'') [] renamedState)) = (None, snd (call (RenameCall ''old.mp3'' (Filename demoEnv (heap renamedState 1))) (os_Rename demoEnv ''old.mp3'' (Filename demoEnv (heap renamedState 1))) (ui_Append (TrackRenamed (Filename demoEnv (heap renamedState 1)) ''old.mp3'') [] renamedState))) \<and> argFlushLocal (demoArgs\<lparr>argFlushLocal := True\<rparr>)"
    by (simp add: index_Match_def call_def ui_Append_def SyncOptionsFlush_def renamedState_def demoState_def demoArgs_def demoEnv_def renameFailsEnv_def demoHeap_def demoTrack_def)
  have c_forced: "tracks (renameRepair (demoArgs\<lparr>argFlushLocal := True\<rparr>) demoEnv 1 renamedState) = tracks renamedState"
    by (rule renameRepair_outcomes [where env = demoEnv and s = renamedState and t = 1 and p = "''old.mp3''" and trackOpts = "SyncOptionsFlush True" and ?s1.0 = "snd (call (RenameCall ''old.mp3'' (Filename demoEnv (heap renamedState 1))) (os_Rename demoEnv ''old.mp3'' (Filename demoEnv (heap renamedState 1))) (ui_Append (TrackRenamed (Filename demoEnv (heap renamedState 1)) ''old.mp3'') [] renamedState))" and a = "demoArgs\<lparr>argFlushLocal := True\<rparr>", THEN conjunct2, THEN conjunct2, THEN conjunct2, THEN conjunct1, THEN mp, OF h_forced])
  have h_failed: "index_Match (index renamedState) (SpotifyID (heap renamedState 1)) (Filename renameFailsEnv (heap renamedState 1)) = Inr (''old.mp3'', False) \<and> tracks renamedState 1 = Some (SyncOptionsFlush True) \<and> (call (RenameCall ''old.mp3'' (Filename renameFailsEnv (heap renamedState 1))) (os_Rename renameFailsEnv ''old.mp3'' (Filename renameFailsEnv (heap renamedState 1))) (ui_Append (TrackRenamed (Filename renameFailsEnv (heap renamedState 1)) ''old.mp3'') [] renamedState)) = (Some (External ''rename''), snd (call (RenameCall ''old.mp3'' (Filename renameFailsEnv (heap renamedState 1))) (os_Rename renameFailsEnv ''old.mp3'' (Filename renameFailsEnv (heap renamedState 1))) (ui_Append (TrackRenamed (Filename renameFailsEnv (heap renamedState 1)) ''old.mp3'') [] renamedState)))"
    by (simp add: index_Match_def call_def ui_Append_def SyncOptionsFlush_def renamedState_def demoState_def demoArgs_def demoEnv_def renameFailsEnv_def demoHeap_def demoTrack_def)
  have c_failed: "(renameRepair (demoArgs) renameFailsEnv 1 renamedState) = ui_Append (UnableToRename (External ''rename'')) [ErrorAppend] (snd (call (RenameCall ''old.mp3'' (Filename renameFailsEnv (heap renamedState 1))) (os_Rename renameFailsEnv ''old.mp3'' (Filename renameFailsEnv (heap renamedState 1))) (ui_Append (TrackRenamed (Filename renameFailsEnv (heap renamedState 1)) ''old.mp3'') [] renamedState))) \<and> tracks (renameRepair (demoArgs) renameFailsEnv 1 renamedState) = tracks renamedState \<and> sourceFlag (renameRepair (demoArgs) renameFailsEnv 1 renamedState) 1 = Source (SyncOptionsFlush True) \<and> index (renameRepair (demoArgs) renameFailsEnv 1 renamedState) = index renamedState"
    by (rule renameRepair_outcomes [where env = renameFailsEnv and s = renamedState and t = 1 and p = "''old.mp3''" and trackOpts = "SyncOptionsFlush True" and ?s1.0 = "snd (call (RenameCall ''old.mp3'' (Filename renameFailsEnv (heap renamedState 1))) (os_Rename renameFailsEnv ''old.mp3'' (Filename renameFailsEnv (heap renamedState 1))) (ui_Append (TrackRenamed (Filename renameFailsEnv (heap renamedState 1)) ''old.mp3'') [] renamedState))" and a = "demoArgs" and err = "External ''rename''", THEN conjunct2, THEN conjunct2, THEN conjunct2, THEN conjunct2, THEN mp, OF h_failed])
  show ?thesis
    by (intro conjI) (use h_renamed c_renamed h_indexed c_indexed h_cleared c_cleared h_forced c_forced h_failed c_failed in blast)+
qed

text \<open>
  C4 on three runs over a working set of one track that needs acquisition. With one
  provider that finds nothing the track is recorded as failed once. With one provider
  whose search returns an error, every provider is exhausted without an accepted
  candidate and the track is not recorded at all: the run reports 1 track synced. With
  two providers that both find nothing, the track is recorded twice, and the run reports
  -1 tracks synced and 2 failed. The record is made inside the loop over the providers,
  once per provider that leaves \<open>entry\<close> empty, not once per track after the loop.
\<close>

theorem mainSearch_failure_list:
  "tracksFailed (mainSearch demoArgs oneProviderEnv [1] searchState) = [1] \<and>
   Notify (SyncedAndFailed 0 1) \<in> set (ui (mainSearch demoArgs oneProviderEnv [1] searchState)) \<and>
   tracksFailed (mainSearch demoArgs offlineProviderEnv [1] searchState) = [] \<and>
   Notify (Synced 1) \<in> set (ui (mainSearch demoArgs offlineProviderEnv [1] searchState)) \<and>
   tracksFailed (mainSearch demoArgs twoProvidersEnv [1] searchState) = [1, 1] \<and>
   Notify (SyncedAndFailed (- 1) 2) \<in> set (ui (mainSearch demoArgs twoProvidersEnv [1] searchState))"
  by (simp add: mainSearch_def countSongs_def finishSearch_def searchTrack_def renameRepair_def
      index_Match_def acquireTrack_def searchProvider_def providerManual_def providerVerdict_def
      reportSearch_def flushPlaylists_def launch_def perform_def call_def ui_Append_def
      ui_Prompt_def mainExit_def sourceFlag_def metadataFlag_def newEntry_def Let_def
      searchState_def demoState_def demoArgs_def demoEnv_def oneProviderEnv_def
      offlineProviderEnv_def twoProvidersEnv_def demoProvider_def demoHeap_def demoTrack_def
      SyncOptionsFlush_def)

section \<open>The effects of the main goroutine\<close>

lemma emits_refl [emits_intros]: "emits P s s"
  by (simp add: emits_def)

lemma emits_trans: "emits P s0 s1 \<Longrightarrow> emits P s1 s2 \<Longrightarrow> emits P s0 s2"
  by (auto simp: emits_def)

lemma emits_same: "calls s' = calls s \<Longrightarrow> emits P s0 s' = emits P s0 s"
  by (simp add: emits_def)

lemma emits_more: "calls s' = calls s @ [ev] \<Longrightarrow> P ev \<Longrightarrow> emits P s0 s \<Longrightarrow> emits P s0 s'"
  by (auto simp: emits_def)

lemma emits_mono: "(\<And>e. P e \<Longrightarrow> Q e) \<Longrightarrow> emits P s0 s \<Longrightarrow> emits Q s0 s"
  by (auto simp: emits_def list_all_iff)

lemma quiet_fetching: "quiet e \<Longrightarrow> fetching e"
  by (cases e) simp_all

lemma quiet_launching: "quiet e \<Longrightarrow> launching e"
  by (cases e) simp_all

lemma emits_ui_Append [emits_intros]: "emits P s0 s \<Longrightarrow> emits P s0 (ui_Append m opts s)"
  by (simp add: emits_same [of "ui_Append m opts s" s])

lemma emits_call [emits_intros]: "P ev \<Longrightarrow> emits P s0 s \<Longrightarrow> emits P s0 (snd (call ev f s))"
  by (rule emits_more [of _ s ev]) (simp_all add: calls_call)

lemma emits_perform [emits_intros]: "P ev \<Longrightarrow> emits P s0 s \<Longrightarrow> emits P s0 (perform ev f s)"
  by (rule emits_more [of _ s ev]) simp_all

lemma emits_mainExit [emits_intros]: "P OsExit \<Longrightarrow> emits P s0 s \<Longrightarrow> emits P s0 (mainExit s)"
  by (rule emits_more [of _ s OsExit]) (simp_all add: mainExit_def)

lemma emits_ui_Prompt [emits_intros]:
  "(PromptExit \<in> set opts \<Longrightarrow> P OsExit) \<Longrightarrow> emits P s0 s \<Longrightarrow>
   emits P s0 (snd (ui_Prompt env m opts s))"
  by (cases "PromptExit \<in> set opts")
    (auto simp: emits_def calls_ui_Prompt)

lemma emits_ui_PromptInputMessage [emits_intros]:
  "emits P s0 s \<Longrightarrow> emits P s0 (snd (ui_PromptInputMessage env m opts s))"
  by (simp add: emits_def ui_PromptInputMessage_def split: prod.splits)

lemma emits_tracksInflateWithOption [emits_intros]:
  "emits P s0 s \<Longrightarrow> emits P s0 (tracksInflateWithOption env t opts s)"
  by (simp add: emits_same [of "tracksInflateWithOption env t opts s" s])

lemma emits_inflateAll [emits_intros]: "emits P s0 s \<Longrightarrow> emits P s0 (inflateAll env ts s)"
  by (simp add: emits_same [of "inflateAll env ts s" s])

lemma emits_addPlaylist [emits_intros]: "emits P s0 s \<Longrightarrow> emits P s0 (addPlaylist p ts s)"
  by (simp add: emits_same [of "addPlaylist p ts s" s])

lemma emits_logError [emits_intros]: "emits P s0 (snd r) \<Longrightarrow> emits P s0 (logError style r)"
  by (simp add: emits_same [of "logError style r" "snd r"])

lemma emits_clearSource [emits_intros]: "emits P s0 s \<Longrightarrow> emits P s0 (clearSource t s)"
  by (simp add: emits_def clearSource_def split: option.splits)

lemma emits_updates [simp]:
  "emits P s0 (s\<lparr>heap := h\<rparr>) = emits P s0 s"
  "emits P s0 (s\<lparr>tracks := tr\<rparr>) = emits P s0 s"
  "emits P s0 (s\<lparr>tracksFailed := tf\<rparr>) = emits P s0 s"
  "emits P s0 (s\<lparr>index := idx\<rparr>) = emits P s0 s"
  "emits P s0 (s\<lparr>artworks := aw\<rparr>) = emits P s0 s"
  "emits P s0 (s\<lparr>ui := u\<rparr>) = emits P s0 s"
  "emits P s0 (s\<lparr>playlists := pl\<rparr>) = emits P s0 s"
  by (simp_all add: emits_def)

subsection \<open>The fetch phase\<close>

lemma emits_time_Since [emits_intros]:
  "P NowCall \<Longrightarrow> emits P s0 s \<Longrightarrow> emits P s0 (snd (time_Since env t s))"
  by (auto simp: time_Since_def case_prod_unfold intro!: emits_intros)

lemma emits_fetchDump [emits_intros]:
  "P NowCall \<Longrightarrow> P (FetchGobCall path) \<Longrightarrow> emits P s0 s \<Longrightarrow>
   emits P s0 (snd (fetchDump env path s))"
  by (auto simp: fetchDump_def case_prod_unfold split: sum.splits intro!: emits_intros)

lemma emits_storeDump [emits_intros]:
  "fetching NowCall \<Longrightarrow> emits fetching s0 s \<Longrightarrow> emits fetching s0 (storeDump env gob ts s)"
  by (auto simp: storeDump_def case_prod_unfold split: option.splits intro!: emits_intros)

lemma emits_flushCache [emits_intros]:
  "emits fetching s0 s \<Longrightarrow> emits fetching s0 (flushCache a env gob s)"
  by (auto simp: flushCache_def intro!: emits_intros)

lemma emits_useDump [emits_intros]:
  "emits fetching s0 s \<Longrightarrow> emits fetching s0 (useDump env title dump s)"
  by (auto simp: useDump_def case_prod_unfold intro!: emits_intros)

lemma emits_libraryLive [emits_intros]:
  "emits fetching s0 s \<Longrightarrow> emits fetching s0 (libraryLive env gob s)"
  by (auto simp: libraryLive_def case_prod_unfold Let_def split: sum.splits intro!: emits_intros)

lemma emits_mainFetchLibrary [emits_intros]:
  "emits fetching s0 s \<Longrightarrow> emits fetching s0 (mainFetchLibrary a env s)"
  by (auto simp: mainFetchLibrary_def case_prod_unfold Let_def split: sum.splits
      intro!: emits_intros)

lemma emits_albumLive [emits_intros]:
  "emits fetching s0 s \<Longrightarrow> emits fetching s0 (albumLive env uri gob s)"
  by (auto simp: albumLive_def case_prod_unfold Let_def split: sum.splits intro!: emits_intros)

lemma emits_fetchAlbum [emits_intros]:
  "emits fetching s0 s \<Longrightarrow> emits fetching s0 (fetchAlbum a env uri s)"
  by (auto simp: fetchAlbum_def case_prod_unfold Let_def split: sum.splits intro!: emits_intros)

lemma emits_forEach:
  "(\<And>x s. emits P s0 s \<Longrightarrow> emits P s0 (body x s)) \<Longrightarrow> emits P s0 s \<Longrightarrow>
   emits P s0 (forEach body xs s)"
  by (induction xs arbitrary: s) auto

lemma emits_fold:
  "(\<And>x s. emits P s0 s \<Longrightarrow> emits P s0 (body x s)) \<Longrightarrow> emits P s0 s \<Longrightarrow>
   emits P s0 (fold body xs s)"
  by (induction xs arbitrary: s) auto

lemma emits_mainFetchAlbums [emits_intros]:
  "emits fetching s0 s \<Longrightarrow> emits fetching s0 (mainFetchAlbums a env s)"
  by (auto simp: mainFetchAlbums_def intro!: emits_forEach emits_intros)

lemma emits_playlistLive [emits_intros]:
  "emits fetching s0 s \<Longrightarrow> emits fetching s0 (playlistLive env uri gob p s)"
  by (auto simp: playlistLive_def case_prod_unfold Let_def split: sum.splits intro!: emits_intros)

lemma emits_fetchPlaylist [emits_intros]:
  "emits fetching s0 s \<Longrightarrow> emits fetching s0 (fetchPlaylist a env uri s)"
  by (auto simp: fetchPlaylist_def case_prod_unfold Let_def split: sum.splits intro!: emits_intros)

lemma emits_mainFetchPlaylists [emits_intros]:
  "emits fetching s0 s \<Longrightarrow> emits fetching s0 (mainFetchPlaylists a env s)"
  by (auto simp: mainFetchPlaylists_def intro!: emits_forEach emits_intros)

lemma emits_fixTrack [emits_intros]:
  "emits fetching s0 s \<Longrightarrow> emits fetching s0 (fixTrack env tFix s)"
  by (auto simp: fixTrack_def case_prod_unfold split: sum.splits intro!: emits_intros)

lemma emits_mainFetchTracksToFix [emits_intros]:
  "emits fetching s0 s \<Longrightarrow> emits fetching s0 (mainFetchTracksToFix a env s)"
  by (auto simp: mainFetchTracksToFix_def intro!: emits_forEach emits_intros)

lemma emits_running:
  "(\<And>s. emits P s0 s \<Longrightarrow> emits P s0 (f s)) \<Longrightarrow> emits P s0 s \<Longrightarrow> emits P s0 (running f s)"
  by (simp add: running_def)

lemma emits_flushOverride [emits_intros]:
  "emits P s0 s \<Longrightarrow> emits P s0 (flushOverride a s)"
  by (simp add: flushOverride_def)

lemma emits_reportFetch [emits_intros]:
  "emits fetching s0 s \<Longrightarrow> emits fetching s0 (reportFetch env s)"
  by (auto simp: reportFetch_def Let_def intro!: emits_running emits_intros)

text \<open>The fetch phase launches nothing, waits for nothing and does not touch the index.\<close>

lemma emits_mainFetch: "emits fetching s (mainFetch a env s)"
  by (auto simp: mainFetch_def fetchSources_def intro!: emits_running emits_intros)

subsection \<open>The search phase\<close>

lemma emits_renameRepair [emits_intros]:
  "P (RenameCall (the (index s (SpotifyID (heap s t)))) (Filename env (heap s t))) \<Longrightarrow>
   emits P s0 s \<Longrightarrow> emits P s0 (renameRepair a env t s)"
  by (auto simp: renameRepair_def index_Match_def case_prod_unfold Let_def
      split: sum.splits option.splits intro!: emits_intros)

lemma emits_pickEntry [emits_intros]:
  "(\<And>e. P (MatchCall (ProviderName p) e t)) \<Longrightarrow> emits P s0 s \<Longrightarrow>
   emits P s0 (snd (pickEntry a env t p es s))"
proof (induction es arbitrary: s)
  case Nil
  then show ?case by simp
next
  case (Cons e es)
  then show ?case
    by (auto simp: case_prod_unfold intro!: Cons.IH emits_intros)
qed

lemma emits_providerManual [emits_intros]:
  "(\<And>url. P (SupportCall (ProviderName p) url)) \<Longrightarrow> emits P s0 (snd es) \<Longrightarrow>
   emits P s0 (snd (providerManual a env t p es))"
  by (cases es)
    (auto simp: providerManual_def case_prod_unfold split: option.splits intro!: emits_intros)

lemma emits_providerVerdict [emits_intros]:
  "emits P s0 (snd es) \<Longrightarrow> emits P s0 (snd (providerVerdict a env t es))"
  by (cases es) (auto simp: providerVerdict_def intro!: emits_intros)

lemma emits_searchProvider [emits_intros]:
  "emits launching s0 (snd es) \<Longrightarrow> emits launching s0 (snd (searchProvider a env t p es))"
  by (cases es)
    (auto simp: searchProvider_def case_prod_unfold split: sum.splits option.splits
      intro!: emits_intros)

lemma emits_providers:
  "emits launching s0 (snd es) \<Longrightarrow>
   emits launching s0 (snd (fold (searchProvider a env t) ps es))"
proof (induction ps arbitrary: es)
  case Nil
  then show ?case by simp
next
  case (Cons p ps)
  then show ?case
    by (auto intro!: Cons.IH emits_intros)
qed

lemma emits_acquireTrack [emits_intros]:
  "emits launching s0 s \<Longrightarrow> emits launching s0 (snd (acquireTrack a env t s))"
  using emits_providers [of s0 "(newEntry, s)" a env t "providers env"]
  by (auto simp: acquireTrack_def case_prod_unfold split: sum.splits option.splits
      intro!: emits_intros)

lemma emits_lyricsLoop [emits_intros]:
  "emits launching s0 s \<Longrightarrow> emits launching s0 (snd (lyricsLoop t ps s))"
proof (induction ps arbitrary: s)
  case Nil
  then show ?case by simp
next
  case (Cons p ps)
  then show ?case
    by (auto simp: case_prod_unfold split: sum.splits intro!: Cons.IH emits_intros)
qed

lemma emits_songFetchLyrics [emits_intros]:
  "emits launching s0 s \<Longrightarrow> emits launching s0 (snd (songFetchLyrics a env t s))"
  by (auto simp: songFetchLyrics_def intro!: emits_intros)

lemma emits_songFetchArtwork [emits_intros]:
  "emits launching s0 s \<Longrightarrow> emits launching s0 (snd (songFetchArtwork env t s))"
  by (auto simp: songFetchArtwork_def case_prod_unfold split: sum.splits option.splits
      intro!: emits_intros)

lemma emits_launch [emits_intros]:
  "emits launching s0 s \<Longrightarrow> emits launching s0 (launch a t s)"
  by (auto simp: emits_def launch_def)

lemma emits_searchTrack [emits_intros]:
  "emits launching s0 s \<Longrightarrow> emits launching s0 (searchTrack a env ctr t s)"
proof -
  define s1 where "s1 = renameRepair a env t
      (ui_Append (ProgressLine ctr (card (dom (tracks s))) (Basename env (heap s t)))
         [StyleBold] (s\<lparr>ui := ui s @ [ProgressIncrease]\<rparr>))"
  define r where "r = (if \<not> Local env (heap s1 t) (world s1) \<or> sourceFlag s1 t \<or> argSimulate a
                       then acquireTrack a env t s1 else (True, s1))"
  assume "emits launching s0 s"
  then have "emits launching s0 s1"
    unfolding s1_def by (auto intro!: emits_intros)
  then have r: "emits launching s0 (snd r)"
    unfolding r_def by (auto intro!: emits_intros)
  have "searchTrack a env ctr t s =
      (if \<not> fst r then snd r
       else if Local env (heap (snd r) t) (world (snd r)) \<and> \<not> metadataFlag (snd r) t then snd r
       else launch a t
              (ui_Append LaunchingJobs []
                 (logError WarningAppend
                    (songFetchArtwork env t
                       (logError WarningAppend (songFetchLyrics a env t (snd r)))))))"
    unfolding searchTrack_def Let_def s1_def [symmetric] r_def [symmetric]
    by (simp add: case_prod_unfold)
  with r show ?thesis
    by (auto intro!: emits_intros)
qed

text \<open>The track loop launches goroutines and waits for them; it persists nothing.\<close>

lemma emits_searchLoop:
  "emits launching s0 s \<Longrightarrow> emits launching s0 (searchLoop a env ctr order s)"
proof (induction order arbitrary: s ctr)
  case Nil
  then show ?case by simp
next
  case (Cons t order)
  then show ?case
    by (auto intro!: Cons.IH emits_intros)
qed

lemma emits_write:
  "emits quiet s0 s \<Longrightarrow>
   emits quiet s0
     (case call (CreateCall f) g s of
        (Some err, s3) \<Rightarrow> ui_Append (m err) opts s3
      | (None, s3) \<Rightarrow>
          (case call (WriteStringCall f c) h s3 of
             (Some err, s4) \<Rightarrow> ui_Append (m' err) opts' s4
           | (None, s4) \<Rightarrow> s4))"
  by (auto simp: case_prod_unfold split: option.splits intro!: emits_intros)

lemma emits_flushPlaylist [emits_intros]:
  "emits quiet s0 s \<Longrightarrow> emits quiet s0 (flushPlaylist a env p s)"
  unfolding flushPlaylist_def Let_def
  by (rule emits_write) (auto intro!: emits_intros)

lemma emits_flushPlaylists:
  "emits quiet s0 s \<Longrightarrow> emits quiet s0 (flushPlaylists a env s)"
  by (auto simp: flushPlaylists_def intro!: emits_fold emits_intros)

lemma calls_reportSearch [simp]: "calls (reportSearch env s) = calls s"
proof -
  have "calls (fold (\<lambda>t. ui_Append (f t) []) ts s') = calls s'"
    for f :: "ptr \<Rightarrow> message" and ts and s' :: "'a state"
    by (induction ts arbitrary: s') simp_all
  then show ?thesis
    by (simp add: reportSearch_def Let_def)
qed

text \<open>
  The end of \<open>mainSearch\<close>: the barrier, then quiet effects, then the persistence of the
  index, the closing of the pool, the second wait and the exit.
\<close>

lemma finishSearch_calls:
  "\<exists>ps. list_all quiet ps \<and>
     calls (finishSearch a env s) =
       calls s @ WaitGroupWait # ps @ [IndexSyncCall (usrIndex env), ClosePool, WaitGroupWait, OsExit]"
proof -
  let ?s0 = "s\<lparr>calls := calls s @ [WaitGroupWait]\<rparr>"
  have "emits quiet ?s0 (flushPlaylists a env ?s0)"
    by (rule emits_flushPlaylists) (rule emits_refl)
  then obtain ps where ps: "list_all quiet ps"
      "calls (flushPlaylists a env ?s0) = calls ?s0 @ ps"
    by (auto simp: emits_def)
  then show ?thesis
    by (auto simp: finishSearch_def Let_def calls_ui_Prompt)
qed

lemma mainSearch_calls:
  "\<exists>ls ps. list_all launching ls \<and> list_all quiet ps \<and>
     calls (mainSearch a env order s) =
       calls s @ ls @ WaitGroupWait # ps @
         [IndexSyncCall (usrIndex env), ClosePool, WaitGroupWait, OsExit]"
proof -
  obtain songsFetch songsFlush songsIgnore
    where c: "countSongs a env s = (songsFetch, songsFlush, songsIgnore)"
    by (cases "countSongs a env s")
  let ?s1 = "ui_Append (WillBeDownloaded songsFetch songsFlush songsIgnore) []
               (s\<lparr>ui := ui s @ [ProgressMax (card (dom (tracks s)))]\<rparr>)"
  let ?s2 = "searchLoop a env 0 order ?s1"
  have "emits launching ?s1 ?s2"
    by (rule emits_searchLoop) (rule emits_refl)
  then obtain ls where ls: "list_all launching ls" "calls ?s2 = calls s @ ls"
    by (auto simp: emits_def)
  from finishSearch_calls [of a env ?s2] obtain ps where ps: "list_all quiet ps"
      "calls (finishSearch a env ?s2) =
         calls ?s2 @ WaitGroupWait # ps @
           [IndexSyncCall (usrIndex env), ClosePool, WaitGroupWait, OsExit]"
    by blast
  from c ls ps show ?thesis
    by (auto simp: mainSearch_def)
qed

lemma exited_mainSearch: "exited (mainSearch a env order s)"
  by (simp add: mainSearch_def finishSearch_def Let_def exited_ui_Prompt split: prod.splits)

subsection \<open>The discipline of the main goroutine\<close>

lemma guarded_quiet: "list_all quiet xs \<Longrightarrow> guarded b c (xs @ ys) = guarded b c ys"
proof (induction xs)
  case Nil
  then show ?case by simp
next
  case (Cons e xs)
  then show ?case by (cases e) simp_all
qed

lemma guarded_fetching:
  "list_all fetching xs \<Longrightarrow> guarded False c ys \<Longrightarrow> guarded False c (xs @ ys)"
proof (induction xs)
  case Nil
  then show ?case by simp
next
  case (Cons e xs)
  then show ?case by (cases e) simp_all
qed

lemma guarded_launching:
  "list_all launching xs \<Longrightarrow> guarded b False (xs @ WaitGroupWait # ys) = guarded False False ys"
proof (induction xs arbitrary: b)
  case Nil
  then show ?case by simp
next
  case (Cons e xs)
  then show ?case by (cases e) simp_all
qed

lemma mainProgram_cases:
  "(\<exists>fs. list_all fetching fs \<and> mainProgram a env order s = fs) \<or>
   (\<exists>fs ls ps. list_all fetching fs \<and> list_all launching ls \<and> list_all quiet ps \<and>
      mainProgram a env order s =
        fs @ ls @ WaitGroupWait # ps @
          [IndexSyncCall (usrIndex env), ClosePool, WaitGroupWait, OsExit])"
proof -
  let ?s1 = "mainFetch a env s"
  from emits_mainFetch [of s a env] obtain fs
    where fs: "list_all fetching fs" "calls ?s1 = calls s @ fs"
    by (auto simp: emits_def)
  show ?thesis
  proof (cases "exited ?s1")
    case True
    with fs have "mainProgram a env order s = fs"
      by (simp add: mainProgram_def mainRun_def running_def)
    with fs show ?thesis by blast
  next
    case False
    from mainSearch_calls [of a env order ?s1] obtain ls ps
      where l: "list_all launching ls" "list_all quiet ps"
        "calls (mainSearch a env order ?s1) =
           calls ?s1 @ ls @ WaitGroupWait # ps @
             [IndexSyncCall (usrIndex env), ClosePool, WaitGroupWait, OsExit]"
      by blast
    with False fs have "mainProgram a env order s =
        fs @ ls @ WaitGroupWait # ps @
          [IndexSyncCall (usrIndex env), ClosePool, WaitGroupWait, OsExit]"
      by (simp add: mainProgram_def mainRun_def running_def exited_mainSearch)
    with fs l show ?thesis by blast
  qed
qed

text \<open>
  The main goroutine of every run keeps the discipline: whatever the arguments, the
  collaborators, the order of the track loop and the state it starts from.
\<close>

lemma guarded_mainProgram: "guarded False False (mainProgram a env order s)"
proof -
  have g: "guarded False False
             (ls @ WaitGroupWait # ps @ [IndexSyncCall path, ClosePool, WaitGroupWait, OsExit])"
    if "list_all launching ls" "list_all quiet ps" for ls ps path
    using that by (simp add: guarded_launching guarded_quiet)
  from mainProgram_cases [of a env order s] show ?thesis
  proof (elim disjE exE conjE)
    fix fs
    assume "list_all fetching fs" "mainProgram a env order s = fs"
    with guarded_fetching [of fs False "[]"] show ?thesis by simp
  next
    fix fs ls ps
    assume "list_all fetching fs" "list_all launching ls" "list_all quiet ps"
      "mainProgram a env order s =
         fs @ ls @ WaitGroupWait # ps @
           [IndexSyncCall (usrIndex env), ClosePool, WaitGroupWait, OsExit]"
    with guarded_fetching [of fs False] g show ?thesis by simp
  qed
qed

section \<open>The concurrent system: properties\<close>

lemma filter_update_length:
  "i < length xs \<Longrightarrow>
   length (filter P (xs[i := y])) + (if P (xs ! i) then 1 else 0) =
   length (filter P xs) + (if P y then 1 else 0)"
proof (induction xs arbitrary: i)
  case Nil
  then show ?case by simp
next
  case (Cons x xs)
  show ?case
  proof (cases i)
    case 0
    then show ?thesis by simp
  next
    case (Suc j)
    with Cons.prems have "j < length xs" by simp
    from Cons.IH [OF this] Suc show ?thesis by simp
  qed
qed

lemma activeCount_update:
  "i < length ps \<Longrightarrow>
   activeCount (ps[i := q]) + (if active (ps ! i) then 1 else 0) =
   activeCount ps + (if active q then 1 else 0)"
  unfolding activeCount_def by (rule filter_update_length)

lemma unfinished_update:
  "i < length ps \<Longrightarrow>
   length (filter (\<lambda>p. p \<noteq> Finished) (ps[i := q])) + (if ps ! i \<noteq> Finished then 1 else 0) =
   length (filter (\<lambda>p. p \<noteq> Finished) ps) + (if q \<noteq> Finished then 1 else 0)"
  by (rule filter_update_length)

lemma pendingAfter_append:
  "pendingAfter b (xs @ ys) = pendingAfter (pendingAfter b xs) ys"
  by (induction b xs rule: pendingAfter.induct) simp_all

lemma all_finished_no_unfinished:
  "length (filter (\<lambda>p. p \<noteq> Finished) ps) = 0 \<longleftrightarrow> (\<forall>p \<in> set ps. p = Finished)"
  by (induction ps) auto

lemma invariant_initial: "guarded False False ops \<Longrightarrow> invariant (initial ops)"
  by (simp add: invariant_def initial_def activeCount_def)

lemma guarded_effect:
  "\<not> synchronises e \<Longrightarrow> guarded b c (e # es) \<Longrightarrow> guarded (pendingAfter b [e]) c es"
  by (cases e) auto

lemma pendingAfter_effect:
  "\<not> synchronises e \<Longrightarrow> pendingAfter b [e] = b"
  by (cases e) simp_all

text \<open>A goroutine that has not finished: a launch is pending and the pool is open.\<close>

lemma invariant_unfinished:
  assumes "invariant \<sigma>" and "i < length (tasks \<sigma>)" and "tasks \<sigma> ! i \<noteq> Finished"
  shows "pendingAfter False (executed \<sigma>)" and "\<not> closed \<sigma>" and "0 < waitGroup \<sigma>"
proof -
  from assms(2,3) have "\<not> (\<forall>p \<in> set (tasks \<sigma>). p = Finished)"
    using nth_mem by blast
  with assms(1) show p: "pendingAfter False (executed \<sigma>)"
    by (auto simp: invariant_def)
  with assms(1) show "\<not> closed \<sigma>"
    by (auto simp: invariant_def)
  from assms(2,3) have "tasks \<sigma> ! i \<in> set (filter (\<lambda>p. p \<noteq> Finished) (tasks \<sigma>))"
    by simp
  then have "0 < length (filter (\<lambda>p. p \<noteq> Finished) (tasks \<sigma>))"
    by (metis length_pos_if_in_set)
  with assms(1) show "0 < waitGroup \<sigma>"
    by (simp add: invariant_def)
qed

text \<open>A move of a goroutine from one unfinished point to another keeps the invariant,
  when the pool follows the change of the active goroutines.\<close>

lemma invariant_move:
  assumes inv: "invariant \<sigma>" and i: "i < length (tasks \<sigma>)"
    and src: "tasks \<sigma> ! i \<noteq> Finished" and dst: "q \<noteq> Finished"
    and pool: "n + (if active q then 1 else 0) = pool \<sigma> + (if active (tasks \<sigma> ! i) then 1 else 0)"
  shows "invariant (\<sigma>\<lparr>pool := n, tasks := (tasks \<sigma>)[i := q]\<rparr>)"
proof -
  note u = invariant_unfinished [OF inv i src]
  from activeCount_update [OF i, of q] pool inv
  have a: "n + activeCount ((tasks \<sigma>)[i := q]) = concurrencyLimit"
    by (simp add: invariant_def split: if_splits)
  from unfinished_update [OF i, of q] src dst inv
  have w: "waitGroup \<sigma> = length (filter (\<lambda>p. p \<noteq> Finished) ((tasks \<sigma>)[i := q]))"
    by (simp add: invariant_def)
  from inv u a w show ?thesis
    by (simp add: invariant_def)
qed

lemma invariant_step:
  assumes "invariant \<sigma>" and "step \<sigma> \<sigma>'"
  shows "invariant \<sigma>'"
  using assms(2)
proof (cases rule: step.cases)
  case (go t rest)
  with assms(1) show ?thesis
    by (auto simp: invariant_def advance_def pendingAfter_append activeCount_def active_def)
next
  case (wait rest)
  with assms(1) all_finished_no_unfinished [of "tasks \<sigma>"] show ?thesis
    by (auto simp: invariant_def advance_def pendingAfter_append)
next
  case (close rest)
  with assms(1) show ?thesis
    by (auto simp: invariant_def advance_def pendingAfter_append)
next
  case (close_closed rest)
  with assms(1) show ?thesis
    by (auto simp: invariant_def)
next
  case (exit rest)
  with assms(1) show ?thesis
    by (auto simp: invariant_def advance_def pendingAfter_append)
next
  case (effect e rest)
  with assms(1) guarded_effect [of e "pendingAfter False (executed \<sigma>)" "closed \<sigma>" rest]
    pendingAfter_effect [of e "pendingAfter False (executed \<sigma>)"]
  show ?thesis
    by (auto simp: invariant_def advance_def pendingAfter_append)
next
  case (acquire i)
  with invariant_move [OF assms(1), of i Staging "pool \<sigma> - 1"] show ?thesis
    by (simp add: active_def)
next
  case (acquire_closed i)
  with invariant_unfinished(2) [OF assms(1), of i] show ?thesis
    by simp
next
  case (staged i)
  with invariant_move [OF assms(1), of i Processing "pool \<sigma>"] show ?thesis
    by (simp add: active_def)
next
  case (unstaged i)
  with invariant_move [OF assms(1), of i Returning "pool \<sigma>"] show ?thesis
    by (simp add: active_def)
next
  case (processed i)
  with invariant_move [OF assms(1), of i Returning "pool \<sigma>"] show ?thesis
    by (simp add: active_def)
next
  case (release i)
  with invariant_move [OF assms(1), of i Released "pool \<sigma> + 1"] show ?thesis
    by (simp add: active_def)
next
  case (release_closed i)
  with invariant_unfinished(2) [OF assms(1), of i] show ?thesis
    by simp
next
  case (finish i)
  note u = invariant_unfinished [OF assms(1), of i]
  from finish activeCount_update [of i "tasks \<sigma>" Finished]
  have a: "activeCount ((tasks \<sigma>)[i := Finished]) = activeCount (tasks \<sigma>)"
    by (simp add: active_def)
  from finish unfinished_update [of i "tasks \<sigma>" Finished]
  have w: "length (filter (\<lambda>p. p \<noteq> Finished) ((tasks \<sigma>)[i := Finished])) + 1 =
      length (filter (\<lambda>p. p \<noteq> Finished) (tasks \<sigma>))"
    by simp
  from finish u have p: "pendingAfter False (executed \<sigma>)" "\<not> closed \<sigma>"
    by simp_all
  from assms(1) finish a w p show ?thesis
    by (simp add: invariant_def)
next
  case (finish_negative i)
  with invariant_unfinished(3) [OF assms(1), of i] show ?thesis
    by simp
next
  case interrupt
  with assms(1) show ?thesis
    by (auto simp: invariant_def)
qed

lemma reachable_invariant:
  "reachable ops \<sigma> \<Longrightarrow> guarded False False ops \<Longrightarrow> invariant \<sigma>"
  by (induction rule: reachable.induct) (auto intro: invariant_initial invariant_step)

subsection \<open>A concrete run\<close>

lemma demo_fetchSources_metadata:
  "fetchSources flushMetadataArgs demoEnv (demoState 0) =
     (demoState 0)
       \<lparr>tracks := [1 \<mapsto> SyncOptionsFlush True, 3 \<mapsto> SyncOptionsDefault],
        tracksIndex := [''.song.mp3'' \<mapsto> 1, ''.other.mp3'' \<mapsto> 1],
        ui := [Append (SourceCache ''Library'' 0 cacheDuration) [PanelLeftTop]],
        calls := [FetchGobCall ''user_library.gob'', NowCall, NowCall, NowCall]\<rparr>"
  by (simp add: fetchSources_def running_def mainFetchLibrary_def mainFetchAlbums_def
      mainFetchPlaylists_def mainFetchTracksToFix_def fetchDump_def flushCache_def
      useDump_def time_Since_def time_Sub_def call_def inflateAll_def tracksInflate_def
      tracksInflateWithOption_def ui_Append_def cacheDuration_def time_Minute_def maxDuration_def
      minDuration_def Let_def flushMetadataArgs_def demoArgs_def demoEnv_def demoState_def
      demoHeap_def demoTrack_def)

lemma dom_two: "dom [a \<mapsto> x, b \<mapsto> y] = {a, b}"
  by auto

lemma map_option_two:
  "(\<lambda>t. map_option f ([a \<mapsto> x, b \<mapsto> y] t)) = [a \<mapsto> f x, b \<mapsto> f y]"
  by (rule ext) simp

lemma demo_flushOverride:
  "flushOverride flushMetadataArgs (fetchSources flushMetadataArgs demoEnv (demoState 0)) =
     (demoState 0)
       \<lparr>tracks := [1 \<mapsto> SyncOptionsFlush True,
                    3 \<mapsto> \<lparr>Source = False, Metadata = True, Normalization = False\<rparr>],
        tracksIndex := [''.song.mp3'' \<mapsto> 1, ''.other.mp3'' \<mapsto> 1],
        ui := [Append (SourceCache ''Library'' 0 cacheDuration) [PanelLeftTop]],
        calls := [FetchGobCall ''user_library.gob'', NowCall, NowCall, NowCall]\<rparr>"
  unfolding demo_fetchSources_metadata
  by (simp add: flushOverride_def flushMetadataArgs_def demoArgs_def map_option_two
      SyncOptionsFlush_def SyncOptionsDefault_def del: fun_upd_apply)

lemma demo_mainFetch: "mainFetch flushMetadataArgs demoEnv (demoState 0) = fetchedState"
proof -
  have "\<not> exited (fetchSources flushMetadataArgs demoEnv (demoState 0))"
    unfolding demo_fetchSources_metadata by (simp add: demoState_def)
  then have "mainFetch flushMetadataArgs demoEnv (demoState 0) =
      reportFetch demoEnv
        (flushOverride flushMetadataArgs (fetchSources flushMetadataArgs demoEnv (demoState 0)))"
    by (simp add: mainFetch_def running_def)
  also have "\<dots> = fetchedState"
    unfolding demo_flushOverride
    by (simp add: reportFetch_def Let_def ui_Append_def dom_two demoEnv_def fetchedState_def
        demoState_def)
  finally show ?thesis .
qed

lemma demo_mainSearch:
  "calls (mainSearch flushMetadataArgs demoEnv [1, 3] fetchedState) =
     [FetchGobCall ''user_library.gob'', NowCall, NowCall, NowCall, GoSongProcess 3,
      WaitGroupWait, IndexSyncCall ''index.gob'', ClosePool, WaitGroupWait, OsExit]"
  by (simp add: mainSearch_def countSongs_def finishSearch_def searchTrack_def renameRepair_def
      index_Match_def acquireTrack_def reportSearch_def flushPlaylists_def launch_def
      perform_def call_def ui_Append_def ui_Prompt_def mainExit_def sourceFlag_def
      metadataFlag_def newEntry_def songFetchLyrics_def songFetchArtwork_def logError_def
      SyncOptionsFlush_def SyncOptionsDefault_def fetchedState_def Let_def flushMetadataArgs_def
      demoArgs_def demoEnv_def demoState_def demoHeap_def demoTrack_def dom_two)

text \<open>
  The main goroutine of the run with \<open>-flush-metadata\<close>: it reads the snapshot of the
  library, launches the goroutine of object 3, waits, persists the index, closes the
  pool, waits and exits.
\<close>

lemma demo_mainProgram:
  "mainProgram flushMetadataArgs demoEnv [1, 3] (demoState 0) =
     [FetchGobCall ''user_library.gob'', NowCall, NowCall, NowCall, GoSongProcess 3,
      WaitGroupWait, IndexSyncCall ''index.gob'', ClosePool, WaitGroupWait, OsExit]"
proof -
  have "\<not> exited fetchedState"
    by (simp add: fetchedState_def demoState_def)
  moreover have "calls (demoState 0) = []"
    by (simp add: demoState_def)
  ultimately show ?thesis
    using demo_mainSearch
    by (simp add: mainProgram_def mainRun_def demo_mainFetch running_def exited_mainSearch)
qed

text \<open>Quiet effects of the main goroutine are steps of the process.\<close>

lemma reachable_effects:
  "reachable ops \<sigma> \<Longrightarrow> \<not> halted \<sigma> \<Longrightarrow> program \<sigma> = es @ rest \<Longrightarrow>
   list_all (\<lambda>e. \<not> synchronises e) es \<Longrightarrow>
   reachable ops (\<sigma>\<lparr>program := rest, executed := executed \<sigma> @ es\<rparr>)"
proof (induction es arbitrary: \<sigma>)
  case Nil
  then have "\<sigma>\<lparr>program := rest, executed := executed \<sigma> @ []\<rparr> = \<sigma>"
    by (cases \<sigma>) simp
  with Nil.prems(1) show ?case by simp
next
  case (Cons e es)
  from Cons.prems have "step \<sigma> (advance \<sigma>)"
    by (auto intro: step.effect)
  with Cons.prems(1) have "reachable ops (advance \<sigma>)"
    by (rule reachable.after)
  from Cons.IH [OF this] Cons.prems show ?case
    by (simp add: advance_def)
qed

lemma reachable_afterLaunch:
  "reachable (mainProgram flushMetadataArgs demoEnv [1, 3] (demoState 0)) afterLaunch"
proof -
  define ops where "ops = mainProgram flushMetadataArgs demoEnv [1, 3] (demoState 0)"
  let ?fetch = "[FetchGobCall ''user_library.gob'', NowCall, NowCall, NowCall]"
  let ?rest = "[WaitGroupWait, IndexSyncCall ''index.gob'', ClosePool, WaitGroupWait, OsExit]"
  let ?\<sigma> = "(initial ops)\<lparr>program := GoSongProcess 3 # ?rest,
                   executed := executed (initial ops) @ ?fetch\<rparr>"
  have ops: "ops = ?fetch @ GoSongProcess 3 # ?rest"
    using demo_mainProgram by (simp add: ops_def)
  have "reachable ops (initial ops)"
    by (rule reachable.start)
  then have r: "reachable ops ?\<sigma>"
    by (rule reachable_effects) (simp_all add: initial_def ops)
  have "step ?\<sigma> ((advance ?\<sigma>)\<lparr>waitGroup := waitGroup ?\<sigma> + 1, tasks := tasks ?\<sigma> @ [Spawned]\<rparr>)"
    by (rule step.go [of ?\<sigma> 3 ?rest]) (simp_all add: initial_def)
  then have "step ?\<sigma> afterLaunch"
    by (simp add: advance_def initial_def afterLaunch_def)
  with r have "reachable ops afterLaunch"
    by (rule reachable.after)
  then show ?thesis
    by (simp only: ops_def)
qed

text \<open>The goroutine of object 3 on its way through \<open>songProcess\<close>.\<close>

lemma step_afterLaunch:
  "step afterLaunch (afterLaunch\<lparr>pool := 99, tasks := [Staging]\<rparr>)"
  "step (afterLaunch\<lparr>pool := 99, tasks := [Staging]\<rparr>)
     (afterLaunch\<lparr>pool := 99, tasks := [Returning]\<rparr>)"
  "step (afterLaunch\<lparr>pool := 99, tasks := [Returning]\<rparr>)
     (afterLaunch\<lparr>pool := 100, tasks := [Released]\<rparr>)"
  "step (afterLaunch\<lparr>pool := 100, tasks := [Released]\<rparr>)
     (afterLaunch\<lparr>pool := 100, waitGroup := 0, tasks := [Finished]\<rparr>)"
  "step (afterLaunch\<lparr>pool := 100, waitGroup := 0, tasks := [Finished]\<rparr>) afterBarrier"
proof -
  show "step afterLaunch (afterLaunch\<lparr>pool := 99, tasks := [Staging]\<rparr>)"
    using step.acquire [of afterLaunch 0]
    by (simp add: afterLaunch_def concurrencyLimit_def)
  show "step (afterLaunch\<lparr>pool := 99, tasks := [Staging]\<rparr>)
     (afterLaunch\<lparr>pool := 99, tasks := [Returning]\<rparr>)"
    using step.unstaged [of "afterLaunch\<lparr>pool := 99, tasks := [Staging]\<rparr>" 0]
    by (simp add: afterLaunch_def)
  show "step (afterLaunch\<lparr>pool := 99, tasks := [Returning]\<rparr>)
     (afterLaunch\<lparr>pool := 100, tasks := [Released]\<rparr>)"
    using step.release [of "afterLaunch\<lparr>pool := 99, tasks := [Returning]\<rparr>" 0]
    by (simp add: afterLaunch_def concurrencyLimit_def)
  show "step (afterLaunch\<lparr>pool := 100, tasks := [Released]\<rparr>)
     (afterLaunch\<lparr>pool := 100, waitGroup := 0, tasks := [Finished]\<rparr>)"
    using step.finish [of "afterLaunch\<lparr>pool := 100, tasks := [Released]\<rparr>" 0]
    by (simp add: afterLaunch_def)
  show "step (afterLaunch\<lparr>pool := 100, waitGroup := 0, tasks := [Finished]\<rparr>) afterBarrier"
    using step.wait [of "afterLaunch\<lparr>pool := 100, waitGroup := 0, tasks := [Finished]\<rparr>"]
    by (simp add: afterLaunch_def afterBarrier_def advance_def concurrencyLimit_def)
qed

lemma reachable_returning:
  "reachable (mainProgram flushMetadataArgs demoEnv [1, 3] (demoState 0))
     (afterLaunch\<lparr>pool := 99, tasks := [Returning]\<rparr>)"
  by (rule reachable.after [OF reachable.after [OF reachable_afterLaunch step_afterLaunch(1)]
        step_afterLaunch(2)])

lemma reachable_afterBarrier:
  "reachable (mainProgram flushMetadataArgs demoEnv [1, 3] (demoState 0)) afterBarrier"
  by (rule reachable.after [OF reachable.after [OF reachable.after
        [OF reachable_returning step_afterLaunch(3)] step_afterLaunch(4)] step_afterLaunch(5)])

section \<open>The pool of \<open>songProcess\<close> goroutines\<close>

text \<open>
  What a step does to a goroutine, in a state that satisfies the invariant: it takes a
  value from the pool when it passes the receive, keeps the pool through the body, gives
  the value back when it leaves, and then reports to the wait group.
\<close>

lemma step_task:
  assumes "step \<sigma> \<sigma>'" and "invariant \<sigma>" and "i < length (tasks \<sigma>)"
    and "tasks \<sigma>' ! i \<noteq> tasks \<sigma> ! i"
  shows "(tasks \<sigma> ! i = Spawned \<and> tasks \<sigma>' ! i = Staging \<and> 0 < pool \<sigma> \<and> pool \<sigma>' + 1 = pool \<sigma>) \<or>
         (tasks \<sigma> ! i = Staging \<and> (tasks \<sigma>' ! i = Processing \<or> tasks \<sigma>' ! i = Returning) \<and>
            pool \<sigma>' = pool \<sigma>) \<or>
         (tasks \<sigma> ! i = Processing \<and> tasks \<sigma>' ! i = Returning \<and> pool \<sigma>' = pool \<sigma>) \<or>
         (tasks \<sigma> ! i = Returning \<and> tasks \<sigma>' ! i = Released \<and> pool \<sigma>' = pool \<sigma> + 1) \<or>
         (tasks \<sigma> ! i = Released \<and> tasks \<sigma>' ! i = Finished \<and> pool \<sigma>' = pool \<sigma>)"
  using assms(1)
proof (cases rule: step.cases)
  case (acquire_closed j)
  with invariant_unfinished(2) [OF assms(2), of j] show ?thesis
    by simp
next
  case (acquire j)
  with assms(3,4) show ?thesis
    by (cases "i = j") simp_all
next
  case (staged j)
  with assms(3,4) show ?thesis
    by (cases "i = j") simp_all
next
  case (unstaged j)
  with assms(3,4) show ?thesis
    by (cases "i = j") simp_all
next
  case (processed j)
  with assms(3,4) show ?thesis
    by (cases "i = j") simp_all
next
  case (release j)
  with assms(3,4) show ?thesis
    by (cases "i = j") simp_all
next
  case (finish j)
  with assms(3,4) show ?thesis
    by (cases "i = j") simp_all
qed (use assms(3,4) in \<open>simp_all add: advance_def nth_append\<close>)

text \<open>The deferred send of a goroutine that returns is never blocked and never panics.\<close>

lemma release_enabled:
  assumes "invariant \<sigma>" and "\<not> halted \<sigma>" and "i < length (tasks \<sigma>)"
    and "tasks \<sigma> ! i = Returning"
  shows "step \<sigma> (\<sigma>\<lparr>pool := pool \<sigma> + 1, tasks := (tasks \<sigma>)[i := Released]\<rparr>)"
proof -
  from assms(3,4) have "Returning \<in> set (filter active (tasks \<sigma>))"
    by (auto simp: active_def in_set_conv_nth)
  then have "0 < activeCount (tasks \<sigma>)"
    unfolding activeCount_def by (metis length_pos_if_in_set)
  with assms(1) have "pool \<sigma> < concurrencyLimit"
    by (simp add: invariant_def)
  moreover from invariant_unfinished(2) [OF assms(1,3)] assms(4) have "\<not> closed \<sigma>"
    by simp
  ultimately show ?thesis
    using assms(2,3,4) by (intro step.release)
qed

text \<open>
  C5. In every state that a run of \<open>main\<close> reaches (whatever the arguments, the
  collaborators, the working set, the order of the track loop and the interleaving of the
  goroutines), with \<open>concurrencyLimit = 100\<close>: at most \<open>concurrencyLimit\<close> goroutines are
  past the receive from the pool and before their send to it, and each of them holds one
  value of the pool; nothing has panicked; a goroutine passes the receive only by taking
  a value from a pool that is not empty; the body of \<open>songProcess\<close> keeps the value and
  ends, after the staging has failed or after the stages, at the deferred send; that
  send is a step the goroutine can take at once, and it is the only step it takes there:
  it gives the value back.
\<close>

theorem songProcess_pool_bound:
  assumes "reachable (mainProgram a env order s) \<sigma>"
  shows "concurrencyLimit = 100 \<and>
         activeCount (tasks \<sigma>) \<le> concurrencyLimit \<and>
         pool \<sigma> + activeCount (tasks \<sigma>) = concurrencyLimit \<and>
         \<not> panicked \<sigma> \<and>
         (\<forall>\<sigma>' i. step \<sigma> \<sigma>' \<and> i < length (tasks \<sigma>) \<and> tasks \<sigma> ! i = Spawned \<and>
                  tasks \<sigma>' ! i \<noteq> Spawned \<longrightarrow>
            0 < pool \<sigma> \<and> pool \<sigma>' + 1 = pool \<sigma> \<and> tasks \<sigma>' ! i = Staging) \<and>
         (\<forall>\<sigma>' i. step \<sigma> \<sigma>' \<and> i < length (tasks \<sigma>) \<and> tasks \<sigma> ! i = Staging \<and>
                  tasks \<sigma>' ! i \<noteq> Staging \<longrightarrow>
            (tasks \<sigma>' ! i = Processing \<or> tasks \<sigma>' ! i = Returning) \<and> pool \<sigma>' = pool \<sigma>) \<and>
         (\<forall>\<sigma>' i. step \<sigma> \<sigma>' \<and> i < length (tasks \<sigma>) \<and> tasks \<sigma> ! i = Processing \<and>
                  tasks \<sigma>' ! i \<noteq> Processing \<longrightarrow>
            tasks \<sigma>' ! i = Returning \<and> pool \<sigma>' = pool \<sigma>) \<and>
         (\<forall>\<sigma>' i. step \<sigma> \<sigma>' \<and> i < length (tasks \<sigma>) \<and> tasks \<sigma> ! i = Returning \<and>
                  tasks \<sigma>' ! i \<noteq> Returning \<longrightarrow>
            tasks \<sigma>' ! i = Released \<and> pool \<sigma>' = pool \<sigma> + 1) \<and>
         (\<forall>i. \<not> halted \<sigma> \<and> i < length (tasks \<sigma>) \<and> tasks \<sigma> ! i = Returning \<longrightarrow>
            step \<sigma> (\<sigma>\<lparr>pool := pool \<sigma> + 1, tasks := (tasks \<sigma>)[i := Released]\<rparr>))"
proof -
  have inv: "invariant \<sigma>"
    using assms guarded_mainProgram by (rule reachable_invariant)
  have limit: "concurrencyLimit = 100"
    by (simp add: concurrencyLimit_def)
  from inv have held: "pool \<sigma> + activeCount (tasks \<sigma>) = concurrencyLimit"
    by (simp add: invariant_def)
  then have bound: "activeCount (tasks \<sigma>) \<le> concurrencyLimit"
    by simp
  from inv have calm: "\<not> panicked \<sigma>"
    by (simp add: invariant_def)
  have acquire: "0 < pool \<sigma> \<and> pool \<sigma>' + 1 = pool \<sigma> \<and> tasks \<sigma>' ! i = Staging"
    if "step \<sigma> \<sigma>' \<and> i < length (tasks \<sigma>) \<and> tasks \<sigma> ! i = Spawned \<and> tasks \<sigma>' ! i \<noteq> Spawned"
    for \<sigma>' i
    using step_task [of \<sigma> \<sigma>' i] inv that by auto
  have staging: "(tasks \<sigma>' ! i = Processing \<or> tasks \<sigma>' ! i = Returning) \<and> pool \<sigma>' = pool \<sigma>"
    if "step \<sigma> \<sigma>' \<and> i < length (tasks \<sigma>) \<and> tasks \<sigma> ! i = Staging \<and> tasks \<sigma>' ! i \<noteq> Staging"
    for \<sigma>' i
    using step_task [of \<sigma> \<sigma>' i] inv that by auto
  have processing: "tasks \<sigma>' ! i = Returning \<and> pool \<sigma>' = pool \<sigma>"
    if "step \<sigma> \<sigma>' \<and> i < length (tasks \<sigma>) \<and> tasks \<sigma> ! i = Processing \<and>
        tasks \<sigma>' ! i \<noteq> Processing"
    for \<sigma>' i
    using step_task [of \<sigma> \<sigma>' i] inv that by auto
  have returning: "tasks \<sigma>' ! i = Released \<and> pool \<sigma>' = pool \<sigma> + 1"
    if "step \<sigma> \<sigma>' \<and> i < length (tasks \<sigma>) \<and> tasks \<sigma> ! i = Returning \<and>
        tasks \<sigma>' ! i \<noteq> Returning"
    for \<sigma>' i
    using step_task [of \<sigma> \<sigma>' i] inv that by auto
  have release: "step \<sigma> (\<sigma>\<lparr>pool := pool \<sigma> + 1, tasks := (tasks \<sigma>)[i := Released]\<rparr>)"
    if "\<not> halted \<sigma> \<and> i < length (tasks \<sigma>) \<and> tasks \<sigma> ! i = Returning" for i
    using release_enabled [OF inv, of i] that by simp
  from limit bound held calm acquire staging processing returning release show ?thesis
    by blast
qed

text \<open>
  The theorem on the run with \<open>-flush-metadata\<close>: when the goroutine of object 3 passes
  the receive it takes one of the 100 values, and when its body has returned after a
  failed staging, one goroutine is active, 99 values are in the pool and the send that
  gives the value back is a step of the process.
\<close>

theorem songProcess_pool_bound_witness:
  "reachable (mainProgram flushMetadataArgs demoEnv [1, 3] (demoState 0)) afterLaunch \<and>
   step afterLaunch (afterLaunch\<lparr>pool := 99, tasks := [Staging]\<rparr>) \<and>
   0 < length (tasks afterLaunch) \<and> tasks afterLaunch ! 0 = Spawned \<and>
   tasks (afterLaunch\<lparr>pool := 99, tasks := [Staging]\<rparr>) ! 0 \<noteq> Spawned \<and>
   0 < pool afterLaunch \<and>
   pool (afterLaunch\<lparr>pool := 99, tasks := [Staging]\<rparr>) + 1 = pool afterLaunch \<and>
   reachable (mainProgram flushMetadataArgs demoEnv [1, 3] (demoState 0))
     (afterLaunch\<lparr>pool := 99, tasks := [Returning]\<rparr>) \<and>
   activeCount (tasks (afterLaunch\<lparr>pool := 99, tasks := [Returning]\<rparr>)) = 1 \<and>
   activeCount (tasks (afterLaunch\<lparr>pool := 99, tasks := [Returning]\<rparr>)) \<le> concurrencyLimit \<and>
   pool (afterLaunch\<lparr>pool := 99, tasks := [Returning]\<rparr>) +
     activeCount (tasks (afterLaunch\<lparr>pool := 99, tasks := [Returning]\<rparr>)) = concurrencyLimit \<and>
   \<not> halted (afterLaunch\<lparr>pool := 99, tasks := [Returning]\<rparr>) \<and>
   tasks (afterLaunch\<lparr>pool := 99, tasks := [Returning]\<rparr>) ! 0 = Returning \<and>
   step (afterLaunch\<lparr>pool := 99, tasks := [Returning]\<rparr>)
     (afterLaunch\<lparr>pool := 100, tasks := [Released]\<rparr>)"
proof -
  let ?staging = "afterLaunch\<lparr>pool := 99, tasks := [Staging]\<rparr>"
  let ?returning = "afterLaunch\<lparr>pool := 99, tasks := [Returning]\<rparr>"
  note launched = songProcess_pool_bound [OF reachable_afterLaunch]
  note returned = songProcess_pool_bound [OF reachable_returning]
  have h1: "step afterLaunch ?staging \<and> 0 < length (tasks afterLaunch) \<and>
      tasks afterLaunch ! 0 = Spawned \<and> tasks ?staging ! 0 \<noteq> Spawned"
    using step_afterLaunch(1) by (simp add: afterLaunch_def)
  from launched have "\<forall>\<sigma>' i. step afterLaunch \<sigma>' \<and> i < length (tasks afterLaunch) \<and>
      tasks afterLaunch ! i = Spawned \<and> tasks \<sigma>' ! i \<noteq> Spawned \<longrightarrow>
      0 < pool afterLaunch \<and> pool \<sigma>' + 1 = pool afterLaunch \<and> tasks \<sigma>' ! i = Staging"
    by (elim conjE)
  with h1 have c1: "0 < pool afterLaunch \<and> pool ?staging + 1 = pool afterLaunch"
    by blast
  from returned have c2: "activeCount (tasks ?returning) \<le> concurrencyLimit"
    by (elim conjE)
  from returned have c3: "pool ?returning + activeCount (tasks ?returning) = concurrencyLimit"
    by (elim conjE)
  have c4: "activeCount (tasks ?returning) = 1"
    by (simp add: activeCount_def active_def)
  have h2: "\<not> halted ?returning \<and> 0 < length (tasks ?returning) \<and>
      tasks ?returning ! 0 = Returning"
    by (simp add: afterLaunch_def)
  from returned have "\<forall>i. \<not> halted ?returning \<and> i < length (tasks ?returning) \<and>
      tasks ?returning ! i = Returning \<longrightarrow>
      step ?returning
        (?returning\<lparr>pool := pool ?returning + 1, tasks := (tasks ?returning)[i := Released]\<rparr>)"
    by (elim conjE)
  with h2 have "step ?returning
      (?returning\<lparr>pool := pool ?returning + 1, tasks := (tasks ?returning)[0 := Released]\<rparr>)"
    by blast
  then have c5: "step ?returning (afterLaunch\<lparr>pool := 100, tasks := [Released]\<rparr>)"
    by simp
  from reachable_afterLaunch reachable_returning h1 h2 c1 c2 c3 c4 c5 show ?thesis
    by (intro conjI) (elim conjE, assumption)+
qed

section \<open>The barrier before persistence and exit\<close>

lemma reachable_program: "reachable ops \<sigma> \<Longrightarrow> executed \<sigma> @ program \<sigma> = ops"
proof (induction rule: reachable.induct)
  case start
  show ?case by (simp add: initial_def)
next
  case (after \<sigma> \<sigma>')
  from after.hyps(2) after.IH show ?case
    by (cases rule: step.cases) (auto simp: advance_def)
qed

lemma guarded_persists: "persists e \<or> e = OsExit \<Longrightarrow> guarded b c (e # es) \<Longrightarrow> \<not> b"
  by (cases e) auto

lemma guarded_exit:
  "guarded b c (xs @ OsExit # ys) \<Longrightarrow> OsExit \<notin> set xs \<Longrightarrow> \<not> pendingAfter b xs"
proof (induction xs arbitrary: b c)
  case Nil
  then show ?case by simp
next
  case (Cons e xs)
  then show ?case by (cases e) auto
qed

text \<open>Nothing follows \<open>os.Exit\<close>: it is at most the last effect, of a process that has ended.\<close>

lemma reachable_exit:
  "reachable ops \<sigma> \<Longrightarrow>
   (\<not> halted \<sigma> \<longrightarrow> OsExit \<notin> set (executed \<sigma>)) \<and> OsExit \<notin> set (butlast (executed \<sigma>))"
proof (induction rule: reachable.induct)
  case start
  show ?case by (simp add: initial_def)
next
  case (after \<sigma> \<sigma>')
  from after.hyps(2) after.IH show ?case
    by (cases rule: step.cases) (auto simp: advance_def butlast_append)
qed

text \<open>
  C6 as stated does not hold: the process can end while a dispatched goroutine is in
  its stages. \<open>mainInit\<close> registers \<open>mainExit\<close> as the handler of the interrupt signal
  and \<open>mainUI\<close> as the handler of the shutdown of the interface, and \<open>mainExit\<close> calls
  \<open>os.Exit\<close> without waiting. In the run with \<open>-flush-metadata\<close>: the main goroutine
  launches the goroutine of object 3, which takes a value of the pool and enters its
  stages; then the interrupt ends the process.
\<close>

theorem persistence_barrier_interrupt_counterexample:
  "reachable (mainProgram flushMetadataArgs demoEnv [1, 3] (demoState 0))
     (afterLaunch\<lparr>pool := 99, tasks := [Processing], halted := True\<rparr>) \<and>
   halted (afterLaunch\<lparr>pool := 99, tasks := [Processing], halted := True\<rparr>) \<and>
   tasks (afterLaunch\<lparr>pool := 99, tasks := [Processing], halted := True\<rparr>) = [Processing] \<and>
   waitGroup (afterLaunch\<lparr>pool := 99, tasks := [Processing], halted := True\<rparr>) = 1 \<and>
   Processing \<noteq> Finished"
proof -
  let ?staging = "afterLaunch\<lparr>pool := 99, tasks := [Staging]\<rparr>"
  let ?processing = "afterLaunch\<lparr>pool := 99, tasks := [Processing]\<rparr>"
  have "step ?staging ?processing"
    using step.staged [of ?staging 0] by (simp add: afterLaunch_def)
  moreover have "step ?processing (?processing\<lparr>halted := True\<rparr>)"
    by (rule step.interrupt) (simp add: afterLaunch_def)
  ultimately have "reachable (mainProgram flushMetadataArgs demoEnv [1, 3] (demoState 0))
      (?processing\<lparr>halted := True\<rparr>)"
    using reachable_afterLaunch step_afterLaunch(1) by (blast intro: reachable.after)
  then show ?thesis
    by (simp add: afterLaunch_def)
qed

text \<open>
  C6, amended: the barrier holds for what the main goroutine does. In every state that a
  run of \<open>main\<close> reaches (whatever the arguments, the collaborators, the working set, the
  order of the track loop and the interleaving of the goroutines): when the main
  goroutine persists the rename index or a snapshot of the cache, or calls \<open>os.Exit\<close>,
  every goroutine that has been launched has finished, after a failed staging or after
  its stages, and the counter of the wait group is zero; and when the process has ended
  by the \<open>os.Exit\<close> of the main goroutine, every goroutine has finished. Only the
  handler of the interrupt, or of the shutdown of the interface, ends the process
  earlier.
\<close>

theorem persistence_barrier:
  assumes "reachable (mainProgram a env order s) \<sigma>"
  shows "(\<forall>\<sigma>' e. step \<sigma> \<sigma>' \<and> executed \<sigma>' = executed \<sigma> @ [e] \<and> (persists e \<or> e = OsExit) \<longrightarrow>
            (\<forall>p \<in> set (tasks \<sigma>). p = Finished) \<and> tasks \<sigma>' = tasks \<sigma> \<and> waitGroup \<sigma> = 0) \<and>
         (halted \<sigma> \<and> executed \<sigma> \<noteq> [] \<and> last (executed \<sigma>) = OsExit \<longrightarrow>
            (\<forall>p \<in> set (tasks \<sigma>). p = Finished))"
proof -
  have inv: "invariant \<sigma>"
    using assms guarded_mainProgram by (rule reachable_invariant)
  have idle: "(\<forall>p \<in> set (tasks \<sigma>). p = Finished) \<and> waitGroup \<sigma> = 0"
    if "\<not> pendingAfter False (executed \<sigma>)"
    using inv that all_finished_no_unfinished [of "tasks \<sigma>"] by (simp add: invariant_def)
  have performs: "(\<forall>p \<in> set (tasks \<sigma>). p = Finished) \<and> tasks \<sigma>' = tasks \<sigma> \<and> waitGroup \<sigma> = 0"
    if "step \<sigma> \<sigma>' \<and> executed \<sigma>' = executed \<sigma> @ [e] \<and> (persists e \<or> e = OsExit)" for \<sigma>' e
  proof -
    from that have st: "step \<sigma> \<sigma>'" and ex: "executed \<sigma>' = executed \<sigma> @ [e]"
      and pe: "persists e \<or> e = OsExit"
      by simp_all
    from st show ?thesis
    proof (cases rule: step.cases)
      case (go t rest)
      with ex pe show ?thesis by (auto simp: advance_def)
    next
      case (wait rest)
      with ex pe show ?thesis by (auto simp: advance_def)
    next
      case (close rest)
      with ex pe show ?thesis by (auto simp: advance_def)
    next
      case (exit rest)
      with inv have "\<not> pendingAfter False (executed \<sigma>)"
        by (simp add: invariant_def)
      with idle exit show ?thesis by (simp add: advance_def)
    next
      case (effect e' rest)
      with ex have "e' = e" by (simp add: advance_def)
      with effect inv pe guarded_persists [of e "pendingAfter False (executed \<sigma>)" "closed \<sigma>" rest]
      have "\<not> pendingAfter False (executed \<sigma>)"
        by (simp add: invariant_def)
      with idle effect show ?thesis by (simp add: advance_def)
    qed (use ex in simp_all)
  qed
  have exits: "\<forall>p \<in> set (tasks \<sigma>). p = Finished"
    if "halted \<sigma> \<and> executed \<sigma> \<noteq> [] \<and> last (executed \<sigma>) = OsExit"
  proof -
    from that have xs: "executed \<sigma> = butlast (executed \<sigma>) @ [OsExit]"
      by (metis append_butlast_last_id)
    from reachable_program [OF assms] guarded_mainProgram [of a env order s]
    have "guarded False False (executed \<sigma> @ program \<sigma>)"
      by simp
    with xs have "guarded False False (butlast (executed \<sigma>) @ OsExit # program \<sigma>)"
      by (metis append.assoc append_Cons append_Nil)
    with reachable_exit [OF assms] have "\<not> pendingAfter False (butlast (executed \<sigma>))"
      using guarded_exit [of False False "butlast (executed \<sigma>)" "program \<sigma>"] by simp
    with pendingAfter_append [of False "butlast (executed \<sigma>)" "[OsExit]"] xs
    have "\<not> pendingAfter False (executed \<sigma>)"
      by simp
    with idle show ?thesis by simp
  qed
  from performs exits show ?thesis
    by blast
qed

text \<open>
  The theorem on the run with \<open>-flush-metadata\<close>, after the barrier: the main goroutine
  persists the index, and the goroutine of object 3 has finished.
\<close>

theorem persistence_barrier_witness:
  "reachable (mainProgram flushMetadataArgs demoEnv [1, 3] (demoState 0)) afterBarrier \<and>
   step afterBarrier (advance afterBarrier) \<and>
   executed (advance afterBarrier) = executed afterBarrier @ [IndexSyncCall ''index.gob''] \<and>
   persists (IndexSyncCall ''index.gob'') \<and>
   set (tasks afterBarrier) \<subseteq> {Finished} \<and>
   tasks (advance afterBarrier) = tasks afterBarrier \<and>
   waitGroup afterBarrier = 0"
proof -
  note barrier = persistence_barrier [OF reachable_afterBarrier]
  have st: "step afterBarrier (advance afterBarrier)"
    by (rule step.effect [of afterBarrier "IndexSyncCall ''index.gob''"
          "[ClosePool, WaitGroupWait, OsExit]"])
      (simp_all add: afterBarrier_def)
  have ex: "executed (advance afterBarrier) = executed afterBarrier @ [IndexSyncCall ''index.gob'']"
    by (simp add: advance_def afterBarrier_def)
  have pe: "persists (IndexSyncCall ''index.gob'')"
    by simp
  from barrier have "\<forall>\<sigma>' e. step afterBarrier \<sigma>' \<and> executed \<sigma>' = executed afterBarrier @ [e] \<and>
      (persists e \<or> e = OsExit) \<longrightarrow>
      (\<forall>p \<in> set (tasks afterBarrier). p = Finished) \<and> tasks \<sigma>' = tasks afterBarrier \<and>
      waitGroup afterBarrier = 0"
    by (elim conjE)
  with st ex pe have c: "(\<forall>p \<in> set (tasks afterBarrier). p = Finished) \<and>
      tasks (advance afterBarrier) = tasks afterBarrier \<and> waitGroup afterBarrier = 0"
    by blast
  then have "set (tasks afterBarrier) \<subseteq> {Finished}"
    by blast
  with reachable_afterBarrier st ex pe c show ?thesis
    by (intro conjI) (elim conjE, assumption)+
qed

end
